(* ===== verification/Float64.thy ===== *)
theory Float64
  imports Complex_Main
begin

text \<open>
  Go's \<^verbatim>\<open>float64\<close>: IEEE 754 binary64 with round to nearest, ties to even.
  A finite value is a real that is a 53-bit integer times a power of two between
  \<open>2^-1074\<close> and \<open>2^971\<close>; beside the finite values there are the two infinities and
  NaN. The operations compute the exact real result and round it once. The two zeros are
  one value here: the program never divides by a zero (every divisor is compared with 0
  first or is a positive constant) and never prints a zero's sign in a decision.

  The arithmetic of the program is written over HOL's syntactic type classes
  (\<open>plus\<close>, \<open>minus\<close>, \<open>times\<close>, \<open>divide\<close>, \<open>ord\<close>, \<open>zero\<close>, and \<open>scaleR\<close>, \<open>size\<close> for
  literals and conversions), which the type \<open>f64\<close> of this theory instantiates: the code's
  behaviour is the instance at \<open>f64\<close>, and the same definitions at \<open>real\<close> are the exact
  arithmetic the code approximates.
\<close>

section \<open>Rounding\<close>

subsection \<open>To an integer, ties to even\<close>

definition rne :: "real \<Rightarrow> int" where
  "rne y = (let n = \<lfloor>y\<rfloor>; d = y - of_int n
            in if d < 1/2 \<or> (d = 1/2 \<and> even n) then n else n + 1)"

lemma rne_of_int [simp]: "rne (of_int n) = n"
  by (simp add: rne_def)

lemma rne_bounds: "of_int (rne y) - 1/2 \<le> y" "y \<le> of_int (rne y) + 1/2"
  unfolding rne_def Let_def by (auto; linarith)+

lemma rne_mono:
  assumes "x \<le> y"
  shows "rne x \<le> rne y"
proof (cases "\<lfloor>x\<rfloor> = \<lfloor>y\<rfloor>")
  case True
  with assms show ?thesis by (auto simp: rne_def Let_def)
next
  case False
  with assms have "\<lfloor>x\<rfloor> + 1 \<le> \<lfloor>y\<rfloor>" by linarith
  moreover have "rne x \<le> \<lfloor>x\<rfloor> + 1" and "\<lfloor>y\<rfloor> \<le> rne y" by (auto simp: rne_def Let_def)
  ultimately show ?thesis by linarith
qed

lemma rne_minus: "rne (- y) = - rne y"
proof (cases "y = of_int \<lfloor>y\<rfloor>")
  case True
  then show ?thesis by (metis of_int_minus rne_of_int)
next
  case False
  then have fl: "\<lfloor>- y\<rfloor> = - \<lfloor>y\<rfloor> - 1" by linarith
  show ?thesis unfolding rne_def Let_def fl by (auto; linarith)
qed

lemma rne_le_of_int: "y \<le> of_int n \<Longrightarrow> rne y \<le> n"
  using rne_mono [of y "of_int n"] by simp

lemma rne_ge_of_int: "of_int n \<le> y \<Longrightarrow> n \<le> rne y"
  using rne_mono [of "of_int n" y] by simp

subsection \<open>To 53 significant bits\<close>

text \<open>
  Values are scaled by \<open>2^1074\<close>, so that the finite floats are integers.
  \<open>ulp_exp s\<close> is the exponent of the spacing of the floats around \<open>s\<close>: the least
  \<open>k\<close> with \<open>\<bar>s\<bar> < 2 ^ (53 + k)\<close>, at most 2045.
\<close>

definition ulp_exp :: "real \<Rightarrow> nat" where
  "ulp_exp s = length (takeWhile (\<lambda>k. 2 ^ (53 + k) \<le> \<bar>s\<bar>) [0..<2045])"

lemma ulp_exp_le: "ulp_exp s \<le> 2045"
  using length_takeWhile_le [of _ "[0..<2045]"] by (simp add: ulp_exp_def)

lemma ulp_exp_below:
  assumes "j < ulp_exp s"
  shows "2 ^ (53 + j) \<le> \<bar>s\<bar>"
proof -
  let ?xs = "takeWhile (\<lambda>k. 2 ^ (53 + k) \<le> \<bar>s\<bar>) [0..<2045]"
  have j: "j < length ?xs" using assms by (simp add: ulp_exp_def)
  then have "?xs ! j \<in> set ?xs" by (rule nth_mem)
  then have "2 ^ (53 + ?xs ! j) \<le> \<bar>s\<bar>" by (rule set_takeWhileD [THEN conjunct2])
  moreover have "?xs ! j = [0..<2045] ! j" using j by (rule takeWhile_nth)
  moreover have "j < 2045" using assms ulp_exp_le [of s] by linarith
  ultimately show ?thesis by simp
qed

lemma ulp_exp_above:
  assumes "ulp_exp s < 2045"
  shows "\<bar>s\<bar> < 2 ^ (53 + ulp_exp s)"
proof -
  let ?P = "\<lambda>k. 2 ^ (53 + k) \<le> \<bar>s\<bar>"
  have "\<not> ?P ([0..<2045] ! length (takeWhile ?P [0..<2045]))"
    by (rule nth_length_takeWhile) (use assms in \<open>simp add: ulp_exp_def\<close>)
  with assms show ?thesis by (simp add: ulp_exp_def)
qed

lemma ulp_exp_minus [simp]: "ulp_exp (- s) = ulp_exp s"
  by (simp add: ulp_exp_def)

lemma ulp_exp_mono:
  assumes "\<bar>s\<bar> \<le> \<bar>t\<bar>"
  shows "ulp_exp s \<le> ulp_exp t"
proof (rule ccontr)
  assume "\<not> ulp_exp s \<le> ulp_exp t"
  then have lt: "ulp_exp t < ulp_exp s" by simp
  then have "2 ^ (53 + ulp_exp t) \<le> \<bar>s\<bar>" by (rule ulp_exp_below)
  moreover have "\<bar>t\<bar> < 2 ^ (53 + ulp_exp t)"
    by (rule ulp_exp_above) (use lt ulp_exp_le [of s] in linarith)
  ultimately show False using assms by linarith
qed

text \<open>\<open>srnd\<close> rounds a scaled value, \<open>rnd\<close> a real.\<close>

definition srnd :: "real \<Rightarrow> int" where
  "srnd s = rne (s / 2 ^ ulp_exp s) * 2 ^ ulp_exp s"

definition fscale :: real where
  "fscale = 2 ^ 1074"

lemma fscale_pos [simp]: "0 < fscale" "fscale \<noteq> 0" "\<bar>fscale\<bar> = fscale"
  by (simp_all add: fscale_def)

lemma fscale_split: "k \<le> 1074 \<Longrightarrow> fscale = 2 ^ (1074 - k) * 2 ^ k"
  unfolding fscale_def by (metis le_add_diff_inverse2 power_add)

definition rnd :: "real \<Rightarrow> real" where
  "rnd x = of_int (srnd (x * fscale)) / fscale"

lemma srnd_minus: "srnd (- s) = - srnd s"
  by (simp add: srnd_def rne_minus)

lemma srnd_nonneg: "0 \<le> s \<Longrightarrow> 0 \<le> srnd s"
  by (simp add: srnd_def rne_ge_of_int)

lemma srnd_le_pow:
  assumes "0 \<le> s" "s \<le> 2 ^ (53 + k)" "ulp_exp s \<le> k"
  shows "srnd s \<le> 2 ^ (53 + k)"
proof -
  let ?j = "ulp_exp s"
  have "s / 2 ^ ?j \<le> of_int (2 ^ (53 + k - ?j))"
    using assms by (simp add: field_simps flip: power_add)
  then have "rne (s / 2 ^ ?j) \<le> 2 ^ (53 + k - ?j)" by (rule rne_le_of_int)
  then have "srnd s \<le> 2 ^ (53 + k - ?j) * 2 ^ ?j"
    unfolding srnd_def by (rule mult_right_mono) simp
  also have "\<dots> = 2 ^ (53 + k)" using assms by (simp flip: power_add)
  finally show ?thesis .
qed

lemma srnd_ge_pow:
  assumes "2 ^ (53 + k) \<le> t" "k < ulp_exp t"
  shows "2 ^ (53 + k) \<le> srnd t"
proof -
  let ?j = "ulp_exp t"
  have "2 ^ (53 + (?j - 1)) \<le> \<bar>t\<bar>" by (rule ulp_exp_below) (use assms in simp)
  moreover have t: "0 \<le> t" using assms(1) zero_le_power [of "2::real" "53 + k"] by linarith
  ultimately have "(2::real) ^ (53 + (?j - 1)) / 2 ^ ?j \<le> t / 2 ^ ?j"
    by (intro divide_right_mono) auto
  moreover have "53 + (?j - 1) = 52 + ?j" using assms(2) by simp
  then have "(2::real) ^ (53 + (?j - 1)) = 2 ^ 52 * 2 ^ ?j" by (simp only: power_add)
  ultimately have "of_int (2 ^ 52) \<le> t / 2 ^ ?j" by simp
  then have "2 ^ 52 \<le> rne (t / 2 ^ ?j)" by (rule rne_ge_of_int)
  then have "2 ^ 52 * 2 ^ ?j \<le> srnd t" unfolding srnd_def by (rule mult_right_mono) simp
  moreover have "(2::int) ^ (53 + k) \<le> 2 ^ (52 + ?j)" using assms(2) by (intro power_increasing) auto
  ultimately show ?thesis by (simp add: power_add)
qed

lemma srnd_mono_nonneg:
  assumes "0 \<le> s" "s \<le> t"
  shows "srnd s \<le> srnd t"
proof (cases "ulp_exp s = ulp_exp t")
  case True
  then show ?thesis using assms
    by (auto simp: srnd_def intro!: mult_right_mono rne_mono divide_right_mono)
next
  case False
  with assms ulp_exp_mono [of s t] have lt: "ulp_exp s < ulp_exp t" by simp
  with ulp_exp_le [of t] have "\<bar>s\<bar> < 2 ^ (53 + ulp_exp s)" by (intro ulp_exp_above) simp
  then have "srnd s \<le> 2 ^ (53 + ulp_exp s)" using assms(1) by (intro srnd_le_pow) auto
  also have "\<dots> \<le> srnd t"
    by (rule srnd_ge_pow) (use lt ulp_exp_below [OF lt] assms in auto)
  finally show ?thesis .
qed

lemma srnd_mono:
  assumes "s \<le> t"
  shows "srnd s \<le> srnd t"
proof -
  consider "0 \<le> s" | "t \<le> 0" | "s < 0" "0 < t" by linarith
  then show ?thesis
  proof cases
    case 1
    then show ?thesis using assms by (rule srnd_mono_nonneg)
  next
    case 2
    then have "srnd (- t) \<le> srnd (- s)" using assms by (intro srnd_mono_nonneg) auto
    then show ?thesis by (simp add: srnd_minus)
  next
    case 3
    then have "0 \<le> srnd (- s)" and "0 \<le> srnd t" by (auto intro: srnd_nonneg)
    then show ?thesis by (simp add: srnd_minus)
  qed
qed

lemma rnd_mono: "x \<le> y \<Longrightarrow> rnd x \<le> rnd y"
  unfolding rnd_def
  by (intro divide_right_mono of_int_le_iff [THEN iffD2] srnd_mono mult_right_mono) (auto simp: less_imp_le)

lemma rnd_minus [simp]: "rnd (- x) = - rnd x"
  by (simp add: rnd_def srnd_minus)

lemma rnd_0 [simp]: "rnd 0 = 0"
proof -
  have "rne 0 = 0" using rne_of_int [of 0] by simp
  then show ?thesis by (simp add: rnd_def srnd_def)
qed


lemma srnd_exact:
  assumes "2 ^ ulp_exp (of_int n) dvd n"
  shows "srnd (of_int n) = n"
proof -
  obtain m where n: "n = 2 ^ ulp_exp (of_int n) * m" using assms by (rule dvdE)
  then have "real_of_int n / 2 ^ ulp_exp (of_int n) = of_int m"
    by (metis mult.commute nonzero_mult_div_cancel_right of_int_mult of_int_numeral of_int_power
        power_not_zero zero_neq_numeral)
  then have "srnd (of_int n) = m * 2 ^ ulp_exp (of_int n)" by (simp add: srnd_def)
  with n show ?thesis by (simp add: mult.commute)
qed

lemma ulp_dvd_srnd: "2 ^ ulp_exp (of_int (srnd s)) dvd srnd s"
proof (cases "ulp_exp (of_int (srnd s)) \<le> ulp_exp s")
  case True
  then have "(2::int) ^ ulp_exp (of_int (srnd s)) dvd 2 ^ ulp_exp s" by (rule le_imp_power_dvd)
  also have "\<dots> dvd srnd s" by (simp add: srnd_def)
  finally show ?thesis .
next
  case False
  let ?k = "ulp_exp s"
  from False have lt: "?k < ulp_exp (of_int (srnd s))" by simp
  from ulp_exp_below [OF lt] have "of_int (2 ^ (53 + ?k)) \<le> real_of_int \<bar>srnd s\<bar>" by simp
  then have ge: "2 ^ (53 + ?k) \<le> \<bar>srnd s\<bar>" by linarith
  have "?k < 2045" using lt ulp_exp_le [of "of_int (srnd s)"] by linarith
  then have "\<bar>s\<bar> \<le> 2 ^ (53 + ?k)" using ulp_exp_above [of s] by simp
  then have "srnd \<bar>s\<bar> \<le> 2 ^ (53 + ?k)" by (intro srnd_le_pow) (auto simp: abs_real_def)
  moreover have "\<bar>srnd s\<bar> = srnd \<bar>s\<bar>"
    using srnd_nonneg [of s] srnd_nonneg [of "- s"] by (auto simp: abs_real_def srnd_minus)
  ultimately have eq: "\<bar>srnd s\<bar> = 2 ^ (53 + ?k)" using ge by linarith
  have "ulp_exp (of_int (srnd s)) \<le> 53 + ?k"
  proof (rule ccontr)
    assume "\<not> ?thesis"
    then have "2 ^ (53 + (53 + ?k)) \<le> \<bar>real_of_int (srnd s)\<bar>" by (intro ulp_exp_below) simp
    also have "\<dots> = 2 ^ (53 + ?k)" using arg_cong [OF eq, of real_of_int] by simp
    finally show False by (simp add: power_add)
  qed
  then have "(2::int) ^ ulp_exp (of_int (srnd s)) dvd \<bar>srnd s\<bar>"
    unfolding eq by (rule le_imp_power_dvd)
  then show ?thesis by simp
qed

lemma rnd_rnd [simp]: "rnd (rnd x) = rnd x"
  by (simp add: rnd_def srnd_exact ulp_dvd_srnd)

text \<open>A 53-bit integer times a power of two in range is not changed by rounding.\<close>

lemma rnd_exact:
  assumes "x * fscale = of_int (n * 2 ^ j)" "\<bar>n\<bar> < 2 ^ 53"
  shows "rnd x = x"
proof -
  let ?s = "real_of_int (n * 2 ^ j)"
  have "ulp_exp ?s \<le> j"
  proof (rule ccontr)
    assume "\<not> ?thesis"
    then have "2 ^ (53 + j) \<le> \<bar>?s\<bar>" by (intro ulp_exp_below) simp
    moreover have "\<bar>?s\<bar> = of_int \<bar>n\<bar> * 2 ^ j" by (simp add: abs_mult)
    moreover have "real_of_int \<bar>n\<bar> < 2 ^ 53"
      using assms(2) by (metis of_int_less_iff of_int_numeral of_int_power)
    ultimately show False by (simp add: power_add)
  qed
  then have "2 ^ ulp_exp ?s dvd n * 2 ^ j" by (intro dvd_mult le_imp_power_dvd)
  then have "srnd ?s = n * 2 ^ j" by (rule srnd_exact)
  then show ?thesis unfolding rnd_def assms(1) by (simp add: divide_eq_eq assms(1))
qed

lemma rnd_dyadic:
  assumes "\<bar>n\<bar> < 2 ^ 53" "k \<le> 1074"
  shows "rnd (of_int n / 2 ^ k) = of_int n / 2 ^ k"
  by (rule rnd_exact [of _ n "1074 - k"]) (use assms in \<open>simp_all add: fscale_split\<close>)

lemma rnd_of_int: "\<bar>n\<bar> < 2 ^ 53 \<Longrightarrow> rnd (of_int n) = of_int n"
  using rnd_dyadic [of n 0] by simp

text \<open>The rounding error: half a unit in the last place.\<close>

lemma srnd_error: "\<bar>of_int (srnd s) - s\<bar> \<le> \<bar>s\<bar> / 2 ^ 53 + 1 / 2"
proof -
  let ?k = "ulp_exp s" and ?y = "s / 2 ^ ulp_exp s"
  have "\<bar>of_int (rne ?y) - ?y\<bar> \<le> 1 / 2" using rne_bounds [of ?y] by linarith
  then have "\<bar>of_int (rne ?y) - ?y\<bar> * 2 ^ ?k \<le> 1 / 2 * 2 ^ ?k" by (rule mult_right_mono) simp
  moreover have "of_int (srnd s) - s = (of_int (rne ?y) - ?y) * 2 ^ ?k"
    by (simp add: srnd_def left_diff_distrib)
  ultimately have *: "\<bar>of_int (srnd s) - s\<bar> \<le> 2 ^ ?k / 2" by (simp add: abs_mult)
  show ?thesis
  proof (cases ?k)
    case 0
    then show ?thesis using * by (simp add: add_increasing)
  next
    case (Suc j)
    then have "2 ^ (53 + j) \<le> \<bar>s\<bar>" by (intro ulp_exp_below) simp
    then have "2 ^ ?k / 2 \<le> \<bar>s\<bar> / 2 ^ 53" using Suc by (simp add: field_simps power_add)
    with * show ?thesis by linarith
  qed
qed

lemma rnd_error: "\<bar>rnd x - x\<bar> \<le> \<bar>x\<bar> / 2 ^ 53 + 1 / (2 * fscale)"
proof -
  have "\<bar>of_int (srnd (x * fscale)) - x * fscale\<bar> / fscale
      \<le> (\<bar>x * fscale\<bar> / 2 ^ 53 + 1 / 2) / fscale"
    by (intro divide_right_mono srnd_error) (simp add: less_imp_le)
  moreover have "rnd x - x = (of_int (srnd (x * fscale)) - x * fscale) / fscale"
    by (simp add: rnd_def diff_divide_distrib)
  ultimately show ?thesis by (simp add: abs_mult add_divide_distrib)
qed


section \<open>The type\<close>

text \<open>\<open>to_fval\<close> rounds an exact result; a result that rounds to \<open>2 ^ 1024\<close> or more is infinite.\<close>

datatype fval = Fin real | PInf | NInf | NaN

definition fover :: real where
  "fover = 2 ^ 1024"

lemma fover_pos [simp]: "0 < fover" "- fover < 0" "- fover < fover" "\<not> fover \<le> - fover"
  by (simp_all add: fover_def)

fun wf_fval :: "fval \<Rightarrow> bool" where
  "wf_fval (Fin r) = (rnd r = r \<and> \<bar>r\<bar> < fover)"
| "wf_fval _ = True"

definition to_fval :: "real \<Rightarrow> fval" where
  "to_fval x = (if fover \<le> rnd x then PInf else if rnd x \<le> - fover then NInf else Fin (rnd x))"

lemma wf_to_fval [simp]: "wf_fval (to_fval x)"
  by (auto simp: to_fval_def)

lemma to_fval_wf: "wf_fval (Fin r) \<Longrightarrow> to_fval r = Fin r"
  by (auto simp: to_fval_def)

lemma to_fval_0 [simp]: "to_fval 0 = Fin 0"
  by (rule to_fval_wf) simp

fun fneg :: "fval \<Rightarrow> fval" where
  "fneg (Fin a) = Fin (- a)"
| "fneg PInf = NInf"
| "fneg NInf = PInf"
| "fneg NaN = NaN"

fun fadd :: "fval \<Rightarrow> fval \<Rightarrow> fval" where
  "fadd (Fin a) (Fin b) = to_fval (a + b)"
| "fadd NaN y = NaN"
| "fadd x NaN = NaN"
| "fadd PInf NInf = NaN"
| "fadd NInf PInf = NaN"
| "fadd PInf y = PInf"
| "fadd NInf y = NInf"
| "fadd x PInf = PInf"
| "fadd x NInf = NInf"

text \<open>The infinity with the sign of a number; NaN for zero.\<close>

definition finf :: "real \<Rightarrow> fval" where
  "finf r = (if 0 < r then PInf else if r < 0 then NInf else NaN)"

fun fsgn :: "fval \<Rightarrow> real" where
  "fsgn (Fin a) = sgn a"
| "fsgn PInf = 1"
| "fsgn NInf = -1"
| "fsgn NaN = 0"

fun fmul :: "fval \<Rightarrow> fval \<Rightarrow> fval" where
  "fmul (Fin a) (Fin b) = to_fval (a * b)"
| "fmul x y = finf (fsgn x * fsgn y)"

fun fdiv :: "fval \<Rightarrow> fval \<Rightarrow> fval" where
  "fdiv (Fin a) (Fin b) = (if b = 0 then finf a else to_fval (a / b))"
| "fdiv (Fin a) NaN = NaN"
| "fdiv (Fin a) y = Fin 0"
| "fdiv x (Fin b) = finf (fsgn x * (if b = 0 then 1 else sgn b))"
| "fdiv x y = NaN"

text \<open>Comparisons with NaN are false.\<close>

fun flt :: "fval \<Rightarrow> fval \<Rightarrow> bool" where
  "flt (Fin a) (Fin b) = (a < b)"
| "flt (Fin a) PInf = True"
| "flt NInf (Fin b) = True"
| "flt NInf PInf = True"
| "flt x y = False"

definition fle :: "fval \<Rightarrow> fval \<Rightarrow> bool" where
  "fle x y = (flt x y \<or> (x = y \<and> x \<noteq> NaN))"

fun fsize :: "fval \<Rightarrow> nat" where
  "fsize (Fin a) = nat \<lfloor>\<bar>a\<bar>\<rfloor>"
| "fsize _ = 0"

fun fabs :: "fval \<Rightarrow> fval" where
  "fabs (Fin a) = Fin \<bar>a\<bar>"
| "fabs NaN = NaN"
| "fabs _ = PInf"

lemma wf_finf [simp]: "wf_fval (finf r)"
  by (simp add: finf_def)

lemma wf_fneg [simp]: "wf_fval x \<Longrightarrow> wf_fval (fneg x)"
  by (cases x) auto

lemma wf_fabs [simp]: "wf_fval x \<Longrightarrow> wf_fval (fabs x)"
  by (cases x) (auto simp: abs_real_def)

lemma wf_fadd [simp]: "wf_fval x \<Longrightarrow> wf_fval y \<Longrightarrow> wf_fval (fadd x y)"
  by (cases "(x, y)" rule: fadd.cases) auto

lemma wf_fmul [simp]: "wf_fval (fmul x y)"
  by (cases "(x, y)" rule: fmul.cases) auto

lemma wf_fdiv [simp]: "wf_fval (fdiv x y)"
  by (cases "(x, y)" rule: fdiv.cases) auto

typedef f64 = "{x. wf_fval x}" morphisms fval_of Abs_f64
  by (rule exI [of _ "Fin 0"]) simp

setup_lifting type_definition_f64

lift_definition mk :: "real \<Rightarrow> f64" is to_fval by simp

lift_definition is_fin :: "f64 \<Rightarrow> bool" is "\<lambda>x. case x of Fin _ \<Rightarrow> True | _ \<Rightarrow> False" .

lift_definition is_nan :: "f64 \<Rightarrow> bool" is "\<lambda>x. x = NaN" .

text \<open>The real number a finite value is.\<close>

lift_definition to_real :: "f64 \<Rightarrow> real" is "\<lambda>x. case x of Fin r \<Rightarrow> r | _ \<Rightarrow> 0" .

lift_definition posinf :: f64 is PInf by simp

lift_definition nan :: f64 is NaN by simp

instantiation f64 :: "{zero, one, plus, uminus, minus, times, inverse, ord, abs, size, scaleR, equal}"
begin

lift_definition zero_f64 :: f64 is "Fin 0" by simp

definition one_f64 :: f64 where "one_f64 = mk 1"

lift_definition plus_f64 :: "f64 \<Rightarrow> f64 \<Rightarrow> f64" is fadd by simp

lift_definition uminus_f64 :: "f64 \<Rightarrow> f64" is fneg by simp

definition minus_f64 :: "f64 \<Rightarrow> f64 \<Rightarrow> f64" where "minus_f64 x y = x + (- y)"

lift_definition times_f64 :: "f64 \<Rightarrow> f64 \<Rightarrow> f64" is fmul by simp

lift_definition divide_f64 :: "f64 \<Rightarrow> f64 \<Rightarrow> f64" is fdiv by simp

lift_definition inverse_f64 :: "f64 \<Rightarrow> f64" is "fdiv (to_fval 1)" by simp

lift_definition less_f64 :: "f64 \<Rightarrow> f64 \<Rightarrow> bool" is flt .

lift_definition less_eq_f64 :: "f64 \<Rightarrow> f64 \<Rightarrow> bool" is fle .

lift_definition abs_f64 :: "f64 \<Rightarrow> f64" is fabs by simp

lift_definition size_f64 :: "f64 \<Rightarrow> nat" is fsize .

definition scaleR_f64 :: "real \<Rightarrow> f64 \<Rightarrow> f64" where "scaleR_f64 r x = mk r * x"

lift_definition equal_f64 :: "f64 \<Rightarrow> f64 \<Rightarrow> bool" is HOL.equal .

instance
  by standard (transfer, simp add: equal_eq)

end


subsection \<open>Literals and conversions\<close>

text \<open>
  \<open>lit r\<close> is the literal \<open>r\<close> of the source, rounded to the type it is used at;
  \<open>of_count n\<close> is \<^verbatim>\<open>float64(n)\<close>; \<open>trunc\<close> is the conversion \<^verbatim>\<open>int(x)\<close>, which discards
  the fraction.
\<close>

definition lit :: "real \<Rightarrow> 'f::{scaleR,one}" where
  "lit r = r *\<^sub>R 1"

definition of_count :: "int \<Rightarrow> 'f::{scaleR,one}" where
  "of_count n = lit (of_int n)"

definition trunc :: "'f::{size,ord,zero} \<Rightarrow> int" where
  "trunc x = (if x < 0 then - int (size x) else int (size x))"

instantiation real :: size
begin

definition size_real :: "real \<Rightarrow> nat" where "size_real x = nat \<lfloor>\<bar>x\<bar>\<rfloor>"

instance ..

end

text \<open>\<^verbatim>\<open>math.Sqrt\<close>: correctly rounded; infinity and NaN are returned as they are.\<close>

fun fsqrt :: "fval \<Rightarrow> fval" where
  "fsqrt (Fin a) = (if a < 0 then NaN else to_fval (sqrt a))"
| "fsqrt PInf = PInf"
| "fsqrt _ = NaN"

lemma wf_fsqrt [simp]: "wf_fval (fsqrt x)"
  by (cases x) auto

lift_definition math_sqrt :: "f64 \<Rightarrow> f64" is fsqrt by simp

subsection \<open>Exact values\<close>

definition exact64 :: "real \<Rightarrow> bool" where
  "exact64 r \<longleftrightarrow> rnd r = r \<and> \<bar>r\<bar> < fover"

lemma to_fval_exact: "exact64 r \<Longrightarrow> to_fval r = Fin r"
  by (simp add: exact64_def to_fval_wf)

lemma fover_ge: "(2::real) ^ 53 \<le> fover"
  unfolding fover_def by (rule power_increasing) auto

lemma exact64_dyadic:
  assumes "\<bar>n\<bar> < 2 ^ 53" "k \<le> 1074"
  shows "exact64 (of_int n / 2 ^ k)"
proof -
  have n: "real_of_int \<bar>n\<bar> < 2 ^ 53"
    using assms(1) by (metis of_int_less_iff of_int_numeral of_int_power)
  have "\<bar>real_of_int n / 2 ^ k\<bar> \<le> of_int \<bar>n\<bar>"
    by (simp add: abs_divide divide_le_eq mult_le_cancel_left1)
  with n fover_ge have "\<bar>real_of_int n / 2 ^ k\<bar> < fover" by linarith
  with rnd_dyadic [OF assms] show ?thesis by (simp add: exact64_def)
qed

lemma exact64_of_int: "\<bar>n\<bar> < 2 ^ 53 \<Longrightarrow> exact64 (of_int n)"
  using exact64_dyadic [of n 0] by simp

lemma exact64_0 [simp]: "exact64 0" and exact64_1 [simp]: "exact64 1"
  using exact64_of_int [of 0] exact64_of_int [of 1] by simp_all

lemma exact64_numeral [simp]: "(numeral w :: int) < 2 ^ 53 \<Longrightarrow> exact64 (numeral w)"
  using exact64_of_int [of "numeral w"] by simp

lemma exact64_minus [simp]: "exact64 (- r) = exact64 r"
  by (simp add: exact64_def)

lemma exact64_half [simp]: "(numeral w :: int) < 2 ^ 53 \<Longrightarrow> exact64 (numeral w / 2)"
  and exact64_half1 [simp]: "exact64 (1 / 2)"
  using exact64_dyadic [of "numeral w" 1] exact64_dyadic [of 1 1] by simp_all

text \<open>Every finite value is the value of its own real.\<close>

lemma mk_to_real: "is_fin x \<Longrightarrow> mk (to_real x) = x"
  by transfer (auto simp: to_fval_wf split: fval.splits)

lemma exact_to_real [simp]: "exact64 (to_real x)"
  by transfer (auto simp: exact64_def split: fval.splits)

lemma fin_exhaust: 
  assumes "is_fin x"
  obtains r where "exact64 r" "x = mk r"
  using assms mk_to_real exact_to_real by metis

lemma lit_f64: "lit r = (mk r :: f64)"
proof -
  have "fmul (to_fval r) (to_fval 1) = to_fval r"
    by (simp add: to_fval_exact) (auto simp: to_fval_def finf_def)
  then have "mk r * mk 1 = mk r" by transfer
  then show ?thesis by (simp add: lit_def scaleR_f64_def one_f64_def)
qed

lemma lit_real [simp]: "lit r = (r :: real)"
  by (simp add: lit_def)

lemma of_count_real [simp]: "of_count n = (of_int n :: real)"
  by (simp add: of_count_def)

lemma mk_0: "mk 0 = 0" and mk_1: "mk 1 = 1"
  by (transfer; simp) (simp add: one_f64_def)

text \<open>Evaluation: an operation on exact values rounds the exact result.\<close>

lemma mk_add [simp]: "exact64 a \<Longrightarrow> exact64 b \<Longrightarrow> mk a + mk b = mk (a + b)"
  by transfer (simp add: to_fval_exact)

lemma mk_minus [simp]: "exact64 a \<Longrightarrow> - mk a = mk (- a)"
  by transfer (simp add: to_fval_exact)

lemma mk_diff [simp]: "exact64 a \<Longrightarrow> exact64 b \<Longrightarrow> mk a - mk b = mk (a - b)"
  by (simp add: minus_f64_def)

lemma mk_mult [simp]: "exact64 a \<Longrightarrow> exact64 b \<Longrightarrow> mk a * mk b = mk (a * b)"
  by transfer (simp add: to_fval_exact)

lemma mk_divide [simp]: "exact64 a \<Longrightarrow> exact64 b \<Longrightarrow> b \<noteq> 0 \<Longrightarrow> mk a / mk b = mk (a / b)"
  by transfer (simp add: to_fval_exact)

lemma mk_less [simp]: "exact64 a \<Longrightarrow> exact64 b \<Longrightarrow> mk a < mk b \<longleftrightarrow> a < b"
  by transfer (simp add: to_fval_exact)

lemma mk_le [simp]: "exact64 a \<Longrightarrow> exact64 b \<Longrightarrow> mk a \<le> mk b \<longleftrightarrow> a \<le> b"
  by transfer (auto simp: to_fval_exact fle_def)

lemma mk_eq [simp]: "exact64 a \<Longrightarrow> exact64 b \<Longrightarrow> mk a = mk b \<longleftrightarrow> a = b"
  by transfer (simp add: to_fval_exact)

lemma mk_eq_0 [simp]: "exact64 a \<Longrightarrow> mk a = 0 \<longleftrightarrow> a = 0"
  by transfer (simp add: to_fval_exact)

lemma mk_le_0 [simp]: "exact64 a \<Longrightarrow> mk a \<le> 0 \<longleftrightarrow> a \<le> 0"
  and mk_ge_0 [simp]: "exact64 a \<Longrightarrow> 0 \<le> mk a \<longleftrightarrow> 0 \<le> a"
  and mk_less_0 [simp]: "exact64 a \<Longrightarrow> mk a < 0 \<longleftrightarrow> a < 0"
  and mk_gt_0 [simp]: "exact64 a \<Longrightarrow> 0 < mk a \<longleftrightarrow> 0 < a"
  by (transfer, auto simp: to_fval_exact fle_def)+

lemma trunc_mk [simp]: "exact64 a \<Longrightarrow> 0 \<le> a \<Longrightarrow> trunc (mk a) = \<lfloor>a\<rfloor>"
  unfolding trunc_def by transfer (simp add: to_fval_exact)

lemma trunc_real: "0 \<le> (x::real) \<Longrightarrow> trunc x = \<lfloor>x\<rfloor>"
  by (simp add: trunc_def size_real_def)

lemma abs_mk [simp]: "exact64 a \<Longrightarrow> \<bar>mk a\<bar> = mk \<bar>a\<bar>"
  by transfer (simp add: to_fval_exact exact64_def to_fval_def abs_real_def)

lemma is_fin_mk [simp]: "exact64 a \<Longrightarrow> is_fin (mk a)"
  by transfer (simp add: to_fval_exact)

lemma to_real_mk [simp]: "exact64 a \<Longrightarrow> to_real (mk a) = a"
  by transfer (simp add: to_fval_exact)


section \<open>The order laws both arithmetics obey\<close>

text \<open>
  Rounding is monotone, so the order facts that a program relies on (a sum of
  non-negative numbers is non-negative, taking a non-negative number away does not
  increase a value) hold in floating point as they do for the reals, where associativity
  and distributivity do not. This locale collects them; the program's order properties
  are proved in it once, for the code's arithmetic and for the exact one.
\<close>

locale ordered_arith =
  fixes fin :: "'f::{zero,one,plus,minus,times,inverse,ord,scaleR} \<Rightarrow> bool"
  assumes le_refl: "fin x \<Longrightarrow> x \<le> x"
    and fin_zero: "fin 0"
    and le_refl_nonneg: "0 \<le> x \<Longrightarrow> x \<le> x"
    and le_trans: "x \<le> y \<Longrightarrow> y \<le> z \<Longrightarrow> x \<le> z"
    and less_le: "x < y \<Longrightarrow> x \<le> y"
    and less_le_trans: "x < y \<Longrightarrow> y \<le> z \<Longrightarrow> x < z"
    and le_less_trans: "x \<le> y \<Longrightarrow> y < z \<Longrightarrow> x < z"
    and not_less_self: "\<not> x < x"
    and not_less: "fin x \<Longrightarrow> fin y \<Longrightarrow> \<not> x < y \<Longrightarrow> y \<le> x"
    and le_antisym: "x \<le> y \<Longrightarrow> y \<le> x \<Longrightarrow> x = y"
    and diff_le: "fin x \<Longrightarrow> 0 \<le> y \<Longrightarrow> x - y \<le> x"
    and add_ge: "fin x \<Longrightarrow> 0 \<le> y \<Longrightarrow> x \<le> x + y"
    and add_nonneg: "0 \<le> x \<Longrightarrow> 0 \<le> y \<Longrightarrow> 0 \<le> x + y"
    and diff_nonneg: "fin x \<Longrightarrow> fin y \<Longrightarrow> y \<le> x \<Longrightarrow> 0 \<le> x - y"
    and mult_nonneg: "fin x \<Longrightarrow> fin y \<Longrightarrow> 0 \<le> x \<Longrightarrow> 0 \<le> y \<Longrightarrow> 0 \<le> x * y"
    and divide_nonneg: "fin x \<Longrightarrow> fin y \<Longrightarrow> 0 \<le> x \<Longrightarrow> 0 < y \<Longrightarrow> 0 \<le> x / y"
    and lit_mono: "r \<le> s \<Longrightarrow> (lit r :: 'f) \<le> lit s"
    and lit_zero: "lit 0 = (0 :: 'f)"
    and lit_one: "lit 1 = (1 :: 'f)"
    and zero_less_one: "0 < (1 :: 'f)"
    and fin_lit: "\<bar>r\<bar> \<le> 2 ^ 52 \<Longrightarrow> fin (lit r)"
    and fin_between: "fin y \<Longrightarrow> 0 \<le> x \<Longrightarrow> x \<le> y \<Longrightarrow> fin x"
    and add_grows: "0 \<le> x \<Longrightarrow> 0 \<le> y \<Longrightarrow> x \<le> x + y"
    and zero_add_le: "0 \<le> x \<Longrightarrow> x \<le> 0 + x"
    and add_mono_left: "x \<le> y \<Longrightarrow> 0 \<le> x \<Longrightarrow> 0 \<le> z \<Longrightarrow> x + z \<le> y + z"
    and positive: "0 \<le> x \<Longrightarrow> x \<noteq> 0 \<Longrightarrow> 0 < x"
    and share: "fin x \<Longrightarrow> 0 \<le> x \<Longrightarrow> x \<le> y \<Longrightarrow> 0 < y \<Longrightarrow> 0 \<le> x / y \<and> x / y \<le> 1"
    and part: "fin y \<Longrightarrow> 0 \<le> y \<Longrightarrow> 0 \<le> x \<Longrightarrow> x \<le> 1 \<Longrightarrow> 0 \<le> x * y \<and> x * y \<le> y"
    and mult_comm: "x * y = y * x"
    and thin: "fin x \<Longrightarrow> 0 \<le> x \<Longrightarrow> 1 \<le> y \<Longrightarrow> 0 \<le> x / y \<and> x / y \<le> x"
    and average: "0 \<le> x \<Longrightarrow> x \<le> 1 \<Longrightarrow> 0 \<le> y \<Longrightarrow> y \<le> 1 \<Longrightarrow>
      0 \<le> x * lit (1/2) + y * lit (1/2) \<and> x * lit (1/2) + y * lit (1/2) \<le> 1"
begin

lemma zero_le_zero: "0 \<le> (0::'f)"
  by (rule le_refl [OF fin_zero])

lemma lit_nonneg: "0 \<le> r \<Longrightarrow> 0 \<le> (lit r :: 'f)"
  using lit_mono [of 0 r] by (simp add: lit_zero)

lemma less_asym: "(x::'f) < y \<Longrightarrow> \<not> y \<le> x"
  using le_less_trans not_less_self by blast

text \<open>Setting a value to 0 when it is below 0 makes it non-negative.\<close>

lemma clamp_nonneg: "fin (x::'f) \<Longrightarrow> 0 \<le> (if x < 0 then 0 else x)"
  using not_less fin_zero zero_le_zero by auto

lemma fin_one: "fin 1"
  using fin_lit [of 1] by (simp add: lit_one)

lemma zero_le_one: "0 \<le> (1::'f)"
  using lit_nonneg [of 1] by (simp add: lit_one)

lemma one_le_count: "1 \<le> n \<Longrightarrow> 1 \<le> (of_count n :: 'f)"
  using lit_mono [of 1 "of_int n"] by (simp add: of_count_def lit_one)

lemma share_one: "1 \<le> n \<Longrightarrow> 0 \<le> 1 / (of_count n :: 'f) \<and> 1 / (of_count n :: 'f) \<le> 1"
  using share [OF fin_one zero_le_one one_le_count] less_le_trans [OF zero_less_one one_le_count]
  by blast

text \<open>A running sum of non-negative numbers is non-negative and at least each of them.\<close>

lemma fold_add_nonneg:
  "0 \<le> (acc::'f) \<Longrightarrow> (\<And>x. x \<in> set xs \<Longrightarrow> 0 \<le> g x) \<Longrightarrow> 0 \<le> fold (\<lambda>x s. s + g x) xs acc"
  by (induction xs arbitrary: acc) (auto intro: add_nonneg)

lemma fold_add_mono:
  "0 \<le> (acc::'f) \<Longrightarrow> (\<And>x. x \<in> set xs \<Longrightarrow> 0 \<le> g x) \<Longrightarrow> acc \<le> fold (\<lambda>x s. s + g x) xs acc"
proof (induction xs arbitrary: acc)
  case Nil
  then show ?case using add_grows [of acc 0] zero_le_zero le_refl_nonneg by simp
next
  case (Cons x xs)
  then have "acc \<le> acc + g x" "acc + g x \<le> fold (\<lambda>x s. s + g x) xs (acc + g x)"
    by (auto intro: add_grows add_nonneg)
  then show ?case using le_trans by simp
qed

lemma fold_add_member:
  "0 \<le> (acc::'f) \<Longrightarrow> (\<And>x. x \<in> set xs \<Longrightarrow> 0 \<le> g x) \<Longrightarrow> x \<in> set xs \<Longrightarrow>
   g x \<le> fold (\<lambda>x s. s + g x) xs acc"
proof (induction xs arbitrary: acc)
  case (Cons y ys)
  show ?case
  proof (cases "x = y")
    case True
    have "g y \<le> 0 + g y" using Cons.prems by (auto intro: zero_add_le)
    also have "0 + g y \<le> acc + g y" using Cons.prems zero_le_zero by (auto intro: add_mono_left)
    finally (le_trans) have "g y \<le> acc + g y" .
    also have "acc + g y \<le> fold (\<lambda>x s. s + g x) ys (acc + g y)"
      using Cons.prems by (intro fold_add_mono) (auto intro: add_nonneg)
    finally (le_trans) show ?thesis using True by simp
  next
    case False
    with Cons show ?thesis by (auto intro: add_nonneg)
  qed
qed simp

end

lemma mult_ge_self: "0 \<le> x \<Longrightarrow> 1 \<le> y \<Longrightarrow> x \<le> x * y" for x y :: real
  using mult_left_mono [of 1 y x] by simp

lemma average_real:
  "0 \<le> x \<Longrightarrow> x \<le> 1 \<Longrightarrow> 0 \<le> y \<Longrightarrow> y \<le> 1 \<Longrightarrow> 0 \<le> x * (1/2) + y * (1/2) \<and> x * (1/2) + y * (1/2) \<le> 1"
  for x y :: real by auto

interpretation exact: ordered_arith "\<lambda>_::real. True"
  by unfold_locales (auto intro: mult_left_le_one_le simp: divide_le_eq_1 divide_le_eq mult_ge_self)

text \<open>For \<open>f64\<close> each law is a case analysis on the operands and monotonicity of rounding.\<close>

lemma to_fval_mono:
  assumes "x \<le> y"
  shows "fle (to_fval x) (to_fval y)"
  using rnd_mono [OF assms] by (auto simp: fle_def to_fval_def)

lemma fle_trans: "fle x y \<Longrightarrow> fle y z \<Longrightarrow> fle x z"
  by (cases x; cases y; cases z) (auto simp: fle_def)

lemma to_fval_ge:
  assumes "wf_fval (Fin a)" "a \<le> y"
  shows "fle (Fin a) (to_fval y)"
  using to_fval_mono [OF assms(2)] to_fval_wf [OF assms(1)] by simp

lemma to_fval_le:
  assumes "wf_fval (Fin a)" "y \<le> a"
  shows "fle (to_fval y) (Fin a)"
  using to_fval_mono [OF assms(2)] to_fval_wf [OF assms(1)] by simp

lemma to_fval_nonneg: "0 \<le> y \<Longrightarrow> fle (Fin 0) (to_fval y)"
  by (rule to_fval_ge) simp_all

lemma fadd_ge:
  assumes "wf_fval (Fin a)" "fle (Fin 0) y"
  shows "fle (Fin a) (fadd (Fin a) y)"
  using assms by (cases y) (auto simp: fle_def [of "Fin 0"] intro!: to_fval_ge, simp add: fle_def)

lemma fadd_le:
  assumes "wf_fval (Fin a)" "fle (Fin 0) y"
  shows "fle (fadd (Fin a) (fneg y)) (Fin a)"
  using assms by (cases y) (auto simp: fle_def [of "Fin 0"] intro!: to_fval_le, simp add: fle_def)

lemma fadd_nonneg:
  assumes "fle (Fin 0) x" "fle (Fin 0) y"
  shows "fle (Fin 0) (fadd x y)"
  using assms
  by (cases x; cases y) (auto simp: fle_def [of "Fin 0" "Fin _"] intro!: to_fval_nonneg; simp add: fle_def)+

lemma to_fval_small:
  assumes "\<bar>r\<bar> \<le> 2 ^ 52"
  shows "\<exists>a. to_fval r = Fin a"
proof -
  have "rnd r \<le> rnd (of_int (2 ^ 52))" and "rnd (- of_int (2 ^ 52)) \<le> rnd r"
    using assms by (intro rnd_mono; simp add: abs_le_iff)+
  then have "\<bar>rnd r\<bar> \<le> 2 ^ 52" using rnd_of_int [of "2 ^ 52"] by simp
  moreover have "(2::real) ^ 52 < fover" unfolding fover_def by (rule power_strict_increasing) auto
  ultimately show ?thesis by (auto simp: to_fval_def)
qed

lemma to_fval_1 [simp]: "to_fval 1 = Fin 1"
  using rnd_of_int [of 1] fover_ge by (intro to_fval_wf) simp

lemma fle_Fin [simp]: "fle (Fin a) (Fin b) \<longleftrightarrow> a \<le> b"
  by (auto simp: fle_def)

lemma to_fval_between:
  assumes "0 \<le> y" "y \<le> a" "wf_fval (Fin a)"
  shows "\<exists>r. to_fval y = Fin r \<and> 0 \<le> r \<and> r \<le> a"
proof -
  have "fle (Fin 0) (to_fval y)" "fle (to_fval y) (Fin a)"
    using assms by (auto intro: to_fval_nonneg to_fval_le)
  then show ?thesis by (cases "to_fval y") (auto simp: fle_def)
qed

lemma flt_fle_exhaust:
  "fle (Fin 0) x \<Longrightarrow> (\<exists>a. x = Fin a \<and> 0 \<le> a) \<or> x = PInf"
  by (cases x) (auto simp: fle_def)

lemma fadd_zero: "wf_fval x \<Longrightarrow> fadd (Fin 0) x = x"
  by (cases x) (auto simp: to_fval_wf simp del: wf_fval.simps)

lemma fadd_mono_left:
  assumes "fle x y" "fle (Fin 0) x" "fle (Fin 0) z"
  shows "fle (fadd x z) (fadd y z)"
  using assms flt_fle_exhaust [OF assms(2)] flt_fle_exhaust [OF assms(3)]
    flt_fle_exhaust [OF fle_trans [OF assms(2,1)]]
  by (auto simp: to_fval_mono) (auto simp: fle_def to_fval_def)

lemma fadd_grows:
  assumes "wf_fval x" "fle (Fin 0) x" "fle (Fin 0) y"
  shows "fle x (fadd x y)"
  using assms flt_fle_exhaust [OF assms(2)] flt_fle_exhaust [OF assms(3)]
  by (auto intro: fadd_ge) (auto simp: fle_def)

lemma fdiv_share:
  assumes "wf_fval (Fin a)" "0 \<le> a" "fle (Fin a) y" "flt (Fin 0) y"
  shows "fle (Fin 0) (fdiv (Fin a) y) \<and> fle (fdiv (Fin a) y) (Fin 1)"
proof (cases y)
  case (Fin b)
  with assms have "0 \<le> a / b" "a / b \<le> 1" "b \<noteq> 0" by (auto simp: divide_le_eq_1)
  with to_fval_between [of "a / b" 1] Fin show ?thesis using rnd_of_int [of 1] fover_ge by auto
qed (use assms in \<open>auto simp: fle_def\<close>)

lemma fmul_part:
  assumes "wf_fval (Fin b)" "0 \<le> b" "fle (Fin 0) x" "fle x (Fin 1)"
  shows "fle (Fin 0) (fmul x (Fin b)) \<and> fle (fmul x (Fin b)) (Fin b)"
proof -
  from assms(3,4) obtain a where x: "x = Fin a" "0 \<le> a" "a \<le> 1" by (cases x) (auto simp: fle_def)
  then have "0 \<le> a * b" "a * b \<le> b" using assms(2) by (auto intro: mult_left_le_one_le)
  with to_fval_between [OF _ _ assms(1), of "a * b"] x show ?thesis by auto
qed

lemma fdiv_share':
  "wf_fval x \<Longrightarrow> (case x of Fin _ \<Rightarrow> True | _ \<Rightarrow> False) \<Longrightarrow> fle (Fin 0) x \<Longrightarrow> fle x y \<Longrightarrow>
   flt (Fin 0) y \<Longrightarrow> fle (Fin 0) (fdiv x y) \<and> fle (fdiv x y) (to_fval 1)"
  using fdiv_share [of _ y] by (cases x) (simp_all del: wf_fval.simps)

lemma fmul_part':
  "wf_fval y \<Longrightarrow> (case y of Fin _ \<Rightarrow> True | _ \<Rightarrow> False) \<Longrightarrow> fle (Fin 0) y \<Longrightarrow> fle (Fin 0) x \<Longrightarrow>
   fle x (to_fval 1) \<Longrightarrow> fle (Fin 0) (fmul x y) \<and> fle (fmul x y) y"
  using fmul_part [of _ x] by (cases y) (simp_all del: wf_fval.simps)

lemma fmul_comm: "fmul x y = fmul y x"
  by (cases x; cases y) (simp_all add: mult.commute)

lemma fdiv_thin:
  "wf_fval x \<Longrightarrow> (case x of Fin _ \<Rightarrow> True | _ \<Rightarrow> False) \<Longrightarrow> fle (Fin 0) x \<Longrightarrow> fle (to_fval 1) y \<Longrightarrow>
   fle (Fin 0) (fdiv x y) \<and> fle (fdiv x y) x"
proof (cases x; cases y)
  fix a b
  assume *: "x = Fin a" "y = Fin b" "wf_fval x" "fle (Fin 0) x" "fle (to_fval 1) y"
  then have "0 \<le> a / b" "a / b \<le> a" "b \<noteq> 0" by (auto simp: divide_le_eq mult_ge_self)
  with to_fval_between [of "a / b" a] * show "fle (Fin 0) (fdiv x y) \<and> fle (fdiv x y) x" by auto
qed (auto simp: fle_def)

lemma half_wf: "wf_fval (Fin (1/2))"
  using rnd_dyadic [of 1 1] fover_ge by simp

lemma fadd_average:
  assumes "fle (Fin 0) x" "fle x (Fin 1)" "fle (Fin 0) y" "fle y (Fin 1)"
  shows "fle (Fin 0) (fadd (fmul x (to_fval (1/2))) (fmul y (to_fval (1/2)))) \<and>
    fle (fadd (fmul x (to_fval (1/2))) (fmul y (to_fval (1/2)))) (Fin 1)"
proof -
  have *: "\<exists>a. fmul z (to_fval (1/2)) = Fin a \<and> 0 \<le> a \<and> a \<le> 1/2"
    if z: "fle (Fin 0) z" "fle z (Fin 1)" for z
  proof -
    from z obtain a where a: "z = Fin a" "0 \<le> a" "a \<le> 1" by (cases z) (auto simp: fle_def)
    with to_fval_between [OF _ _ half_wf, of "a * (1/2)"] show ?thesis by (simp add: to_fval_wf [OF half_wf])
  qed
  from *[OF assms(1,2)] *[OF assms(3,4)] obtain a b where
    "fmul x (to_fval (1/2)) = Fin a" "fmul y (to_fval (1/2)) = Fin b" "0 \<le> a + b" "a + b \<le> 1"
    by fastforce
  with to_fval_between [of "a + b" 1] show ?thesis using rnd_of_int [of 1] fover_ge by auto
qed

interpretation ieee: ordered_arith is_fin
proof unfold_locales
  fix x y z :: f64
  show "is_fin x \<Longrightarrow> x \<le> x" by transfer (auto simp: fle_def split: fval.splits)
  show "is_fin 0" by transfer simp
  show "x \<le> y \<Longrightarrow> y \<le> z \<Longrightarrow> x \<le> z" by transfer (rule fle_trans)
  show "x < y \<Longrightarrow> x \<le> y" by transfer (simp add: fle_def)
  show "x < y \<Longrightarrow> y \<le> z \<Longrightarrow> x < z"
    by transfer (auto simp: fle_def elim!: flt.elims)
  show "x \<le> y \<Longrightarrow> y < z \<Longrightarrow> x < z"
    by transfer (auto simp: fle_def elim!: flt.elims)
  show "\<not> x < x" by transfer (auto elim!: flt.elims)
  show "is_fin x \<Longrightarrow> is_fin y \<Longrightarrow> \<not> x < y \<Longrightarrow> y \<le> x"
    by transfer (auto simp: fle_def split: fval.splits)
  show "x \<le> y \<Longrightarrow> y \<le> x \<Longrightarrow> x = y"
    by transfer (auto simp: fle_def elim!: flt.elims)
  show "is_fin x \<Longrightarrow> 0 \<le> y \<Longrightarrow> x - y \<le> x"
    unfolding minus_f64_def by transfer (auto intro: fadd_le split: fval.splits)
  show "is_fin x \<Longrightarrow> 0 \<le> y \<Longrightarrow> x \<le> x + y"
    by transfer (auto intro: fadd_ge split: fval.splits)
  show "0 \<le> x \<Longrightarrow> 0 \<le> y \<Longrightarrow> 0 \<le> x + y" by transfer (rule fadd_nonneg)
  show "is_fin x \<Longrightarrow> is_fin y \<Longrightarrow> y \<le> x \<Longrightarrow> 0 \<le> x - y"
    unfolding minus_f64_def
    by transfer (auto simp: fle_def [of "Fin _" "Fin _"] intro!: to_fval_nonneg split: fval.splits)
  show "is_fin x \<Longrightarrow> is_fin y \<Longrightarrow> 0 \<le> x \<Longrightarrow> 0 \<le> y \<Longrightarrow> 0 \<le> x * y"
    by transfer (auto simp: fle_def [of "Fin _" "Fin _"] intro!: to_fval_nonneg split: fval.splits)
  show "is_fin x \<Longrightarrow> is_fin y \<Longrightarrow> 0 \<le> x \<Longrightarrow> 0 < y \<Longrightarrow> 0 \<le> x / y"
    by transfer (auto simp: fle_def [of "Fin _" "Fin _"] intro!: to_fval_nonneg split: fval.splits)
  show "0 \<le> x \<Longrightarrow> x \<le> x" by transfer (auto simp: fle_def)
  show "0 < (1::f64)" unfolding one_f64_def by transfer simp
  show "lit 1 = (1::f64)" by (simp add: lit_f64 mk_1)
  show "is_fin y \<Longrightarrow> 0 \<le> x \<Longrightarrow> x \<le> y \<Longrightarrow> is_fin x"
    by transfer (auto simp: fle_def split: fval.splits)
  show "0 \<le> x \<Longrightarrow> 0 \<le> y \<Longrightarrow> x \<le> x + y" by transfer (rule fadd_grows)
  show "0 \<le> x \<Longrightarrow> x \<le> 0 + x"
    by transfer (auto simp: fadd_zero fle_def)
  show "x \<le> y \<Longrightarrow> 0 \<le> x \<Longrightarrow> 0 \<le> z \<Longrightarrow> x + z \<le> y + z" by transfer (rule fadd_mono_left)
  show "0 \<le> x \<Longrightarrow> x \<noteq> 0 \<Longrightarrow> 0 < x" by transfer (auto simp: fle_def)
  show "is_fin x \<Longrightarrow> 0 \<le> x \<Longrightarrow> x \<le> y \<Longrightarrow> 0 < y \<Longrightarrow> 0 \<le> x / y \<and> x / y \<le> 1"
    unfolding one_f64_def by transfer (rule fdiv_share')
  show "is_fin y \<Longrightarrow> 0 \<le> y \<Longrightarrow> 0 \<le> x \<Longrightarrow> x \<le> 1 \<Longrightarrow> 0 \<le> x * y \<and> x * y \<le> y"
    unfolding one_f64_def by transfer (rule fmul_part')
  show "x * y = y * x" by transfer (rule fmul_comm)
  show "is_fin x \<Longrightarrow> 0 \<le> x \<Longrightarrow> 1 \<le> y \<Longrightarrow> 0 \<le> x / y \<and> x / y \<le> x"
    unfolding one_f64_def by transfer (rule fdiv_thin)
  show "0 \<le> x \<Longrightarrow> x \<le> 1 \<Longrightarrow> 0 \<le> y \<Longrightarrow> y \<le> 1 \<Longrightarrow>
      0 \<le> x * lit (1/2) + y * lit (1/2) \<and> x * lit (1/2) + y * lit (1/2) \<le> 1"
    unfolding one_f64_def lit_f64 by transfer (simp add: fadd_average)
next
  fix r s :: real
  show "r \<le> s \<Longrightarrow> (lit r :: f64) \<le> lit s"
    unfolding lit_f64 by transfer (rule to_fval_mono)
  show "lit 0 = (0::f64)" by (simp add: lit_f64 mk_0)
  show "\<bar>r\<bar> \<le> 2 ^ 52 \<Longrightarrow> is_fin (lit r)"
    unfolding lit_f64 by transfer (use to_fval_small in fastforce)
qed

section \<open>Intervals\<close>

text \<open>
  Rounding keeps a value between two representable bounds, so interval arguments about exact
  numbers carry over to finite floats one operation at a time.
\<close>

lemma mk_between:
  assumes "lo \<le> r" "r \<le> hi" "exact64 lo" "exact64 hi"
  shows "is_fin (mk r)" "lo \<le> to_real (mk r)" "to_real (mk r) \<le> hi"
proof -
  have "fle (Fin lo) (to_fval r)" "fle (to_fval r) (Fin hi)"
    using to_fval_mono [OF assms(1)] to_fval_mono [OF assms(2)] assms(3,4) by (simp_all add: to_fval_exact)
  then obtain a where "to_fval r = Fin a" "lo \<le> a" "a \<le> hi" by (cases "to_fval r") (auto simp: fle_def)
  then show "is_fin (mk r)" "lo \<le> to_real (mk r)" "to_real (mk r) \<le> hi"
    by (transfer, simp)+
qed

lemma fin_ops:
  assumes "is_fin x" "is_fin y"
  shows "x + y = mk (to_real x + to_real y)" "x - y = mk (to_real x - to_real y)"
    "x * y = mk (to_real x * to_real y)"
    "to_real y \<noteq> 0 \<Longrightarrow> x / y = mk (to_real x / to_real y)"
  using mk_add [of "to_real x" "to_real y"] mk_diff [of "to_real x" "to_real y"]
    mk_mult [of "to_real x" "to_real y"] mk_divide [of "to_real x" "to_real y"]
  by (simp_all add: mk_to_real assms)

lemma fin_order:
  assumes "is_fin x" "is_fin y"
  shows "x < y \<longleftrightarrow> to_real x < to_real y" "x \<le> y \<longleftrightarrow> to_real x \<le> to_real y"
  using mk_less [of "to_real x" "to_real y"] mk_le [of "to_real x" "to_real y"]
  by (simp_all add: mk_to_real assms)

lemma to_real_0 [simp]: "to_real 0 = 0"
  using to_real_mk [of 0] by (simp add: mk_0)

lemma trunc_fin: "is_fin x \<Longrightarrow> 0 \<le> to_real x \<Longrightarrow> trunc x = \<lfloor>to_real x\<rfloor>"
  using trunc_mk [of "to_real x"] by (simp add: mk_to_real)

section \<open>Non-negative results without finiteness\<close>

lemma finf_nonneg: "0 < r \<Longrightarrow> fle (Fin 0) (finf r)"
  by (simp add: finf_def fle_def)

lemma mult_pos_nonneg:
  fixes x y :: f64
  assumes "is_fin x" "0 < x" "0 \<le> y"
  shows "0 \<le> x * y"
  using assms
proof transfer
  fix x y
  assume *: "case x of Fin _ \<Rightarrow> True | _ \<Rightarrow> False" "flt (Fin 0) x" "fle (Fin 0) y"
  then obtain a where "x = Fin a" "0 < a" by (cases x) auto
  with flt_fle_exhaust [OF *(3)] show "fle (Fin 0) (fmul x y)"
    by (auto simp: to_fval_nonneg finf_nonneg)
qed

lemma divide_pos_nonneg:
  fixes x y :: f64
  assumes "0 \<le> x" "is_fin y" "0 < y"
  shows "0 \<le> x / y"
  using assms
proof transfer
  fix x y
  assume *: "fle (Fin 0) x" "case y of Fin _ \<Rightarrow> True | _ \<Rightarrow> False" "flt (Fin 0) y"
  then obtain b where "y = Fin b" "0 < b" by (cases y) auto
  with flt_fle_exhaust [OF *(1)] show "fle (Fin 0) (fdiv x y)"
    by (auto simp: to_fval_nonneg finf_nonneg)
qed

lemma math_sqrt_nonneg: "0 \<le> x \<Longrightarrow> 0 \<le> math_sqrt x"
  by transfer (auto dest!: flt_fle_exhaust simp: to_fval_nonneg, simp add: fle_def)

lemma fneg_flt: "fle (Fin 0) m \<Longrightarrow> (\<exists>b. fneg m = Fin b) \<or> fneg m = NInf"
  by (auto dest: flt_fle_exhaust)

lemma fdiff_num:
  assumes "case p of Fin _ \<Rightarrow> True | _ \<Rightarrow> False" "fle (Fin 0) m"
  shows "fadd p (fneg m) \<noteq> NaN"
proof -
  from assms(1) obtain a where "p = Fin a" by (cases p) auto
  then show ?thesis using fneg_flt [OF assms(2)] by (auto simp: to_fval_def split: if_splits)
qed

lemma fmul_square: "x \<noteq> NaN \<Longrightarrow> fle (Fin 0) (fmul x x)"
  by (cases x) (auto simp: to_fval_nonneg finf_nonneg)

lemma not_negative: "x \<noteq> NaN \<Longrightarrow> \<not> flt x (Fin 0) \<Longrightarrow> fle (Fin 0) x"
  by (cases x) (auto simp: fle_def)

lemma diff_square_nonneg: "is_fin p \<Longrightarrow> 0 \<le> m \<Longrightarrow> 0 \<le> (p - m) * (p - m)" for p m :: f64
  unfolding minus_f64_def by transfer (rule fmul_square [OF fdiff_num])

lemma diff_not_negative: "is_fin p \<Longrightarrow> 0 \<le> m \<Longrightarrow> \<not> p - m < 0 \<Longrightarrow> 0 \<le> p - m" for p m :: f64
  unfolding minus_f64_def by transfer (rule not_negative [OF fdiff_num])

lemma count_pos: "1 \<le> n \<Longrightarrow> n < 2 ^ 53 \<Longrightarrow> is_fin (of_count n :: f64) \<and> 0 < (of_count n :: f64)"
  using mk_less [of 0 "of_int n"] exact64_of_int [of n]
  by (simp add: of_count_def lit_f64 mk_0)

lemma lit_pos: "exact64 a \<Longrightarrow> 0 < a \<Longrightarrow> 0 < (lit a :: f64) \<and> is_fin (lit a :: f64)"
  using mk_less [of 0 a] by (simp add: lit_f64 mk_0)

lemma math_sqrt_fin:
  fixes x :: f64
  assumes "is_fin x" "0 \<le> x"
  shows "is_fin (math_sqrt x)"
  using assms
proof transfer
  fix x
  assume *: "wf_fval x" "case x of Fin _ \<Rightarrow> True | _ \<Rightarrow> False" "fle (Fin 0) x"
  then obtain a where a: "x = Fin a" "0 \<le> a" by (cases x) auto
  have "sqrt a \<le> max a 1"
  proof (cases "1 \<le> a")
    case True
    then have "a * 1 \<le> a * a" by (intro mult_left_mono) auto
    then show ?thesis using True by (simp add: real_le_lsqrt power2_eq_square)
  next
    case False
    then show ?thesis using a(2) by (simp add: real_le_lsqrt max_def)
  qed
  moreover have "wf_fval (Fin (max a 1))" using *(1) a to_fval_1 wf_to_fval [of 1] by (simp add: max_def)
  ultimately show "case fsqrt x of Fin _ \<Rightarrow> True | _ \<Rightarrow> False"
    using to_fval_between [of "sqrt a" "max a 1"] a by auto
qed

section \<open>Differences\<close>

lemma diff_fin:
  fixes x y :: f64
  assumes "is_fin x" "is_fin y" "0 \<le> x" "0 \<le> y"
  shows "is_fin (x - y)"
proof -
  have "0 \<le> to_real x" "0 \<le> to_real y"
    using assms fin_order(2) [OF ieee.fin_zero] by simp_all
  moreover have "exact64 (- to_real y)" "exact64 (to_real x)"
    using assms(1,2) exact_to_real by (auto intro: exact64_minus)
  ultimately show ?thesis
    unfolding fin_ops(2) [OF assms(1,2)] by (intro mk_between(1) [of "- to_real y" _ "to_real x"]) simp_all
qed

lemma diff_of_less_sum:
  fixes x y z :: f64
  assumes "is_fin x" "is_fin y" "is_fin z" "z < x + y"
  shows "z - x \<le> y"
proof -
  have mono: "r \<le> s \<Longrightarrow> mk r \<le> mk s" for r s
    using ieee.lit_mono [of r s] by (simp add: lit_f64)
  have "\<not> to_real x + to_real y \<le> to_real z"
    using mono [of "to_real x + to_real y" "to_real z"] ieee.less_asym [OF assms(4)] assms(1-3)
    by (auto simp: fin_ops mk_to_real)
  then show ?thesis
    using mono [of "to_real z - to_real x" "to_real y"] assms(1-3) by (simp add: fin_ops mk_to_real)
qed

end
