(* ===== verification/Prelude.thy ===== *)
theory Prelude
  imports Float64 "HOL-Library.Sublist"
begin

text \<open>
  What the components share: Go strings and formatted text, integers of 64 bits, instants
  of time, maps with the order a loop visits them in, and the lemmas about such loops.
\<close>

section \<open>Collections of facts\<close>

named_theorems map_simps \<open>rewriting rules for maps and the loops over them\<close>

named_theorems text_simps \<open>unfolding rules for strings and formatted text\<close>

section \<open>Strings and formatted text\<close>

text \<open>
  Go strings are byte strings. \<open>itoa\<close> is the decimal rendering of the verb \<^verbatim>\<open>%d\<close>.
\<close>

fun digits_of :: "nat \<Rightarrow> string" where
  "digits_of n = (if n < 10 then [''0123456789'' ! n]
                  else digits_of (n div 10) @ [''0123456789'' ! (n mod 10)])"

declare digits_of.simps [simp del]

definition itoa :: "int \<Rightarrow> string" where
  "itoa i = (if i < 0 then CHR ''-'' # digits_of (nat (- i)) else digits_of (nat i))"

text \<open>Different numbers have different decimal renderings: \<open>of_digits\<close> reads one back.\<close>

definition of_digits :: "string \<Rightarrow> nat" where
  "of_digits ds = foldl (\<lambda>n d. 10 * n + (of_char d - 48)) 0 ds"

lemma of_char_digit: "n < 10 \<Longrightarrow> of_char (''0123456789'' ! n) = (48 + n :: nat)"
proof -
  have "\<forall>n\<in>set [0..<10]. of_char (''0123456789'' ! n) = (48 + n :: nat)" by code_simp
  then show "n < 10 \<Longrightarrow> ?thesis" by simp
qed

lemma of_digits_digits_of: "of_digits (digits_of n) = n"
proof (induction n rule: digits_of.induct)
  case (1 n)
  show ?case
  proof (cases "n < 10")
    case True
    then show ?thesis by (simp add: digits_of.simps [of n] of_digits_def of_char_digit)
  next
    case False
    with 1 have "of_digits (digits_of (n div 10)) = n div 10" by simp
    with False show ?thesis by (simp add: digits_of.simps [of n] of_digits_def of_char_digit)
  qed
qed

lemma itoa_inj: "itoa (int m) = itoa (int n) \<longleftrightarrow> m = n"
  by (metis itoa_def nat_int of_digits_digits_of of_nat_less_0_iff)

definition HasPrefix :: "string \<Rightarrow> string \<Rightarrow> bool" where
  "HasPrefix s p = prefix p s"

definition HasSuffix :: "string \<Rightarrow> string \<Rightarrow> bool" where
  "HasSuffix s p = suffix p s"

definition TrimPrefix :: "string \<Rightarrow> string \<Rightarrow> string" where
  "TrimPrefix s p = (if prefix p s then drop (length p) s else s)"

definition Contains :: "string \<Rightarrow> string \<Rightarrow> bool" where
  "Contains s p = sublist p s"

text \<open>
  A message built by \<^verbatim>\<open>fmt.Sprintf\<close> is kept as the sequence of its literal parts and of the
  arguments its verbs render: \<open>Txt\<close> for literal text, \<^verbatim>\<open>%s\<close> and \<^verbatim>\<open>%d\<close>, \<open>Quo\<close> for \<^verbatim>\<open>%q\<close>,
  \<open>Val\<close> for \<^verbatim>\<open>%v\<close> of a number and \<open>Fix n\<close> for \<^verbatim>\<open>%.nf\<close>. Nothing in the program reads a
  rendered message back.
\<close>

datatype 'f piece = Txt string | Quo string | Val 'f | Fix nat 'f

type_synonym 'f gotext = "'f piece list"

fun join :: "'f gotext \<Rightarrow> 'f gotext list \<Rightarrow> 'f gotext" where
  "join sep [] = []"
| "join sep [t] = t"
| "join sep (t # ts) = t @ sep @ join sep ts"

fun join_strings :: "string \<Rightarrow> string list \<Rightarrow> string" where
  "join_strings sep [] = []"
| "join_strings sep [t] = t"
| "join_strings sep (t # ts) = t @ sep @ join_strings sep ts"

lemma join_pieces: "set (join sep ts) \<subseteq> set sep \<union> (\<Union>t\<in>set ts. set t)"
  by (induction sep ts rule: join.induct) auto

lemma join_contains: "t \<in> set ts \<Longrightarrow> sublist t (join sep ts)"
proof (induction sep ts rule: join.induct)
  case (3 sep u v ts)
  show ?case
  proof (cases "t = u")
    case True
    then show ?thesis by simp
  next
    case False
    with 3 have "sublist t (join sep (v # ts))" by simp
    then show ?thesis by (simp add: sublist_append)
  qed
qed auto

section \<open>Integers and times\<close>

text \<open>Go's \<^verbatim>\<open>int\<close> has 64 bits; \<open>int64\<close> is the value arithmetic leaves in it.\<close>

definition int64 :: "int \<Rightarrow> int" where
  "int64 x = (x + 2 ^ 63) mod 2 ^ 64 - 2 ^ 63"

lemma int64_id [simp]: "- (2 ^ 63) \<le> x \<Longrightarrow> x < 2 ^ 63 \<Longrightarrow> int64 x = x"
  by (simp add: int64_def)

lemma int64_range: "- (2 ^ 63) \<le> int64 x" "int64 x < 2 ^ 63"
  by (simp_all add: int64_def)

text \<open>
  An instant is its number of nanoseconds since the Unix epoch. \<open>zero_time\<close> is the zero
  value of \<^verbatim>\<open>time.Time\<close>, the first of January of the year 1.
\<close>

type_synonym time = int

definition nanosecond :: int where "nanosecond = 1"

definition second :: int where "second = 1000000000"

definition minute :: int where "minute = 60 * second"

definition hour :: int where "hour = 60 * minute"

definition day :: int where "day = 24 * hour"

definition zero_time :: time where "zero_time = -62135596800 * second"

lemmas time_units = nanosecond_def second_def minute_def hour_def day_def zero_time_def

section \<open>Loops over slices\<close>

text \<open>\<open>collect f xs\<close> is the loop \<^verbatim>\<open>for i, x := range xs\<close> that appends \<open>f i x\<close> to a result.\<close>

definition collect :: "(nat \<Rightarrow> 'a \<Rightarrow> 'b list) \<Rightarrow> 'a list \<Rightarrow> 'b list" where
  "collect f xs = concat (map (\<lambda>(i, x). f i x) (List.enumerate 0 xs))"

lemma set_collect: "y \<in> set (collect f xs) \<longleftrightarrow> (\<exists>i<length xs. y \<in> set (f i (xs ! i)))"
proof -
  have "set (List.enumerate 0 xs) = {(i, xs ! i) |i. i < length xs}"
    by (auto simp: in_set_enumerate_eq)
  then show ?thesis unfolding collect_def by auto
qed

lemma collect_if_Nil:
  "collect (\<lambda>i x. if P x then [g i x] else []) xs = [] \<longleftrightarrow> (\<forall>x\<in>set xs. \<not> P x)"
proof -
  have "concat (map (\<lambda>(i, x). if P x then [g i x] else []) (List.enumerate n xs)) = [] \<longleftrightarrow>
      (\<forall>x\<in>set xs. \<not> P x)" for n
    by (induction xs arbitrary: n) auto
  then show ?thesis unfolding collect_def .
qed

section \<open>Maps and the loops over them\<close>

text \<open>
  A Go map is a partial function. Go visits the entries of a map in an order that it does
  not fix, so a loop over a map takes the order as a parameter, the list of the keys in
  the order of the visit, and the theorems hold for every such list.
\<close>

definition iterates :: "'k list \<Rightarrow> ('k \<rightharpoonup> 'v) \<Rightarrow> bool" where
  "iterates ks m \<longleftrightarrow> distinct ks \<and> set ks = dom m"

definition range_map :: "'k list \<Rightarrow> ('k \<rightharpoonup> 'v) \<Rightarrow> ('k \<times> 'v) list" where
  "range_map ks m = List.map_filter (\<lambda>k. map_option (Pair k) (m k)) ks"

lemma range_map_simps [simp, map_simps]:
  "range_map [] m = []"
  "range_map (k # ks) m = (case m k of None \<Rightarrow> range_map ks m | Some v \<Rightarrow> (k, v) # range_map ks m)"
  by (simp_all add: range_map_def List.map_filter_def split: option.split)

lemma set_range_map: "set (range_map ks m) = {(k, v). k \<in> set ks \<and> m k = Some v}"
  by (induction ks) (auto split: option.split)

lemma keys_range_map: "iterates ks m \<Longrightarrow> map fst (range_map ks m) = ks"
proof -
  have "set ks \<subseteq> dom m \<Longrightarrow> map fst (range_map ks m) = ks"
    by (induction ks) (auto split: option.split)
  then show "iterates ks m \<Longrightarrow> map fst (range_map ks m) = ks" by (simp add: iterates_def)
qed

lemma iterates_Nil_iff: "iterates ks m \<Longrightarrow> ks = [] \<longleftrightarrow> m = Map.empty"
  by (auto simp: iterates_def dom_def)

lemma iterates_empty [simp]: "iterates [] m \<longleftrightarrow> m = Map.empty"
  by (auto simp: iterates_def dom_def)

lemma iterates_finite: "iterates ks m \<Longrightarrow> finite (dom m)"
  unfolding iterates_def by (metis List.finite_set)

lemma iterates_length: "iterates ks m \<Longrightarrow> length ks = card (dom m)"
  unfolding iterates_def by (metis distinct_card)

text \<open>\<open>m[k] += x\<close> for a map of numbers, where a missing key reads as 0.\<close>

definition add_at :: "'k \<Rightarrow> 'f \<Rightarrow> ('k \<rightharpoonup> 'f::{zero,plus}) \<Rightarrow> ('k \<rightharpoonup> 'f)" where
  "add_at k x m = m(k \<mapsto> (case m k of None \<Rightarrow> 0 | Some y \<Rightarrow> y) + x)"

text \<open>The value of a key of a map of numbers, 0 when it is missing.\<close>

definition at0 :: "('k \<rightharpoonup> 'f::zero) \<Rightarrow> 'k \<Rightarrow> 'f" where
  "at0 m k = (case m k of None \<Rightarrow> 0 | Some y \<Rightarrow> y)"

lemma at0_add_at [map_simps]:
  "at0 (add_at k x m) j = (if j = k then at0 m k + x else at0 m j)"
  by (simp add: at0_def add_at_def)

lemma dom_add_at [map_simps]: "dom (add_at k x m) = insert k (dom m)"
  by (simp add: add_at_def)

lemma at0_empty [simp]: "at0 Map.empty k = 0"
  by (simp add: at0_def)

section \<open>Exact sums\<close>

text \<open>At the reals, a running sum is the sum of the list, in any order of the visit.\<close>

lemma fold_add_real: "fold (\<lambda>x s. s + g x) xs a = a + (\<Sum>x\<leftarrow>xs. g x)" for g :: "'a \<Rightarrow> real"
  by (induction xs arbitrary: a) auto

lemma sum_list_distinct: "distinct xs \<Longrightarrow> (\<Sum>x\<leftarrow>xs. g x) = sum g (set xs)" for g :: "'a \<Rightarrow> real"
  by (simp add: sum_list_distinct_conv_sum_set)

lemma sum_range_map:
  "iterates ks m \<Longrightarrow> (\<Sum>(k, v)\<leftarrow>range_map ks m. g k v) = (\<Sum>k\<in>dom m. g k (the (m k)))"
  for g :: "'k \<Rightarrow> 'v \<Rightarrow> real"
proof -
  have "set ks \<subseteq> dom m \<Longrightarrow> (\<Sum>(k, v)\<leftarrow>range_map ks m. g k v) = (\<Sum>k\<leftarrow>ks. g k (the (m k)))"
    by (induction ks) (auto split: option.split)
  then show "iterates ks m \<Longrightarrow> ?thesis" by (simp add: iterates_def sum_list_distinct)
qed

end
