(* ===== verification/Go_Memory.thy ===== *)
theory Go_Memory
  imports Prelude "HOL-Library.AList"
begin

text \<open>
  The memory of a Go program, as far as copying structs needs it. A memory is the list of the
  objects allocated so far, each the backing array of slices and pointers or the entries of a
  map; its addresses are the indices, and allocation appends. The elements of an array are
  structs whose own slices, pointers and maps are addresses again.

  A pointer is an address and an index (a variable is an array of one element), a slice an
  address, an offset and a length, a map an address; \<open>None\<close> is nil. Pointers to a field of a struct are
  not kept in memory; the receivers that are such pointers are given as the struct they point
  to. The entries of a map are listed in the order a loop over it visits them.
\<close>

section \<open>Objects and references\<close>

type_synonym 'c memory = "'c list"

type_synonym pointer = "(nat \<times> nat) option"

type_synonym slice = "(nat \<times> nat \<times> nat) option"

type_synonym map_ref = "nat option"

text \<open>How the elements of one Go type are kept in an object.\<close>

record ('c, 'e) layout =
  of_object :: "'c \<Rightarrow> 'e list option"
  to_object :: "'e list \<Rightarrow> 'c"

definition layout_ok :: "('c, 'e) layout \<Rightarrow> bool" where
  "layout_ok L \<longleftrightarrow> (\<forall>es. of_object L (to_object L es) = Some es)"

definition object_at :: "('c, 'e) layout \<Rightarrow> 'c memory \<Rightarrow> nat \<Rightarrow> 'e list option" where
  "object_at L h a = (if a < length h then of_object L (h ! a) else None)"

definition elems :: "('c, 'e) layout \<Rightarrow> 'c memory \<Rightarrow> nat \<Rightarrow> 'e list" where
  "elems L h a = (case object_at L h a of None \<Rightarrow> [] | Some es \<Rightarrow> es)"

text \<open>The assignment \<^verbatim>\<open>s[i] = e\<close> to an element of an array.\<close>

definition put_elem :: "('c, 'e) layout \<Rightarrow> nat \<Rightarrow> nat \<Rightarrow> 'e \<Rightarrow> 'c memory \<Rightarrow> 'c memory" where
  "put_elem L a i e h = h[a := to_object L ((elems L h a)[i := e])]"

section \<open>The copying statements\<close>

text \<open>
  A struct is copied by an operation that takes the struct and the memory and gives what it
  writes to \<^verbatim>\<open>*out\<close> and the new memory. \<open>make_slice\<close> is \<^verbatim>\<open>make([]T, n)\<close>, with the zero value of the type, \<open>go_copy\<close> the
  built-in \<^verbatim>\<open>copy(dst, src)\<close>.
\<close>

definition make_slice :: "('c, 'e) layout \<Rightarrow> 'e \<Rightarrow> nat \<Rightarrow> 'c memory \<Rightarrow> (nat \<times> nat \<times> nat) \<times> 'c memory" where
  "make_slice L zero n h = ((length h, 0, n), h @ [to_object L (replicate n zero)])"

fun go_copy :: "('c, 'e) layout \<Rightarrow> nat \<times> nat \<times> nat \<Rightarrow> nat \<times> nat \<times> nat \<Rightarrow> 'c memory \<Rightarrow> 'c memory" where
  "go_copy L (a, i, n) (b, j, m) h =
     (let dst = elems L h a; src = elems L h b; k = min n m
      in h[a := to_object L (take i dst @ take k (drop j src) @ drop (i + k) dst)])"

text \<open>A slice of plain values: allocated, then filled by \<^verbatim>\<open>copy\<close>.\<close>

definition copy_plain :: "('c, 'e) layout \<Rightarrow> 'e \<Rightarrow> slice \<Rightarrow> 'c memory \<Rightarrow> slice \<times> 'c memory" where
  "copy_plain L zero s h =
     (case s of None \<Rightarrow> (None, h)
      | Some (b, j, n) \<Rightarrow> (let (dst, h1) = make_slice L zero n h in (Some dst, go_copy L dst (b, j, n) h1)))"

text \<open>A slice of structs: allocated, then each element copied into its place.\<close>

definition copy_elem ::
    "('c, 'e) layout \<Rightarrow> ('e \<Rightarrow> 'c memory \<Rightarrow> 'e \<times> 'c memory) \<Rightarrow> nat \<Rightarrow> nat \<Rightarrow> nat \<Rightarrow> nat \<Rightarrow>
     'c memory \<Rightarrow> 'c memory" where
  "copy_elem L into a b j i h = (let (y, h') = into (elems L h b ! (j + i)) h in put_elem L a i y h')"

definition copy_each ::
    "('c, 'e) layout \<Rightarrow> 'e \<Rightarrow> ('e \<Rightarrow> 'c memory \<Rightarrow> 'e \<times> 'c memory) \<Rightarrow> slice \<Rightarrow> 'c memory \<Rightarrow> slice \<times> 'c memory" where
  "copy_each L zero into s h =
     (case s of None \<Rightarrow> (None, h)
      | Some (b, j, n) \<Rightarrow>
          (let ((a, i0, m), h1) = make_slice L zero n h
           in (Some (a, i0, m), fold (copy_elem L into a b j) [0..<n] h1)))"

text \<open>A map: made empty, then filled entry by entry.\<close>

definition copy_map :: "('c, 'k \<times> 'v) layout \<Rightarrow> map_ref \<Rightarrow> 'c memory \<Rightarrow> map_ref \<times> 'c memory" where
  "copy_map L r h =
     (case r of None \<Rightarrow> (None, h)
      | Some b \<Rightarrow>
          (Some (length h),
           fold (\<lambda>(key, val) h'. h'[length h := to_object L (AList.update key val (elems L h' (length h)))])
             (elems L h b) (h @ [to_object L []])))"

text \<open>
  A pointer: a new variable with the zero value, then the struct copied into it. The method
  \<^verbatim>\<open>DeepCopy\<close> does the same with the struct its receiver points to, which may be a field of
  another struct: \<open>new_copy\<close> takes the struct, \<open>None\<close> when the receiver is nil.
\<close>

definition new_copy ::
    "('c, 'e) layout \<Rightarrow> 'e \<Rightarrow> ('e \<Rightarrow> 'c memory \<Rightarrow> 'e \<times> 'c memory) \<Rightarrow> 'e option \<Rightarrow> 'c memory \<Rightarrow>
     pointer \<times> 'c memory" where
  "new_copy L zero into x h =
     (case x of None \<Rightarrow> (None, h)
      | Some e \<Rightarrow>
          (let (y, h') = into e (h @ [to_object L [zero]])
           in (Some (length h, 0), put_elem L (length h) 0 y h')))"

definition pointee :: "('c, 'e) layout \<Rightarrow> 'c memory \<Rightarrow> pointer \<Rightarrow> 'e option" where
  "pointee L h p = (case p of None \<Rightarrow> None | Some (b, j) \<Rightarrow> Some (elems L h b ! j))"

definition copy_new ::
    "('c, 'e) layout \<Rightarrow> 'e \<Rightarrow> ('e \<Rightarrow> 'c memory \<Rightarrow> 'e \<times> 'c memory) \<Rightarrow> pointer \<Rightarrow> 'c memory \<Rightarrow> pointer \<times> 'c memory" where
  "copy_new L zero into p h = new_copy L zero into (pointee L h p) h"

section \<open>The value of a reference\<close>

text \<open>
  A reader follows the references of a struct. It gives the value they lead to, with nil kept
  apart from empty, and the set of the objects it went through; or \<open>None\<close> when a reference
  leads nowhere or to an object of another type, which Go's types exclude.
\<close>

definition read_plain :: "'c memory \<Rightarrow> 'a \<Rightarrow> ('a \<times> nat set) option" where
  "read_plain h x = Some (x, {})"

definition read_pair ::
    "('c memory \<Rightarrow> 'a \<Rightarrow> ('v \<times> nat set) option) \<Rightarrow> ('c memory \<Rightarrow> 'b \<Rightarrow> ('w \<times> nat set) option) \<Rightarrow>
     'c memory \<Rightarrow> 'a \<times> 'b \<Rightarrow> (('v \<times> 'w) \<times> nat set) option" where
  "read_pair r s h xy =
     (case (r h (fst xy), s h (snd xy)) of (Some (v, F), Some (w, G)) \<Rightarrow> Some ((v, w), F \<union> G) | _ \<Rightarrow> None)"

primrec read_all ::
    "('c memory \<Rightarrow> 'a \<Rightarrow> ('v \<times> nat set) option) \<Rightarrow> 'c memory \<Rightarrow> 'a list \<Rightarrow> ('v list \<times> nat set) option" where
  "read_all r h [] = Some ([], {})"
| "read_all r h (x # xs) =
     (case (r h x, read_all r h xs) of (Some (v, F), Some (vs, G)) \<Rightarrow> Some (v # vs, F \<union> G) | _ \<Rightarrow> None)"

definition read_nilable ::
    "('c memory \<Rightarrow> 'a \<Rightarrow> ('v \<times> nat set) option) \<Rightarrow> 'c memory \<Rightarrow> 'a option \<Rightarrow> ('v option \<times> nat set) option" where
  "read_nilable r h p =
     (case p of None \<Rightarrow> Some (None, {})
      | Some x \<Rightarrow> (case r h x of None \<Rightarrow> None | Some (v, F) \<Rightarrow> Some (Some v, F)))"

definition read_array ::
    "('c, 'e) layout \<Rightarrow> ('c memory \<Rightarrow> 'e \<Rightarrow> ('v \<times> nat set) option) \<Rightarrow> 'c memory \<Rightarrow> nat \<times> nat \<times> nat \<Rightarrow>
     ('v list \<times> nat set) option" where
  "read_array L r h s =
     (case s of (b, j, n) \<Rightarrow>
        (case object_at L h b of None \<Rightarrow> None
         | Some es \<Rightarrow>
             if j + n \<le> length es
             then (case read_all r h (take n (drop j es)) of None \<Rightarrow> None | Some (vs, F) \<Rightarrow> Some (vs, insert b F))
             else None))"

definition read_variable ::
    "('c, 'e) layout \<Rightarrow> ('c memory \<Rightarrow> 'e \<Rightarrow> ('v \<times> nat set) option) \<Rightarrow> 'c memory \<Rightarrow> nat \<times> nat \<Rightarrow>
     ('v \<times> nat set) option" where
  "read_variable L r h p =
     (case p of (b, j) \<Rightarrow>
        (case object_at L h b of None \<Rightarrow> None
         | Some es \<Rightarrow>
             if j < length es
             then (case r h (es ! j) of None \<Rightarrow> None | Some (v, F) \<Rightarrow> Some (v, insert b F))
             else None))"

definition read_entries :: "('c, 'k \<times> 'v) layout \<Rightarrow> 'c memory \<Rightarrow> nat \<Rightarrow> (('k \<rightharpoonup> 'v) \<times> nat set) option" where
  "read_entries L h b =
     (case object_at L h b of None \<Rightarrow> None
      | Some es \<Rightarrow> if distinct (map fst es) then Some (map_of es, {b}) else None)"

definition read_slice ::
    "('c, 'e) layout \<Rightarrow> ('c memory \<Rightarrow> 'e \<Rightarrow> ('v \<times> nat set) option) \<Rightarrow> 'c memory \<Rightarrow> slice \<Rightarrow>
     ('v list option \<times> nat set) option" where
  "read_slice L r = read_nilable (read_array L r)"

definition read_pointer ::
    "('c, 'e) layout \<Rightarrow> ('c memory \<Rightarrow> 'e \<Rightarrow> ('v \<times> nat set) option) \<Rightarrow> 'c memory \<Rightarrow> pointer \<Rightarrow>
     ('v option \<times> nat set) option" where
  "read_pointer L r = read_nilable (read_variable L r)"

definition read_map ::
    "('c, 'k \<times> 'v) layout \<Rightarrow> 'c memory \<Rightarrow> map_ref \<Rightarrow> (('k \<rightharpoonup> 'v) option \<times> nat set) option" where
  "read_map L = read_nilable (read_entries L)"

text \<open>
  A struct: the value of its deep fields, which \<open>get\<close> gives, put into the struct by \<open>build\<close>.
\<close>

definition read_struct ::
    "('a \<Rightarrow> 'b) \<Rightarrow> ('a \<Rightarrow> 'v \<Rightarrow> 'w) \<Rightarrow> ('c memory \<Rightarrow> 'b \<Rightarrow> ('v \<times> nat set) option) \<Rightarrow> 'c memory \<Rightarrow> 'a \<Rightarrow>
     ('w \<times> nat set) option" where
  "read_struct get build r h x = (case r h (get x) of None \<Rightarrow> None | Some (v, F) \<Rightarrow> Some (build x v, F))"

section \<open>The contracts\<close>

text \<open>A memory in which the objects at the given addresses are what they were.\<close>

definition unchanged :: "nat set \<Rightarrow> 'c memory \<Rightarrow> 'c memory \<Rightarrow> bool" where
  "unchanged A h k \<longleftrightarrow> (\<forall>a\<in>A. a < length k \<and> k ! a = h ! a)"

lemma unchanged_append: "unchanged {..<length h} h (h @ e)"
  by (simp add: unchanged_def nth_append)

text \<open>
  A reader only depends on the objects it goes through. A deep copy allocates and changes no
  object that existed; what it gives has the value of its argument, and its references only
  lead to new objects.
\<close>

locale memory_reader =
  fixes read :: "'c memory \<Rightarrow> 'a \<Rightarrow> ('v \<times> nat set) option"
  assumes bounded: "read h x = Some (v, F) \<Longrightarrow> a \<in> F \<Longrightarrow> a < length h"
    and local: "read h x = Some (v, F) \<Longrightarrow> (\<And>a. a \<in> F \<Longrightarrow> a < length h' \<and> h' ! a = h ! a) \<Longrightarrow>
      read h' x = Some (v, F)"
begin

lemma read_append: "read h x = Some (v, F) \<Longrightarrow> read (h @ e) x = Some (v, F)"
  by (rule local) (auto dest: bounded simp: nth_append)

lemma read_unchanged: "read h x = Some (v, F) \<Longrightarrow> F \<subseteq> A \<Longrightarrow> unchanged A h k \<Longrightarrow> read k x = Some (v, F)"
  by (rule local) (auto simp: unchanged_def)

text \<open>
  Two structs of which one only leads to objects allocated after the other: whatever is done to the
  objects of the one side, or allocated, the other one stays as it is.
\<close>

lemma separated:
  assumes x: "read h x = Some (v, F)" and y: "read (h @ e) y = Some (w, G)" "\<forall>a\<in>G. length h \<le> a"
  shows "unchanged {length h..<length (h @ e)} (h @ e) k \<Longrightarrow> \<exists>G. read k y = Some (w, G)"
    and "unchanged {..<length h} h k \<Longrightarrow> read k x = Some (v, F)"
  using read_unchanged [OF y(1), of "{length h..<length (h @ e)}" k] bounded [OF y(1)] y(2)
    read_unchanged [OF x, of "{..<length h}" k] bounded [OF x]
  by (auto simp: subset_eq)

end

locale deep_copy = memory_reader read
  for read :: "'c memory \<Rightarrow> 'a \<Rightarrow> ('v \<times> nat set) option" +
  fixes into :: "'a \<Rightarrow> 'c memory \<Rightarrow> 'a \<times> 'c memory"
  assumes copies: "read h x = Some (v, F) \<Longrightarrow>
    \<exists>y e G. into x h = (y, h @ e) \<and> read (h @ e) y = Some (v, G) \<and> (\<forall>a\<in>G. length h \<le> a)"
begin

lemma copyE:
  assumes "read h x = Some (v, F)"
  obtains y e G where "into x h = (y, h @ e)" "read (h @ e) y = Some (v, G)"
    "\<And>a. a \<in> G \<Longrightarrow> length h \<le> a" "\<And>a. a \<in> G \<Longrightarrow> a < length h + length e"
    "read (h @ e) x = Some (v, F)"
  using copies [OF assms] read_append [OF assms] bounded by (metis length_append)

end

section \<open>Readers\<close>

lemma reader_plain: "memory_reader read_plain"
  by unfold_locales (auto simp: read_plain_def)

lemma read_pair_Some:
  "read_pair r s h xy = Some (vw, FG) \<longleftrightarrow>
   (\<exists>v w F G. r h (fst xy) = Some (v, F) \<and> s h (snd xy) = Some (w, G) \<and> vw = (v, w) \<and> FG = F \<union> G)"
  by (auto simp: read_pair_def split: option.splits)

lemma read_nilable_Some:
  "read_nilable r h p = Some (v, F) \<longleftrightarrow>
   (p = None \<and> v = None \<and> F = {} \<or> (\<exists>x w. p = Some x \<and> r h x = Some (w, F) \<and> v = Some w))"
  by (auto simp: read_nilable_def split: option.splits)

lemma reader_pair:
  assumes "memory_reader r" "memory_reader s"
  shows "memory_reader (read_pair r s)"
proof
  fix h x v F a assume "read_pair r s h x = Some (v, F)" "a \<in> F"
  then show "a < length h"
    using memory_reader.bounded [OF assms(1)] memory_reader.bounded [OF assms(2)]
    by (auto simp: read_pair_Some)
next
  fix h x v F h'
  assume x: "read_pair r s h x = Some (v, F)" and same: "\<And>a. a \<in> F \<Longrightarrow> a < length h' \<and> h' ! a = h ! a"
  obtain u w A B where "r h (fst x) = Some (u, A)" "s h (snd x) = Some (w, B)" "v = (u, w)" "F = A \<union> B"
    using x by (auto simp: read_pair_Some)
  with same memory_reader.local [OF assms(1), of h "fst x" u A h']
    memory_reader.local [OF assms(2), of h "snd x" w B h']
  show "read_pair r s h' x = Some (v, F)" by (simp add: read_pair_def)
qed

lemma read_all_bounded:
  assumes "memory_reader r"
  shows "read_all r h xs = Some (vs, F) \<Longrightarrow> a \<in> F \<Longrightarrow> a < length h"
proof (induction xs arbitrary: vs F)
  case (Cons x xs)
  then show ?case
    using memory_reader.bounded [OF assms] by (auto split: option.splits prod.splits)
qed simp

lemma read_all_local:
  assumes "memory_reader r"
  shows "read_all r h xs = Some (vs, F) \<Longrightarrow> (\<And>a. a \<in> F \<Longrightarrow> a < length h' \<and> h' ! a = h ! a) \<Longrightarrow>
    read_all r h' xs = Some (vs, F)"
proof (induction xs arbitrary: vs F)
  case (Cons x xs)
  then obtain v A ws B where "r h x = Some (v, A)" "read_all r h xs = Some (ws, B)"
    "vs = v # ws" "F = A \<union> B"
    by (auto split: option.splits prod.splits)
  with Cons memory_reader.local [OF assms, of h x v A h'] show ?case by simp
qed simp

lemma reader_all: "memory_reader r \<Longrightarrow> memory_reader (read_all r)"
  by unfold_locales (auto dest: read_all_bounded read_all_local)

lemma read_all_snoc:
  "read_all r h xs = Some (vs, F) \<Longrightarrow> r h y = Some (v, G) \<Longrightarrow>
   read_all r h (xs @ [y]) = Some (vs @ [v], F \<union> G)"
  by (induction xs arbitrary: vs F) (auto split: option.splits prod.splits)

lemma read_all_plain: "read_all read_plain h xs = Some (xs, {})"
  by (induction xs) (simp_all add: read_plain_def)

lemma read_all_nth:
  "read_all r h xs = Some (vs, F) \<Longrightarrow> i < length xs \<Longrightarrow> \<exists>G. r h (xs ! i) = Some (vs ! i, G) \<and> G \<subseteq> F"
proof (induction xs arbitrary: vs F i)
  case (Cons x xs)
  then show ?case by (cases i) (fastforce split: option.splits prod.splits)+
qed simp

lemma read_all_length: "read_all r h xs = Some (vs, F) \<Longrightarrow> length vs = length xs"
  by (induction xs arbitrary: vs F) (auto split: option.splits prod.splits)

lemma object_at_cong:
  "b < length h' \<Longrightarrow> h' ! b = h ! b \<Longrightarrow> object_at L h b = Some es \<Longrightarrow> object_at L h' b = Some es"
  by (auto simp: object_at_def split: if_splits)

lemma object_at_bound: "object_at L h b = Some es \<Longrightarrow> b < length h"
  by (auto simp: object_at_def split: if_splits)

lemma reader_nilable:
  assumes "memory_reader r"
  shows "memory_reader (read_nilable r)"
proof
  fix h x v F a assume "read_nilable r h x = Some (v, F)" "a \<in> F"
  then show "a < length h"
    using memory_reader.bounded [OF assms] by (auto simp: read_nilable_Some)
next
  fix h x v F h'
  assume "read_nilable r h x = Some (v, F)" and same: "\<And>a. a \<in> F \<Longrightarrow> a < length h' \<and> h' ! a = h ! a"
  then consider "x = None" "v = None" "F = {}" | y w where "x = Some y" "r h y = Some (w, F)" "v = Some w"
    by (auto simp: read_nilable_Some)
  then show "read_nilable r h' x = Some (v, F)"
  proof cases
    case 2
    with memory_reader.local [OF assms 2(2) same] show ?thesis by (simp add: read_nilable_def)
  qed (simp add: read_nilable_def)
qed

lemma reader_array:
  assumes "memory_reader r"
  shows "memory_reader (read_array L r)"
proof
  fix h x v F a assume "read_array L r h x = Some (v, F)" "a \<in> F"
  then show "a < length h"
    using read_all_bounded [OF assms]
    by (auto simp: read_array_def object_at_bound split: prod.splits option.splits if_splits)
next
  fix h x v F h'
  assume x: "read_array L r h x = Some (v, F)" and same: "\<And>a. a \<in> F \<Longrightarrow> a < length h' \<and> h' ! a = h ! a"
  obtain b j n es G where "x = (b, j, n)" "object_at L h b = Some es" "j + n \<le> length es"
    "read_all r h (take n (drop j es)) = Some (v, G)" "F = insert b G"
    using x by (auto simp: read_array_def split: prod.splits option.splits if_splits)
  with same object_at_cong [of b h' h L es] read_all_local [OF assms, of h "take n (drop j es)" v G h']
  show "read_array L r h' x = Some (v, F)" by (simp add: read_array_def)
qed

lemma reader_variable:
  assumes "memory_reader r"
  shows "memory_reader (read_variable L r)"
proof
  fix h x v F a assume "read_variable L r h x = Some (v, F)" "a \<in> F"
  then show "a < length h"
    using memory_reader.bounded [OF assms]
    by (auto simp: read_variable_def object_at_bound split: prod.splits option.splits if_splits)
next
  fix h x v F h'
  assume x: "read_variable L r h x = Some (v, F)" and same: "\<And>a. a \<in> F \<Longrightarrow> a < length h' \<and> h' ! a = h ! a"
  obtain b j es G where "x = (b, j)" "object_at L h b = Some es" "j < length es"
    "r h (es ! j) = Some (v, G)" "F = insert b G"
    using x by (auto simp: read_variable_def split: prod.splits option.splits if_splits)
  with same object_at_cong [of b h' h L es] memory_reader.local [OF assms, of h "es ! j" v G h']
  show "read_variable L r h' x = Some (v, F)" by (simp add: read_variable_def)
qed

lemma reader_entries: "memory_reader (read_entries L)"
proof
  fix h x v F and a :: nat assume "read_entries L h x = Some (v, F)" "a \<in> F"
  then show "a < length h"
    by (auto simp: read_entries_def object_at_bound split: option.splits if_splits)
next
  fix h x v F h'
  assume x: "read_entries L h x = Some (v, F)" and same: "\<And>a. a \<in> F \<Longrightarrow> a < length h' \<and> h' ! a = h ! a"
  obtain es where "object_at L h x = Some es" "distinct (map fst es)" "v = map_of es" "F = {x}"
    using x by (auto simp: read_entries_def split: option.splits if_splits)
  with same object_at_cong [of x h' h L es] show "read_entries L h' x = Some (v, F)"
    by (simp add: read_entries_def)
qed

lemmas readers = reader_plain reader_pair reader_nilable reader_array reader_variable reader_entries

section \<open>The copying statements are deep copies\<close>

definition copy_pair ::
    "('a \<Rightarrow> 'c memory \<Rightarrow> 'a \<times> 'c memory) \<Rightarrow> ('b \<Rightarrow> 'c memory \<Rightarrow> 'b \<times> 'c memory) \<Rightarrow>
     'a \<times> 'b \<Rightarrow> 'c memory \<Rightarrow> ('a \<times> 'b) \<times> 'c memory" where
  "copy_pair f g xy h = (let (x, h1) = f (fst xy) h; (y, h2) = g (snd xy) h1 in ((x, y), h2))"

lemma deep_copy_reader: "deep_copy r f \<Longrightarrow> memory_reader r"
  by (simp add: deep_copy_def)

lemma deep_copyI:
  assumes "memory_reader r"
    and "\<And>h x v F. r h x = Some (v, F) \<Longrightarrow>
      \<exists>y e G. f x h = (y, h @ e) \<and> r (h @ e) y = Some (v, G) \<and> (\<forall>a\<in>G. length h \<le> a)"
  shows "deep_copy r f"
  using assms by (simp add: deep_copy_def deep_copy_axioms_def)

lemma deep_copy_plain: "deep_copy read_plain (\<lambda>x h. (x, h))"
  by (rule deep_copyI [OF reader_plain]) (simp add: read_plain_def)

text \<open>The fields of a struct are copied one after the other.\<close>

lemma deep_copy_pair:
  assumes f: "deep_copy r f" and g: "deep_copy s g"
  shows "deep_copy (read_pair r s) (copy_pair f g)"
proof (rule deep_copyI)
  show "memory_reader (read_pair r s)"
    by (intro readers deep_copy_reader [OF f] deep_copy_reader [OF g])
  fix h xy v F assume "read_pair r s h xy = Some (v, F)"
  then obtain v1 F1 v2 F2 where x: "r h (fst xy) = Some (v1, F1)" and y: "s h (snd xy) = Some (v2, F2)"
    and v: "v = (v1, v2)" by (auto simp: read_pair_Some)
  obtain x' e G1 where 1: "f (fst xy) h = (x', h @ e)" "r (h @ e) x' = Some (v1, G1)"
    "\<And>a. a \<in> G1 \<Longrightarrow> length h \<le> a" using deep_copy.copyE [OF f x] by metis
  have "s (h @ e) (snd xy) = Some (v2, F2)"
    using memory_reader.read_append [OF deep_copy_reader [OF g] y] .
  then obtain y' e' G2 where 2: "g (snd xy) (h @ e) = (y', (h @ e) @ e')"
    "s ((h @ e) @ e') y' = Some (v2, G2)" "\<And>a. a \<in> G2 \<Longrightarrow> length (h @ e) \<le> a"
    using deep_copy.copyE [OF g] by metis
  have "read_pair r s (h @ (e @ e')) (x', y') = Some (v, G1 \<union> G2)"
    using 2 v memory_reader.read_append [OF deep_copy_reader [OF f] 1(2), of e']
    by (simp add: read_pair_def)
  moreover have "copy_pair f g xy h = ((x', y'), h @ (e @ e'))"
    using 1 2 by (simp add: copy_pair_def)
  moreover have "\<forall>a\<in>G1 \<union> G2. length h \<le> a" using 1(3) 2(3) by fastforce
  ultimately show "\<exists>y e G. copy_pair f g xy h = (y, h @ e) \<and> read_pair r s (h @ e) y = Some (v, G) \<and>
    (\<forall>a\<in>G. length h \<le> a)" by blast
qed

text \<open>
  A struct is \<^verbatim>\<open>*out = *in\<close> with the copies of its deep fields written over it by \<open>put\<close>.
\<close>

lemma reader_struct:
  assumes r: "memory_reader r"
  shows "memory_reader (read_struct get build r)"
proof
  fix h x v F a assume "read_struct get build r h x = Some (v, F)" "a \<in> F"
  then show "a < length h"
    using memory_reader.bounded [OF r] by (auto simp: read_struct_def split: option.splits)
next
  fix h x v F h'
  assume x: "read_struct get build r h x = Some (v, F)"
    and same: "\<And>a. a \<in> F \<Longrightarrow> a < length h' \<and> h' ! a = h ! a"
  obtain w where "r h (get x) = Some (w, F)" "v = build x w"
    using x by (auto simp: read_struct_def split: option.splits)
  with same memory_reader.local [OF r, of h "get x" w F h']
  show "read_struct get build r h' x = Some (v, F)" by (simp add: read_struct_def)
qed

lemma deep_copy_struct:
  assumes f: "deep_copy r f"
    and into: "\<And>x h. into x h = (let (y, h') = f (get x) h in (put x y, h'))"
    and fields: "\<And>x y. get (put x y) = y" "\<And>x y v. build (put x y) v = build x v"
  shows "deep_copy (read_struct get build r) into"
proof (rule deep_copyI)
  show "memory_reader (read_struct get build r)" by (intro reader_struct deep_copy_reader [OF f])
  fix h x v F assume "read_struct get build r h x = Some (v, F)"
  then obtain w where w: "r h (get x) = Some (w, F)" and v: "v = build x w"
    by (auto simp: read_struct_def split: option.splits)
  from deep_copy.copies [OF f w] obtain y e G
    where "f (get x) h = (y, h @ e)" "r (h @ e) y = Some (w, G)" "\<forall>a\<in>G. length h \<le> a" by blast
  then have "into x h = (put x y, h @ e)" "read_struct get build r (h @ e) (put x y) = Some (v, G)"
    "\<forall>a\<in>G. length h \<le> a" by (auto simp: into read_struct_def fields v)
  then show "\<exists>y e G. into x h = (y, h @ e) \<and> read_struct get build r (h @ e) y = Some (v, G) \<and>
    (\<forall>a\<in>G. length h \<le> a)" by blast
qed

lemma object_at_append: "object_at L h b = Some es \<Longrightarrow> object_at L (h @ e) b = Some es"
  by (auto simp: object_at_def nth_append split: if_splits)

lemma object_at_new: "layout_ok L \<Longrightarrow> object_at L (h @ to_object L es # e) (length h) = Some es"
  by (simp add: object_at_def layout_ok_def nth_append)

lemma put_elem_new:
  "layout_ok L \<Longrightarrow>
   put_elem L (length h) i y (h @ to_object L es # e) = h @ to_object L (es[i := y]) # e"
  by (simp add: put_elem_def elems_def object_at_new list_update_append)

lemma deep_copy_nilable:
  assumes "memory_reader r"
    and "\<And>h x v F. r h x = Some (v, F) \<Longrightarrow>
      \<exists>y e G. f (Some x) h = (Some y, h @ e) \<and> r (h @ e) y = Some (v, G) \<and> (\<forall>a\<in>G. length h \<le> a)"
    and "\<And>h. f None h = (None, h)"
  shows "deep_copy (read_nilable r) f"
proof (rule deep_copyI)
  show "memory_reader (read_nilable r)" by (intro readers assms(1))
  fix h p v F assume "read_nilable r h p = Some (v, F)"
  then consider "p = None" "v = None" | x w where "p = Some x" "v = Some w" "r h x = Some (w, F)"
    by (auto simp: read_nilable_Some)
  then show "\<exists>y e G. f p h = (y, h @ e) \<and> read_nilable r (h @ e) y = Some (v, G) \<and> (\<forall>a\<in>G. length h \<le> a)"
  proof cases
    case 1
    then show ?thesis by (simp add: assms(3) read_nilable_def)
  next
    case 2
    with assms(2) [OF 2(3)] show ?thesis by (fastforce simp: read_nilable_def)
  qed
qed

lemma deep_copy_plain_slice:
  assumes L: "layout_ok L"
  shows "deep_copy (read_slice L read_plain) (copy_plain L zero)"
  unfolding read_slice_def
proof (rule deep_copy_nilable)
  show "memory_reader (read_array L read_plain)" by (intro readers)
  show "copy_plain L zero None h = (None, h)" for h by (simp add: copy_plain_def)
  fix h x v F assume "read_array L read_plain h x = Some (v, F)"
  then obtain b j n es where x: "x = (b, j, n)" and b: "object_at L h b = Some es"
    and n: "j + n \<le> length es" and v: "v = take n (drop j es)"
    by (auto simp: read_array_def read_all_plain split: prod.splits option.splits if_splits)
  let ?o = "to_object L v"
  have "copy_plain L zero (Some x) h = (Some (length h, 0, n), h @ [?o])"
    using b n object_at_new [OF L, of h _ "[]"] object_at_append [OF b]
    by (simp add: copy_plain_def x make_slice_def elems_def v)
  moreover have "read_array L read_plain (h @ [?o]) (length h, 0, n) = Some (v, {length h})"
    using object_at_new [OF L, of h v "[]"] n by (simp add: read_array_def read_all_plain v)
  ultimately show "\<exists>y e G. copy_plain L zero (Some x) h = (Some y, h @ e) \<and>
    read_array L read_plain (h @ e) y = Some (v, G) \<and> (\<forall>a\<in>G. length h \<le> a)" by fastforce
qed

lemma copy_loop:
  assumes L: "layout_ok L" and f: "deep_copy r f" and b: "object_at L h b = Some es"
    and n: "j + n \<le> length es" and xs: "read_all r h (take n (drop j es)) = Some (vs, F)"
  shows "i \<le> n \<Longrightarrow> \<exists>ys e G. fold (copy_elem L f (length h) b j) [0..<i] (h @ [to_object L (replicate n z)]) =
      h @ to_object L (ys @ replicate (n - i) z) # e \<and> length ys = i \<and>
      read_all r (h @ to_object L (ys @ replicate (n - i) z) # e) ys = Some (take i vs, G) \<and>
      (\<forall>a\<in>G. length h < a)"
proof (induction i)
  case (Suc i)
  note r = deep_copy_reader [OF f]
  from Suc obtain ys e G where
    loop: "fold (copy_elem L f (length h) b j) [0..<i] (h @ [to_object L (replicate n z)]) =
      h @ to_object L (ys @ replicate (n - i) z) # e"
    and ys: "length ys = i" "read_all r (h @ to_object L (ys @ replicate (n - i) z) # e) ys = Some (take i vs, G)"
      "\<And>a. a \<in> G \<Longrightarrow> length h < a" by fastforce
  define H where "H = h @ to_object L (ys @ replicate (n - i) z) # e"
  have i: "i < length (take n (drop j es))" "take n (drop j es) ! i = es ! (j + i)" "i < length vs"
    using Suc.prems n read_all_length [OF xs] by auto
  obtain A where "r h (es ! (j + i)) = Some (vs ! i, A)" using read_all_nth [OF xs i(1)] i(2) by auto
  then have "r H (es ! (j + i)) = Some (vs ! i, A)"
    using memory_reader.read_append [OF r] by (simp add: H_def)
  then obtain y e' B where y: "f (es ! (j + i)) H = (y, H @ e')" "r (H @ e') y = Some (vs ! i, B)"
    "\<And>a. a \<in> B \<Longrightarrow> length H \<le> a" "\<And>a. a \<in> B \<Longrightarrow> a < length H + length e'"
    using deep_copy.copyE [OF f] by metis
  define K where "K = h @ to_object L ((ys @ [y]) @ replicate (n - Suc i) z) # (e @ e')"
  have same: "length h < a \<Longrightarrow> a < length (H @ e') \<Longrightarrow> a < length K \<and> K ! a = (H @ e') ! a" for a
    by (simp add: H_def K_def nth_append nth_Cons split: nat.splits)
  have len: "a < length H + length e' \<Longrightarrow> a < length (H @ e')" for a by simp
  have "n - i = Suc (n - Suc i)" using Suc.prems by simp
  then have "copy_elem L f (length h) b j i H = K"
    using put_elem_new [OF L, of h i y "ys @ replicate (n - i) z" "e @ e'"] y(1) ys(1)
      object_at_append [OF b, of "to_object L (ys @ replicate (n - i) z) # e"]
    by (simp add: copy_elem_def elems_def H_def K_def list_update_append)
  then have "fold (copy_elem L f (length h) b j) [0..<Suc i] (h @ [to_object L (replicate n z)]) = K"
    using loop by (simp add: H_def)
  moreover have "read_all r K ys = Some (take i vs, G)"
  proof (rule read_all_local [OF r])
    show "read_all r H ys = Some (take i vs, G)" using ys(2) by (simp add: H_def)
    fix a assume a: "a \<in> G"
    then have "a < length H" using read_all_bounded [OF r ys(2)] by (simp add: H_def)
    with same [OF ys(3) [OF a]] show "a < length K \<and> K ! a = H ! a" by (simp add: nth_append)
  qed
  moreover have "r K y = Some (vs ! i, B)"
  proof (rule memory_reader.local [OF r y(2)])
    fix a assume "a \<in> B"
    then show "a < length K \<and> K ! a = (H @ e') ! a"
      using same [of a] y(3,4) [of a] by (simp add: H_def)
  qed
  ultimately have "fold (copy_elem L f (length h) b j) [0..<Suc i] (h @ [to_object L (replicate n z)]) = K"
    "length (ys @ [y]) = Suc i" "read_all r K (ys @ [y]) = Some (take (Suc i) vs, G \<union> B)"
    "\<forall>a\<in>G \<union> B. length h < a"
    using read_all_snoc [of r K ys "take i vs" G y "vs ! i" B] ys(1,3) y(3) i(3)
    by (auto simp: take_Suc_conv_app_nth H_def dest: y(3))
  then show ?case unfolding K_def by blast
qed simp

lemma deep_copy_each:
  assumes L: "layout_ok L" and f: "deep_copy r f"
  shows "deep_copy (read_slice L r) (copy_each L zero f)"
  unfolding read_slice_def
proof (rule deep_copy_nilable)
  show "memory_reader (read_array L r)" by (intro readers deep_copy_reader [OF f])
  show "copy_each L zero f None h = (None, h)" for h by (simp add: copy_each_def)
  fix h x v F assume "read_array L r h x = Some (v, F)"
  then obtain b j n es A where x: "x = (b, j, n)" and b: "object_at L h b = Some es"
    and n: "j + n \<le> length es" and xs: "read_all r h (take n (drop j es)) = Some (v, A)"
    by (auto simp: read_array_def split: prod.splits option.splits if_splits)
  have len: "length v = n" using read_all_length [OF xs] n by simp
  obtain ys e G where
    "fold (copy_elem L f (length h) b j) [0..<n] (h @ [to_object L (replicate n zero)]) =
      h @ to_object L ys # e" and ys: "length ys = n"
    and G: "read_all r (h @ to_object L ys # e) ys = Some (v, G)" "\<And>a. a \<in> G \<Longrightarrow> length h < a"
    using copy_loop [OF L f b n xs order_refl, of zero] len by auto
  then have "copy_each L zero f (Some x) h = (Some (length h, 0, n), h @ to_object L ys # e)"
    by (simp add: copy_each_def x make_slice_def)
  moreover have "read_array L r (h @ to_object L ys # e) (length h, 0, n) = Some (v, insert (length h) G)"
    using object_at_new [OF L, of h ys e] G(1) ys by (simp add: read_array_def)
  ultimately show "\<exists>y e G. copy_each L zero f (Some x) h = (Some y, h @ e) \<and>
    read_array L r (h @ e) y = Some (v, G) \<and> (\<forall>a\<in>G. length h \<le> a)"
    using G(2) by (fastforce dest: less_imp_le)
qed

lemma new_copyE:
  assumes L: "layout_ok L" and f: "deep_copy r f" and x: "r h x = Some (v, F)"
  obtains y e G where "new_copy L zero f (Some x) h = (Some (length h, 0), h @ to_object L [y] # e)"
    "r (h @ to_object L [y] # e) y = Some (v, G)" "\<forall>a\<in>G. length h < a"
proof -
  note r = deep_copy_reader [OF f]
  define H where "H = h @ [to_object L [zero]]"
  have "r H x = Some (v, F)" using memory_reader.read_append [OF r x] by (simp add: H_def)
  then obtain y e G where y: "f x H = (y, H @ e)" "r (H @ e) y = Some (v, G)"
    "\<And>a. a \<in> G \<Longrightarrow> length H \<le> a" "\<And>a. a \<in> G \<Longrightarrow> a < length H + length e"
    using deep_copy.copyE [OF f] by metis
  define K where "K = h @ to_object L [y] # e"
  have "new_copy L zero f (Some x) h = (Some (length h, 0), K)"
    using put_elem_new [OF L, of h 0 y "[zero]" e] y(1) by (simp add: new_copy_def H_def K_def)
  moreover have "r K y = Some (v, G)"
  proof (rule memory_reader.local [OF r y(2)])
    fix a assume "a \<in> G"
    then show "a < length K \<and> K ! a = (H @ e) ! a"
      using y(3,4) [of a] by (simp add: H_def K_def nth_append nth_Cons split: nat.splits)
  qed
  moreover have "\<forall>a\<in>G. length h < a" using y(3) by (fastforce simp: H_def)
  ultimately show thesis using that unfolding K_def by blast
qed

lemma deep_copy_new:
  assumes L: "layout_ok L" and f: "deep_copy r f"
  shows "deep_copy (read_pointer L r) (copy_new L zero f)"
  unfolding read_pointer_def
proof (rule deep_copy_nilable)
  show "memory_reader (read_variable L r)" by (intro readers deep_copy_reader [OF f])
  show "copy_new L zero f None h = (None, h)" for h by (simp add: copy_new_def new_copy_def pointee_def)
  fix h x v F assume "read_variable L r h x = Some (v, F)"
  then obtain b j es A where x: "x = (b, j)" and b: "object_at L h b = Some es" and j: "r h (es ! j) = Some (v, A)"
    by (auto simp: read_variable_def split: prod.splits option.splits if_splits)
  obtain y e G where y: "new_copy L zero f (Some (es ! j)) h = (Some (length h, 0), h @ to_object L [y] # e)"
    "r (h @ to_object L [y] # e) y = Some (v, G)" "\<forall>a\<in>G. length h < a"
    by (rule new_copyE [OF L f j, where zero = zero])
  have "read_variable L r (h @ to_object L [y] # e) (length h, 0) = Some (v, insert (length h) G)"
    using object_at_new [OF L, of h "[y]" e] y(2) by (simp add: read_variable_def)
  moreover have "copy_new L zero f (Some x) h = (Some (length h, 0), h @ to_object L [y] # e)"
    using y(1) b by (simp add: copy_new_def pointee_def x elems_def)
  ultimately show "\<exists>y e G. copy_new L zero f (Some x) h = (Some y, h @ e) \<and>
    read_variable L r (h @ e) y = Some (v, G) \<and> (\<forall>a\<in>G. length h \<le> a)"
    using y(3) by (fastforce dest: less_imp_le)
qed

lemma copy_entries:
  assumes "layout_ok L"
  shows "distinct (map fst es) \<Longrightarrow> distinct (map fst acc) \<Longrightarrow>
    \<exists>es'. fold (\<lambda>(key, val) h'. h'[length h := to_object L (AList.update key val (elems L h' (length h)))])
        es (h @ [to_object L acc]) = h @ [to_object L es'] \<and>
      distinct (map fst es') \<and> map_of es' = map_of acc ++ map_of es"
proof (induction es arbitrary: acc)
  case (Cons kv es)
  obtain k v where kv: "kv = (k, v)" by force
  have "map_of acc ++ map_of (kv # es) = map_of (AList.update k v acc) ++ map_of es"
    using Cons.prems by (simp add: kv update_conv' dom_map_of_conv_image_fst flip: map_add_upd_left)
  moreover have "elems L (h @ [to_object L acc]) (length h) = acc"
    using object_at_new [OF assms, of h acc "[]"] by (simp add: elems_def)
  moreover have "distinct (map fst es)" "distinct (map fst (AList.update k v acc))"
    using Cons.prems by (simp_all add: distinct_update)
  ultimately show ?case using Cons.IH [of "AList.update k v acc"] by (simp only: kv) simp
qed auto

lemma deep_copy_map:
  assumes L: "layout_ok L"
  shows "deep_copy (read_map L) (copy_map L)"
  unfolding read_map_def
proof (rule deep_copy_nilable)
  show "memory_reader (read_entries L)" by (intro readers)
  show "copy_map L None h = (None, h)" for h by (simp add: copy_map_def)
  fix h b v F assume "read_entries L h b = Some (v, F)"
  then obtain es where b: "object_at L h b = Some es" "distinct (map fst es)" "v = map_of es"
    by (auto simp: read_entries_def split: option.splits if_splits)
  then obtain es' where "copy_map L (Some b) h = (Some (length h), h @ [to_object L es'])"
    "distinct (map fst es')" "map_of es' = v"
    using copy_entries [OF L, of es "[]" h] by (auto simp: copy_map_def elems_def)
  moreover from this have "read_entries L (h @ [to_object L es']) (length h) = Some (v, {length h})"
    using object_at_new [OF L, of h es' "[]"] by (simp add: read_entries_def)
  ultimately show "\<exists>y e G. copy_map L (Some b) h = (Some y, h @ e) \<and>
    read_entries L (h @ e) y = Some (v, G) \<and> (\<forall>a\<in>G. length h \<le> a)" by fastforce
qed

lemmas deep_copies =
  deep_copy_plain deep_copy_pair deep_copy_plain_slice deep_copy_each deep_copy_new deep_copy_map

end
