(* ===== verification/Policy_Types.thy ===== *)
theory Policy_Types
  imports Prelude
begin

text \<open>
  The \<^verbatim>\<open>FinancialPolicy\<close> resource of \<^verbatim>\<open>api/v1alpha1/financialpolicy_types.go\<close> and the policy
  package's own types (\<^verbatim>\<open>pkg/policy/types.go\<close>). Field names are those of the source, with a
  prefix where two structs share one; a pointer field is an \<open>option\<close>, a slice a list.
  The string types \<^verbatim>\<open>PolicyMode\<close>, \<^verbatim>\<open>BreachAction\<close> and \<^verbatim>\<open>PolicyPhase\<close> stay strings, since a
  resource can hold any text in them.
\<close>

section \<open>Constants\<close>

definition PolicyModeAutomatic :: string where "PolicyModeAutomatic = ''automatic''"

definition PolicyModeAdvisory :: string where "PolicyModeAdvisory = ''advisory''"

definition BreachActionAlert :: string where "BreachActionAlert = ''alert''"

definition BreachActionThrottle :: string where "BreachActionThrottle = ''throttle''"

definition BreachActionBlockDeployments :: string where
  "BreachActionBlockDeployments = ''block_deployments''"

definition PolicyPhaseActive :: string where "PolicyPhaseActive = ''Active''"

definition PolicyPhaseValidating :: string where "PolicyPhaseValidating = ''Validating''"

definition PolicyPhaseError :: string where "PolicyPhaseError = ''Error''"

definition PolicyPhaseRolledBack :: string where "PolicyPhaseRolledBack = ''RolledBack''"

lemmas policy_constants =
  PolicyModeAutomatic_def PolicyModeAdvisory_def
  BreachActionAlert_def BreachActionThrottle_def BreachActionBlockDeployments_def
  PolicyPhaseActive_def PolicyPhaseValidating_def PolicyPhaseError_def PolicyPhaseRolledBack_def

section \<open>The specification of a policy\<close>

record 'f BudgetSpec =
  MonthlyLimit :: 'f
  AlertThresholds :: "'f list"
  BreachAction :: string

record 'f InstanceMixSpec =
  MinOnDemandPercent :: 'f
  MaxSpotPercent :: 'f
  AllowedInstanceTypes :: "string list"

record AlertingChannelSpec =
  ch_Type :: string
  ch_Config :: "string \<rightharpoonup> string"

record SilenceWindowSpec =
  sw_Start :: time
  sw_End :: time
  sw_Reason :: string

record AlertingSpec =
  Channels :: "AlertingChannelSpec list"
  SilenceWindows :: "SilenceWindowSpec list"

record 'f FinancialPolicySpec =
  TargetNamespace :: string
  Budget :: "'f BudgetSpec"
  InstanceMix :: "'f InstanceMixSpec option"
  Mode :: string
  Alerting :: "AlertingSpec option"
  Version :: int

section \<open>The status of a policy\<close>

record 'f PolicyCondition =
  c_Type :: string
  c_Status :: string
  c_LastTransitionTime :: time
  c_Reason :: string
  c_Message :: "'f gotext"

record 'f FinancialPolicyStatus =
  Phase :: string
  CurrentCost :: 'f
  BudgetUsagePercent :: 'f
  LastEvaluated :: "time option"
  Conditions :: "'f PolicyCondition list"

section \<open>Version history and annotations\<close>

record 'f PolicyVersion =
  pv_Version :: int
  pv_Spec :: "'f FinancialPolicySpec"
  pv_Timestamp :: time

text \<open>
  The value of an annotation is a text. The only texts the program writes or decodes are
  JSON renderings of version histories, so a text is represented by what decoding it
  gives: \<open>AJson h\<close> is a JSON text of the history \<open>h\<close>, \<open>AText s\<close> is the text \<open>s\<close> that
  is not one. Empty and missing slices, which \<^verbatim>\<open>omitempty\<close> does not distinguish, are the
  empty list in every record above.
\<close>

datatype 'f annotation = AText string | AJson "'f PolicyVersion list"

section \<open>The resource\<close>

text \<open>
  Of the object metadata the program uses the name, the namespace, the annotations (a map
  that may be nil) and the resource version, which is opaque to it.
\<close>

record 'f FinancialPolicy =
  Name :: string
  Namespace :: string
  Annotations :: "(string \<rightharpoonup> 'f annotation) option"
  ResourceVersion :: string
  Spec :: "'f FinancialPolicySpec"
  Status :: "'f FinancialPolicyStatus"

section \<open>Validation errors\<close>

record 'f ValidationError =
  ve_Field :: string
  ve_Message :: "'f gotext"

text \<open>\<^verbatim>\<open>fmt.Sprintf("%s: %s", ve.Field, ve.Message)\<close> and the messages joined by \<^verbatim>\<open>"; "\<close>.\<close>

definition error_text :: "'f ValidationError \<Rightarrow> 'f gotext" where
  "error_text ve = Txt (ve_Field ve @ '': '') # ve_Message ve"

definition error_texts :: "'f ValidationError list \<Rightarrow> 'f gotext" where
  "error_texts errs = join [Txt ''; ''] (map error_text errs)"

end
