(* ===== verification/Deep_Copy.thy ===== *)
theory Deep_Copy
  imports Go_Memory Policy_Types
begin

text \<open>
  The deep copies of \<^verbatim>\<open>api/v1alpha1/zz_generated.deepcopy.go\<close> over the memory of theory
  \<^verbatim>\<open>Go_Memory\<close>, with the structs of \<^verbatim>\<open>financialpolicy_types.go\<close>, \<^verbatim>\<open>costreport_types.go\<close> and
  \<^verbatim>\<open>optimizationaction_types.go\<close> as they lie there: a field that is a slice, a map or a pointer
  is a type parameter of its record, a reference in memory and a value in what a reader gives.
  The readers say what a struct in memory stands for.
\<close>

section \<open>The structs\<close>

text \<open>
  \<^verbatim>\<open>SilenceWindowSpec\<close> and \<^verbatim>\<open>PolicyCondition\<close> hold no references and are the records of theory
  \<^verbatim>\<open>Policy_Types\<close>. The three resources have the same shape, and so have their lists.
\<close>

record 'n BudgetStruct =
  bu_MonthlyLimit :: f64
  bu_AlertThresholds :: 'n
  bu_BreachAction :: string

record 'n MixStruct =
  im_MinOnDemandPercent :: f64
  im_MaxSpotPercent :: f64
  im_AllowedInstanceTypes :: 'n

record 'n ChannelStruct =
  ac_Type :: string
  ac_Config :: 'n

record ('c, 'w) AlertingStruct =
  al_Channels :: 'c
  al_SilenceWindows :: 'w

record ('b, 'i, 'a) SpecStruct =
  sp_TargetNamespace :: string
  sp_Budget :: 'b
  sp_InstanceMix :: 'i
  sp_Mode :: string
  sp_Alerting :: 'a
  sp_Version :: int

record ('t, 'c) StatusStruct =
  st_Phase :: string
  st_CurrentCost :: f64
  st_BudgetUsagePercent :: f64
  st_LastEvaluated :: 't
  st_Conditions :: 'c

record 'n ReportSpecStruct =
  rs_StartTime :: time
  rs_EndTime :: time
  rs_Namespaces :: 'n
  rs_Teams :: 'n

record 'm NamespaceStruct =
  su_Namespace :: string
  su_DirectCost :: f64
  su_SharedCost :: f64
  su_TotalCost :: f64
  su_ByService :: 'm

record TeamStruct =
  te_Team :: string
  te_DirectCost :: f64
  te_IndirectCost :: f64
  te_TotalCost :: f64

record ('n, 't, 'g) ReportStatusStruct =
  rt_Phase :: string
  rt_TotalCost :: f64
  rt_ByNamespace :: 'n
  rt_ByTeam :: 't
  rt_GeneratedAt :: 'g
  rt_Message :: string

record ('n, 'm) ActionSpecStruct =
  as_ActionType :: string
  as_PolicyRef :: string
  as_TargetNamespace :: string
  as_Reason :: string
  as_ExpectedSavings :: f64
  as_AffectedNodes :: 'n
  as_CurrentMix :: 'm
  as_RecommendedMix :: 'm
  as_RequiresApproval :: bool

record 't ActionStatusStruct =
  at_Result :: string
  at_AppliedAt :: 't
  at_ApprovedBy :: string
  at_ActualSavings :: f64
  at_Message :: string
  at_RollbackReason :: string

record TypeMeta =
  tm_Kind :: string
  tm_APIVersion :: string

record ('m, 's, 't) ResourceStruct =
  re_TypeMeta :: TypeMeta
  re_ObjectMeta :: 'm
  re_Spec :: 's
  re_Status :: 't

record ('l, 'i) ListStruct =
  li_TypeMeta :: TypeMeta
  li_ListMeta :: 'l
  li_Items :: 'i

section \<open>The structs in memory\<close>

type_synonym mem_budget = "slice BudgetStruct"
type_synonym mem_mix = "slice MixStruct"
type_synonym mem_channel = "map_ref ChannelStruct"
type_synonym mem_alerting = "(slice, slice) AlertingStruct"
type_synonym mem_spec = "(mem_budget, pointer, pointer) SpecStruct"
type_synonym mem_status = "(pointer, slice) StatusStruct"
type_synonym 'm mem_policy = "('m, mem_spec, mem_status) ResourceStruct"
type_synonym mem_report_spec = "slice ReportSpecStruct"
type_synonym mem_namespace_summary = "map_ref NamespaceStruct"
type_synonym mem_report_status = "(slice, slice, pointer) ReportStatusStruct"
type_synonym 'm mem_report = "('m, mem_report_spec, mem_report_status) ResourceStruct"
type_synonym mem_action_spec = "(slice, map_ref) ActionSpecStruct"
type_synonym mem_action_status = "pointer ActionStatusStruct"
type_synonym 'm mem_action = "('m, mem_action_spec, mem_action_status) ResourceStruct"
type_synonym 'l mem_list = "('l, slice) ListStruct"

text \<open>
  The objects of the memory, one constructor for each type of array and map. \<open>OOther\<close> are the
  objects that only the metadata of Kubernetes leads to.
\<close>

datatype ('m, 'l, 'x) gobject =
    ONumbers "f64 list"
  | OStrings "string list"
  | OTimes "time list"
  | OStringMap "(string \<times> string) list"
  | ONumberMap "(string \<times> f64) list"
  | OBudgets "(mem_budget) list"
  | OMixes "(mem_mix) list"
  | OChannels "(mem_channel) list"
  | OWindows "(SilenceWindowSpec) list"
  | OAlertings "(mem_alerting) list"
  | OConditions "(f64 PolicyCondition) list"
  | OSpecs "(mem_spec) list"
  | OStatuses "(mem_status) list"
  | OPolicies "('m mem_policy) list"
  | OPolicyLists "('l mem_list) list"
  | OReportSpecs "(mem_report_spec) list"
  | ONamespaceSummaries "(mem_namespace_summary) list"
  | OTeamSummaries "(TeamStruct) list"
  | OReportStatuses "(mem_report_status) list"
  | OReports "('m mem_report) list"
  | OReportLists "('l mem_list) list"
  | OActionSpecs "(mem_action_spec) list"
  | OActionStatuses "(mem_action_status) list"
  | OActions "('m mem_action) list"
  | OActionLists "('l mem_list) list"
  | OOther 'x

type_synonym ('m, 'l, 'x) go_memory = "('m, 'l, 'x) gobject memory"

type_synonym ('a, 'm, 'l, 'x) copier = "'a \<Rightarrow> ('m, 'l, 'x) go_memory \<Rightarrow> 'a \<times> ('m, 'l, 'x) go_memory"

type_synonym ('a, 'm, 'l, 'x) new_copier =
  "'a option \<Rightarrow> ('m, 'l, 'x) go_memory \<Rightarrow> pointer \<times> ('m, 'l, 'x) go_memory"

text \<open>
  The metadata and the time of \<^verbatim>\<open>apimachinery\<close>, which is not part of the program: their copies and
  zero values. \<^verbatim>\<open>TimeDeepCopy\<close> is the copy of a pointer to a time.
\<close>

record ('m, 'l, 'x) metav1 =
  TimeDeepCopyInto :: "(time, 'm, 'l, 'x) copier"
  TimeDeepCopy :: "(pointer, 'm, 'l, 'x) copier"
  ObjectMetaDeepCopyInto :: "('m, 'm, 'l, 'x) copier"
  ListMetaDeepCopyInto :: "('l, 'm, 'l, 'x) copier"
  zeroTime :: time
  zeroObjectMeta :: 'm
  zeroListMeta :: 'l

section \<open>Zero values\<close>

text \<open>What \<^verbatim>\<open>new\<close> and \<^verbatim>\<open>make\<close> fill a struct with.\<close>

definition zero_budget :: mem_budget where
  "zero_budget = \<lparr>bu_MonthlyLimit = 0, bu_AlertThresholds = None, bu_BreachAction = []\<rparr>"

definition zero_mix :: mem_mix where
  "zero_mix = \<lparr>im_MinOnDemandPercent = 0, im_MaxSpotPercent = 0, im_AllowedInstanceTypes = None\<rparr>"

definition zero_channel :: mem_channel where
  "zero_channel = \<lparr>ac_Type = [], ac_Config = None\<rparr>"

definition zero_window :: "('m, 'l, 'x) metav1 \<Rightarrow> SilenceWindowSpec" where
  "zero_window M = \<lparr>sw_Start = zeroTime M, sw_End = zeroTime M, sw_Reason = []\<rparr>"

definition zero_alerting :: mem_alerting where
  "zero_alerting = \<lparr>al_Channels = None, al_SilenceWindows = None\<rparr>"

definition zero_condition :: "('m, 'l, 'x) metav1 \<Rightarrow> f64 PolicyCondition" where
  "zero_condition M = \<lparr>c_Type = [], c_Status = [], c_LastTransitionTime = zeroTime M, c_Reason = [], c_Message = []\<rparr>"

definition zero_spec :: mem_spec where
  "zero_spec = \<lparr>sp_TargetNamespace = [], sp_Budget = zero_budget, sp_InstanceMix = None, sp_Mode = [],
     sp_Alerting = None, sp_Version = 0\<rparr>"

definition zero_status :: mem_status where
  "zero_status = \<lparr>st_Phase = [], st_CurrentCost = 0, st_BudgetUsagePercent = 0, st_LastEvaluated = None,
     st_Conditions = None\<rparr>"

definition zero_type_meta :: TypeMeta where
  "zero_type_meta = \<lparr>tm_Kind = [], tm_APIVersion = []\<rparr>"

definition zero_policy :: "('m, 'l, 'x) metav1 \<Rightarrow> 'm mem_policy" where
  "zero_policy M = \<lparr>re_TypeMeta = zero_type_meta, re_ObjectMeta = zeroObjectMeta M, re_Spec = zero_spec,
     re_Status = zero_status\<rparr>"

definition zero_list :: "('m, 'l, 'x) metav1 \<Rightarrow> 'l mem_list" where
  "zero_list M = \<lparr>li_TypeMeta = zero_type_meta, li_ListMeta = zeroListMeta M, li_Items = None\<rparr>"

definition zero_report_spec :: "('m, 'l, 'x) metav1 \<Rightarrow> mem_report_spec" where
  "zero_report_spec M = \<lparr>rs_StartTime = zeroTime M, rs_EndTime = zeroTime M, rs_Namespaces = None, rs_Teams = None\<rparr>"

definition zero_namespace_summary :: mem_namespace_summary where
  "zero_namespace_summary = \<lparr>su_Namespace = [], su_DirectCost = 0, su_SharedCost = 0, su_TotalCost = 0,
     su_ByService = None\<rparr>"

definition zero_team_summary :: TeamStruct where
  "zero_team_summary = \<lparr>te_Team = [], te_DirectCost = 0, te_IndirectCost = 0, te_TotalCost = 0\<rparr>"

definition zero_report_status :: mem_report_status where
  "zero_report_status = \<lparr>rt_Phase = [], rt_TotalCost = 0, rt_ByNamespace = None, rt_ByTeam = None,
     rt_GeneratedAt = None, rt_Message = []\<rparr>"

definition zero_report :: "('m, 'l, 'x) metav1 \<Rightarrow> 'm mem_report" where
  "zero_report M = \<lparr>re_TypeMeta = zero_type_meta, re_ObjectMeta = zeroObjectMeta M,
     re_Spec = zero_report_spec M, re_Status = zero_report_status\<rparr>"

definition zero_action_spec :: mem_action_spec where
  "zero_action_spec = \<lparr>as_ActionType = [], as_PolicyRef = [], as_TargetNamespace = [], as_Reason = [],
     as_ExpectedSavings = 0, as_AffectedNodes = None, as_CurrentMix = None, as_RecommendedMix = None,
     as_RequiresApproval = False\<rparr>"

definition zero_action_status :: mem_action_status where
  "zero_action_status = \<lparr>at_Result = [], at_AppliedAt = None, at_ApprovedBy = [], at_ActualSavings = 0,
     at_Message = [], at_RollbackReason = []\<rparr>"

definition zero_action :: "('m, 'l, 'x) metav1 \<Rightarrow> 'm mem_action" where
  "zero_action M = \<lparr>re_TypeMeta = zero_type_meta, re_ObjectMeta = zeroObjectMeta M,
     re_Spec = zero_action_spec, re_Status = zero_action_status\<rparr>"

section \<open>The layouts of the objects\<close>

definition numbers :: "(('m, 'l, 'x) gobject, f64) layout" where
  "numbers = \<lparr>of_object = (\<lambda>c. case c of ONumbers es \<Rightarrow> Some es | _ \<Rightarrow> None), to_object = ONumbers\<rparr>"

definition strings :: "(('m, 'l, 'x) gobject, string) layout" where
  "strings = \<lparr>of_object = (\<lambda>c. case c of OStrings es \<Rightarrow> Some es | _ \<Rightarrow> None), to_object = OStrings\<rparr>"

definition times :: "(('m, 'l, 'x) gobject, time) layout" where
  "times = \<lparr>of_object = (\<lambda>c. case c of OTimes es \<Rightarrow> Some es | _ \<Rightarrow> None), to_object = OTimes\<rparr>"

definition string_map :: "(('m, 'l, 'x) gobject, string \<times> string) layout" where
  "string_map = \<lparr>of_object = (\<lambda>c. case c of OStringMap es \<Rightarrow> Some es | _ \<Rightarrow> None), to_object = OStringMap\<rparr>"

definition number_map :: "(('m, 'l, 'x) gobject, string \<times> f64) layout" where
  "number_map = \<lparr>of_object = (\<lambda>c. case c of ONumberMap es \<Rightarrow> Some es | _ \<Rightarrow> None), to_object = ONumberMap\<rparr>"

definition budgets :: "(('m, 'l, 'x) gobject, mem_budget) layout" where
  "budgets = \<lparr>of_object = (\<lambda>c. case c of OBudgets es \<Rightarrow> Some es | _ \<Rightarrow> None), to_object = OBudgets\<rparr>"

definition mixes :: "(('m, 'l, 'x) gobject, mem_mix) layout" where
  "mixes = \<lparr>of_object = (\<lambda>c. case c of OMixes es \<Rightarrow> Some es | _ \<Rightarrow> None), to_object = OMixes\<rparr>"

definition channels :: "(('m, 'l, 'x) gobject, mem_channel) layout" where
  "channels = \<lparr>of_object = (\<lambda>c. case c of OChannels es \<Rightarrow> Some es | _ \<Rightarrow> None), to_object = OChannels\<rparr>"

definition windows :: "(('m, 'l, 'x) gobject, SilenceWindowSpec) layout" where
  "windows = \<lparr>of_object = (\<lambda>c. case c of OWindows es \<Rightarrow> Some es | _ \<Rightarrow> None), to_object = OWindows\<rparr>"

definition alertings :: "(('m, 'l, 'x) gobject, mem_alerting) layout" where
  "alertings = \<lparr>of_object = (\<lambda>c. case c of OAlertings es \<Rightarrow> Some es | _ \<Rightarrow> None), to_object = OAlertings\<rparr>"

definition conditions :: "(('m, 'l, 'x) gobject, f64 PolicyCondition) layout" where
  "conditions = \<lparr>of_object = (\<lambda>c. case c of OConditions es \<Rightarrow> Some es | _ \<Rightarrow> None), to_object = OConditions\<rparr>"

definition specs :: "(('m, 'l, 'x) gobject, mem_spec) layout" where
  "specs = \<lparr>of_object = (\<lambda>c. case c of OSpecs es \<Rightarrow> Some es | _ \<Rightarrow> None), to_object = OSpecs\<rparr>"

definition statuses :: "(('m, 'l, 'x) gobject, mem_status) layout" where
  "statuses = \<lparr>of_object = (\<lambda>c. case c of OStatuses es \<Rightarrow> Some es | _ \<Rightarrow> None), to_object = OStatuses\<rparr>"

definition policies :: "(('m, 'l, 'x) gobject, 'm mem_policy) layout" where
  "policies = \<lparr>of_object = (\<lambda>c. case c of OPolicies es \<Rightarrow> Some es | _ \<Rightarrow> None), to_object = OPolicies\<rparr>"

definition policy_lists :: "(('m, 'l, 'x) gobject, 'l mem_list) layout" where
  "policy_lists = \<lparr>of_object = (\<lambda>c. case c of OPolicyLists es \<Rightarrow> Some es | _ \<Rightarrow> None), to_object = OPolicyLists\<rparr>"

definition report_specs :: "(('m, 'l, 'x) gobject, mem_report_spec) layout" where
  "report_specs = \<lparr>of_object = (\<lambda>c. case c of OReportSpecs es \<Rightarrow> Some es | _ \<Rightarrow> None), to_object = OReportSpecs\<rparr>"

definition namespace_summaries :: "(('m, 'l, 'x) gobject, mem_namespace_summary) layout" where
  "namespace_summaries = \<lparr>of_object = (\<lambda>c. case c of ONamespaceSummaries es \<Rightarrow> Some es | _ \<Rightarrow> None), to_object = ONamespaceSummaries\<rparr>"

definition team_summaries :: "(('m, 'l, 'x) gobject, TeamStruct) layout" where
  "team_summaries = \<lparr>of_object = (\<lambda>c. case c of OTeamSummaries es \<Rightarrow> Some es | _ \<Rightarrow> None), to_object = OTeamSummaries\<rparr>"

definition report_statuses :: "(('m, 'l, 'x) gobject, mem_report_status) layout" where
  "report_statuses = \<lparr>of_object = (\<lambda>c. case c of OReportStatuses es \<Rightarrow> Some es | _ \<Rightarrow> None), to_object = OReportStatuses\<rparr>"

definition reports :: "(('m, 'l, 'x) gobject, 'm mem_report) layout" where
  "reports = \<lparr>of_object = (\<lambda>c. case c of OReports es \<Rightarrow> Some es | _ \<Rightarrow> None), to_object = OReports\<rparr>"

definition report_lists :: "(('m, 'l, 'x) gobject, 'l mem_list) layout" where
  "report_lists = \<lparr>of_object = (\<lambda>c. case c of OReportLists es \<Rightarrow> Some es | _ \<Rightarrow> None), to_object = OReportLists\<rparr>"

definition action_specs :: "(('m, 'l, 'x) gobject, mem_action_spec) layout" where
  "action_specs = \<lparr>of_object = (\<lambda>c. case c of OActionSpecs es \<Rightarrow> Some es | _ \<Rightarrow> None), to_object = OActionSpecs\<rparr>"

definition action_statuses :: "(('m, 'l, 'x) gobject, mem_action_status) layout" where
  "action_statuses = \<lparr>of_object = (\<lambda>c. case c of OActionStatuses es \<Rightarrow> Some es | _ \<Rightarrow> None), to_object = OActionStatuses\<rparr>"

definition actions :: "(('m, 'l, 'x) gobject, 'm mem_action) layout" where
  "actions = \<lparr>of_object = (\<lambda>c. case c of OActions es \<Rightarrow> Some es | _ \<Rightarrow> None), to_object = OActions\<rparr>"

definition action_lists :: "(('m, 'l, 'x) gobject, 'l mem_list) layout" where
  "action_lists = \<lparr>of_object = (\<lambda>c. case c of OActionLists es \<Rightarrow> Some es | _ \<Rightarrow> None), to_object = OActionLists\<rparr>"

lemmas layouts =
    numbers_def strings_def times_def string_map_def number_map_def budgets_def mixes_def
  channels_def windows_def alertings_def conditions_def specs_def statuses_def policies_def
  policy_lists_def report_specs_def namespace_summaries_def team_summaries_def
  report_statuses_def reports_def report_lists_def action_specs_def action_statuses_def
  actions_def action_lists_def

lemma layouts_ok [simp]:
  "layout_ok numbers"
  "layout_ok strings"
  "layout_ok times"
  "layout_ok string_map"
  "layout_ok number_map"
  "layout_ok budgets"
  "layout_ok mixes"
  "layout_ok channels"
  "layout_ok windows"
  "layout_ok alertings"
  "layout_ok conditions"
  "layout_ok specs"
  "layout_ok statuses"
  "layout_ok policies"
  "layout_ok policy_lists"
  "layout_ok report_specs"
  "layout_ok namespace_summaries"
  "layout_ok team_summaries"
  "layout_ok report_statuses"
  "layout_ok reports"
  "layout_ok report_lists"
  "layout_ok action_specs"
  "layout_ok action_statuses"
  "layout_ok actions"
  "layout_ok action_lists"
  by (simp_all add: layout_ok_def layouts)

section \<open>The copies\<close>

text \<open>
  \<open>T_DeepCopyInto\<close> is what \<^verbatim>\<open>in.DeepCopyInto(out)\<close> writes to \<^verbatim>\<open>*out\<close>;
  \<open>T_DeepCopy\<close> is the method \<^verbatim>\<open>DeepCopy\<close>, given the struct its receiver points to.
\<close>

definition BudgetSpec_DeepCopyInto :: "(mem_budget, 'm, 'l, 'x) copier" where
  "BudgetSpec_DeepCopyInto x h =
     (let (ts, h1) = copy_plain numbers 0 (bu_AlertThresholds x) h
      in (x\<lparr>bu_AlertThresholds := ts\<rparr>, h1))"

definition InstanceMixSpec_DeepCopyInto :: "(mem_mix, 'm, 'l, 'x) copier" where
  "InstanceMixSpec_DeepCopyInto x h =
     (let (ts, h1) = copy_plain strings [] (im_AllowedInstanceTypes x) h
      in (x\<lparr>im_AllowedInstanceTypes := ts\<rparr>, h1))"

definition AlertingChannelSpec_DeepCopyInto :: "(mem_channel, 'm, 'l, 'x) copier" where
  "AlertingChannelSpec_DeepCopyInto x h =
     (let (c, h1) = copy_map string_map (ac_Config x) h
      in (x\<lparr>ac_Config := c\<rparr>, h1))"

definition SilenceWindowSpec_DeepCopyInto :: "('m, 'l, 'x) metav1 \<Rightarrow> (SilenceWindowSpec, 'm, 'l, 'x)
  copier" where
  "SilenceWindowSpec_DeepCopyInto M x h =
     (let (s, h1) = TimeDeepCopyInto M (sw_Start x) h;
          (e, h2) = TimeDeepCopyInto M (sw_End x) h1
      in (x\<lparr>sw_Start := s, sw_End := e\<rparr>, h2))"

definition AlertingSpec_DeepCopyInto :: "('m, 'l, 'x) metav1 \<Rightarrow> (mem_alerting, 'm, 'l, 'x) copier" where
  "AlertingSpec_DeepCopyInto M x h =
     (let (cs, h1) = copy_each channels zero_channel AlertingChannelSpec_DeepCopyInto (al_Channels x) h;
          (ws, h2) = copy_each windows (zero_window M) (SilenceWindowSpec_DeepCopyInto M)
            (al_SilenceWindows x) h1
      in (x\<lparr>al_Channels := cs, al_SilenceWindows := ws\<rparr>, h2))"

definition PolicyCondition_DeepCopyInto :: "('m, 'l, 'x) metav1 \<Rightarrow> (f64 PolicyCondition, 'm, 'l, 'x)
  copier" where
  "PolicyCondition_DeepCopyInto M x h =
     (let (t, h1) = TimeDeepCopyInto M (c_LastTransitionTime x) h
      in (x\<lparr>c_LastTransitionTime := t\<rparr>, h1))"

definition FinancialPolicySpec_DeepCopyInto :: "('m, 'l, 'x) metav1 \<Rightarrow> (mem_spec, 'm, 'l, 'x) copier"
  where
  "FinancialPolicySpec_DeepCopyInto M x h =
     (let (b, h1) = BudgetSpec_DeepCopyInto (sp_Budget x) h;
          (m, h2) = copy_new mixes zero_mix InstanceMixSpec_DeepCopyInto (sp_InstanceMix x) h1;
          (a, h3) = copy_new alertings zero_alerting (AlertingSpec_DeepCopyInto M) (sp_Alerting x) h2
      in (x\<lparr>sp_Budget := b, sp_InstanceMix := m, sp_Alerting := a\<rparr>, h3))"

definition FinancialPolicyStatus_DeepCopyInto :: "('m, 'l, 'x) metav1 \<Rightarrow> (mem_status, 'm, 'l, 'x)
  copier" where
  "FinancialPolicyStatus_DeepCopyInto M x h =
     (let (t, h1) = TimeDeepCopy M (st_LastEvaluated x) h;
          (cs, h2) = copy_each conditions (zero_condition M) (PolicyCondition_DeepCopyInto M)
            (st_Conditions x) h1
      in (x\<lparr>st_LastEvaluated := t, st_Conditions := cs\<rparr>, h2))"

definition FinancialPolicy_DeepCopyInto :: "('m, 'l, 'x) metav1 \<Rightarrow> ('m mem_policy, 'm, 'l, 'x) copier"
  where
  "FinancialPolicy_DeepCopyInto M x h =
     (let (m, h1) = ObjectMetaDeepCopyInto M (re_ObjectMeta x) h;
          (s, h2) = FinancialPolicySpec_DeepCopyInto M (re_Spec x) h1;
          (t, h3) = FinancialPolicyStatus_DeepCopyInto M (re_Status x) h2
      in (x\<lparr>re_TypeMeta := re_TypeMeta x, re_ObjectMeta := m, re_Spec := s, re_Status := t\<rparr>, h3))"

definition FinancialPolicyList_DeepCopyInto :: "('m, 'l, 'x) metav1 \<Rightarrow> ('l mem_list, 'm, 'l, 'x)
  copier" where
  "FinancialPolicyList_DeepCopyInto M x h =
     (let (m, h1) = ListMetaDeepCopyInto M (li_ListMeta x) h;
          (xs, h2) = copy_each policies (zero_policy M) (FinancialPolicy_DeepCopyInto M) (li_Items x) h1
      in (x\<lparr>li_TypeMeta := li_TypeMeta x, li_ListMeta := m, li_Items := xs\<rparr>, h2))"

definition CostReportSpec_DeepCopyInto :: "('m, 'l, 'x) metav1 \<Rightarrow> (mem_report_spec, 'm, 'l, 'x) copier"
  where
  "CostReportSpec_DeepCopyInto M x h =
     (let (s, h1) = TimeDeepCopyInto M (rs_StartTime x) h;
          (e, h2) = TimeDeepCopyInto M (rs_EndTime x) h1;
          (ns, h3) = copy_plain strings [] (rs_Namespaces x) h2;
          (ts, h4) = copy_plain strings [] (rs_Teams x) h3
      in (x\<lparr>rs_StartTime := s, rs_EndTime := e, rs_Namespaces := ns, rs_Teams := ts\<rparr>, h4))"

definition NamespaceCostSummary_DeepCopyInto :: "(mem_namespace_summary, 'm, 'l, 'x) copier" where
  "NamespaceCostSummary_DeepCopyInto x h =
     (let (m, h1) = copy_map number_map (su_ByService x) h
      in (x\<lparr>su_ByService := m\<rparr>, h1))"

definition TeamCostSummary_DeepCopyInto :: "(TeamStruct, 'm, 'l, 'x) copier" where
  "TeamCostSummary_DeepCopyInto x h =
     (x, h)"

definition CostReportStatus_DeepCopyInto :: "('m, 'l, 'x) metav1 \<Rightarrow> (mem_report_status, 'm, 'l, 'x)
  copier" where
  "CostReportStatus_DeepCopyInto M x h =
     (let (ns, h1) = copy_each namespace_summaries zero_namespace_summary
       NamespaceCostSummary_DeepCopyInto (rt_ByNamespace x) h;
          (ts, h2) = copy_plain team_summaries zero_team_summary (rt_ByTeam x) h1;
          (g, h3) = TimeDeepCopy M (rt_GeneratedAt x) h2
      in (x\<lparr>rt_ByNamespace := ns, rt_ByTeam := ts, rt_GeneratedAt := g\<rparr>, h3))"

definition CostReport_DeepCopyInto :: "('m, 'l, 'x) metav1 \<Rightarrow> ('m mem_report, 'm, 'l, 'x) copier" where
  "CostReport_DeepCopyInto M x h =
     (let (m, h1) = ObjectMetaDeepCopyInto M (re_ObjectMeta x) h;
          (s, h2) = CostReportSpec_DeepCopyInto M (re_Spec x) h1;
          (t, h3) = CostReportStatus_DeepCopyInto M (re_Status x) h2
      in (x\<lparr>re_TypeMeta := re_TypeMeta x, re_ObjectMeta := m, re_Spec := s, re_Status := t\<rparr>, h3))"

definition CostReportList_DeepCopyInto :: "('m, 'l, 'x) metav1 \<Rightarrow> ('l mem_list, 'm, 'l, 'x) copier" where
  "CostReportList_DeepCopyInto M x h =
     (let (m, h1) = ListMetaDeepCopyInto M (li_ListMeta x) h;
          (xs, h2) = copy_each reports (zero_report M) (CostReport_DeepCopyInto M) (li_Items x) h1
      in (x\<lparr>li_TypeMeta := li_TypeMeta x, li_ListMeta := m, li_Items := xs\<rparr>, h2))"

definition OptimizationActionSpec_DeepCopyInto :: "(mem_action_spec, 'm, 'l, 'x) copier" where
  "OptimizationActionSpec_DeepCopyInto x h =
     (let (ns, h1) = copy_plain strings [] (as_AffectedNodes x) h;
          (c, h2) = copy_map number_map (as_CurrentMix x) h1;
          (r, h3) = copy_map number_map (as_RecommendedMix x) h2
      in (x\<lparr>as_AffectedNodes := ns, as_CurrentMix := c, as_RecommendedMix := r\<rparr>, h3))"

definition OptimizationActionStatus_DeepCopyInto :: "('m, 'l, 'x) metav1 \<Rightarrow> (mem_action_status, 'm, 'l,
  'x) copier" where
  "OptimizationActionStatus_DeepCopyInto M x h =
     (let (t, h1) = TimeDeepCopy M (at_AppliedAt x) h
      in (x\<lparr>at_AppliedAt := t\<rparr>, h1))"

definition OptimizationAction_DeepCopyInto :: "('m, 'l, 'x) metav1 \<Rightarrow> ('m mem_action, 'm, 'l, 'x)
  copier" where
  "OptimizationAction_DeepCopyInto M x h =
     (let (m, h1) = ObjectMetaDeepCopyInto M (re_ObjectMeta x) h;
          (s, h2) = OptimizationActionSpec_DeepCopyInto (re_Spec x) h1;
          (t, h3) = OptimizationActionStatus_DeepCopyInto M (re_Status x) h2
      in (x\<lparr>re_TypeMeta := re_TypeMeta x, re_ObjectMeta := m, re_Spec := s, re_Status := t\<rparr>, h3))"

definition OptimizationActionList_DeepCopyInto :: "('m, 'l, 'x) metav1 \<Rightarrow> ('l mem_list, 'm, 'l, 'x)
  copier" where
  "OptimizationActionList_DeepCopyInto M x h =
     (let (m, h1) = ListMetaDeepCopyInto M (li_ListMeta x) h;
          (xs, h2) = copy_each actions (zero_action M) (OptimizationAction_DeepCopyInto M) (li_Items
            x) h1
      in (x\<lparr>li_TypeMeta := li_TypeMeta x, li_ListMeta := m, li_Items := xs\<rparr>, h2))"

definition BudgetSpec_DeepCopy :: "(mem_budget, 'm, 'l, 'x) new_copier" where
  "BudgetSpec_DeepCopy = new_copy budgets zero_budget BudgetSpec_DeepCopyInto"

definition InstanceMixSpec_DeepCopy :: "(mem_mix, 'm, 'l, 'x) new_copier" where
  "InstanceMixSpec_DeepCopy = new_copy mixes zero_mix InstanceMixSpec_DeepCopyInto"

definition AlertingChannelSpec_DeepCopy :: "(mem_channel, 'm, 'l, 'x) new_copier" where
  "AlertingChannelSpec_DeepCopy = new_copy channels zero_channel AlertingChannelSpec_DeepCopyInto"

definition SilenceWindowSpec_DeepCopy :: "('m, 'l, 'x) metav1 \<Rightarrow> (SilenceWindowSpec, 'm, 'l, 'x)
  new_copier" where
  "SilenceWindowSpec_DeepCopy M = new_copy windows (zero_window M) (SilenceWindowSpec_DeepCopyInto M)"

definition AlertingSpec_DeepCopy :: "('m, 'l, 'x) metav1 \<Rightarrow> (mem_alerting, 'm, 'l, 'x) new_copier" where
  "AlertingSpec_DeepCopy M = new_copy alertings zero_alerting (AlertingSpec_DeepCopyInto M)"

definition PolicyCondition_DeepCopy :: "('m, 'l, 'x) metav1 \<Rightarrow> (f64 PolicyCondition, 'm, 'l, 'x)
  new_copier" where
  "PolicyCondition_DeepCopy M = new_copy conditions (zero_condition M) (PolicyCondition_DeepCopyInto M)"

definition FinancialPolicySpec_DeepCopy :: "('m, 'l, 'x) metav1 \<Rightarrow> (mem_spec, 'm, 'l, 'x) new_copier"
  where
  "FinancialPolicySpec_DeepCopy M = new_copy specs zero_spec (FinancialPolicySpec_DeepCopyInto M)"

definition FinancialPolicyStatus_DeepCopy :: "('m, 'l, 'x) metav1 \<Rightarrow> (mem_status, 'm, 'l, 'x)
  new_copier" where
  "FinancialPolicyStatus_DeepCopy M = new_copy statuses zero_status
    (FinancialPolicyStatus_DeepCopyInto M)"

definition FinancialPolicy_DeepCopy :: "('m, 'l, 'x) metav1 \<Rightarrow> ('m mem_policy, 'm, 'l, 'x) new_copier"
  where
  "FinancialPolicy_DeepCopy M = new_copy policies (zero_policy M) (FinancialPolicy_DeepCopyInto M)"

definition FinancialPolicyList_DeepCopy :: "('m, 'l, 'x) metav1 \<Rightarrow> ('l mem_list, 'm, 'l, 'x)
  new_copier" where
  "FinancialPolicyList_DeepCopy M = new_copy policy_lists (zero_list M)
    (FinancialPolicyList_DeepCopyInto M)"

definition CostReportSpec_DeepCopy :: "('m, 'l, 'x) metav1 \<Rightarrow> (mem_report_spec, 'm, 'l, 'x) new_copier"
  where
  "CostReportSpec_DeepCopy M = new_copy report_specs (zero_report_spec M) (CostReportSpec_DeepCopyInto
    M)"

definition NamespaceCostSummary_DeepCopy :: "(mem_namespace_summary, 'm, 'l, 'x) new_copier" where
  "NamespaceCostSummary_DeepCopy = new_copy namespace_summaries zero_namespace_summary
    NamespaceCostSummary_DeepCopyInto"

definition TeamCostSummary_DeepCopy :: "(TeamStruct, 'm, 'l, 'x) new_copier" where
  "TeamCostSummary_DeepCopy = new_copy team_summaries zero_team_summary TeamCostSummary_DeepCopyInto"

definition CostReportStatus_DeepCopy :: "('m, 'l, 'x) metav1 \<Rightarrow> (mem_report_status, 'm, 'l, 'x)
  new_copier" where
  "CostReportStatus_DeepCopy M = new_copy report_statuses zero_report_status
    (CostReportStatus_DeepCopyInto M)"

definition CostReport_DeepCopy :: "('m, 'l, 'x) metav1 \<Rightarrow> ('m mem_report, 'm, 'l, 'x) new_copier" where
  "CostReport_DeepCopy M = new_copy reports (zero_report M) (CostReport_DeepCopyInto M)"

definition CostReportList_DeepCopy :: "('m, 'l, 'x) metav1 \<Rightarrow> ('l mem_list, 'm, 'l, 'x) new_copier" where
  "CostReportList_DeepCopy M = new_copy report_lists (zero_list M) (CostReportList_DeepCopyInto M)"

definition OptimizationActionSpec_DeepCopy :: "(mem_action_spec, 'm, 'l, 'x) new_copier" where
  "OptimizationActionSpec_DeepCopy = new_copy action_specs zero_action_spec
    OptimizationActionSpec_DeepCopyInto"

definition OptimizationActionStatus_DeepCopy :: "('m, 'l, 'x) metav1 \<Rightarrow> (mem_action_status, 'm, 'l, 'x)
  new_copier" where
  "OptimizationActionStatus_DeepCopy M = new_copy action_statuses zero_action_status
    (OptimizationActionStatus_DeepCopyInto M)"

definition OptimizationAction_DeepCopy :: "('m, 'l, 'x) metav1 \<Rightarrow> ('m mem_action, 'm, 'l, 'x)
  new_copier" where
  "OptimizationAction_DeepCopy M = new_copy actions (zero_action M) (OptimizationAction_DeepCopyInto M)"

definition OptimizationActionList_DeepCopy :: "('m, 'l, 'x) metav1 \<Rightarrow> ('l mem_list, 'm, 'l, 'x)
  new_copier" where
  "OptimizationActionList_DeepCopy M = new_copy action_lists (zero_list M)
    (OptimizationActionList_DeepCopyInto M)"

section \<open>What a struct in memory stands for\<close>

definition read_BudgetSpec where
  "read_BudgetSpec =
   read_struct bu_AlertThresholds
     (\<lambda>x ts. \<lparr>bu_MonthlyLimit = bu_MonthlyLimit x, bu_AlertThresholds = ts, bu_BreachAction =
       bu_BreachAction x\<rparr>)
     (read_slice numbers read_plain)"

definition read_InstanceMixSpec where
  "read_InstanceMixSpec =
   read_struct im_AllowedInstanceTypes
     (\<lambda>x ts. \<lparr>im_MinOnDemandPercent = im_MinOnDemandPercent x, im_MaxSpotPercent = im_MaxSpotPercent
       x, im_AllowedInstanceTypes = ts\<rparr>)
     (read_slice strings read_plain)"

definition read_AlertingChannelSpec where
  "read_AlertingChannelSpec =
   read_struct ac_Config
     (\<lambda>x c. \<lparr>ac_Type = ac_Type x, ac_Config = c\<rparr>)
     (read_map string_map)"

definition read_SilenceWindowSpec where
  "read_SilenceWindowSpec =
   read_struct (\<lambda>x. (sw_Start x, sw_End x))
     (\<lambda>x (s, e). \<lparr>sw_Start = s, sw_End = e, sw_Reason = sw_Reason x\<rparr>)
     (read_pair read_plain read_plain)"

definition read_AlertingSpec where
  "read_AlertingSpec =
   read_struct (\<lambda>x. (al_Channels x, al_SilenceWindows x))
     (\<lambda>x (cs, ws). \<lparr>al_Channels = cs, al_SilenceWindows = ws\<rparr>)
     (read_pair (read_slice channels read_AlertingChannelSpec) (read_slice windows
       read_SilenceWindowSpec))"

definition read_PolicyCondition where
  "read_PolicyCondition =
   read_struct c_LastTransitionTime
     (\<lambda>x t. \<lparr>c_Type = c_Type x, c_Status = c_Status x, c_LastTransitionTime = t, c_Reason = c_Reason
       x, c_Message = c_Message x\<rparr>)
     read_plain"

definition read_FinancialPolicySpec where
  "read_FinancialPolicySpec =
   read_struct (\<lambda>x. (sp_Budget x, sp_InstanceMix x, sp_Alerting x))
     (\<lambda>x (b, m, a). \<lparr>sp_TargetNamespace = sp_TargetNamespace x, sp_Budget = b, sp_InstanceMix = m,
       sp_Mode = sp_Mode x, sp_Alerting = a, sp_Version = sp_Version x\<rparr>)
     (read_pair read_BudgetSpec (read_pair (read_pointer mixes read_InstanceMixSpec) (read_pointer
       alertings read_AlertingSpec)))"

definition read_FinancialPolicyStatus where
  "read_FinancialPolicyStatus =
   read_struct (\<lambda>x. (st_LastEvaluated x, st_Conditions x))
     (\<lambda>x (t, cs). \<lparr>st_Phase = st_Phase x, st_CurrentCost = st_CurrentCost x, st_BudgetUsagePercent =
       st_BudgetUsagePercent x, st_LastEvaluated = t, st_Conditions = cs\<rparr>)
     (read_pair (read_pointer times read_plain) (read_slice conditions read_PolicyCondition))"

definition read_FinancialPolicy where
  "read_FinancialPolicy rm =
   read_struct (\<lambda>x. (re_ObjectMeta x, re_Spec x, re_Status x))
     (\<lambda>x (m, s, t). \<lparr>re_TypeMeta = re_TypeMeta x, re_ObjectMeta = m, re_Spec = s, re_Status = t\<rparr>)
     (read_pair rm (read_pair read_FinancialPolicySpec read_FinancialPolicyStatus))"

definition read_FinancialPolicyList where
  "read_FinancialPolicyList rm rl =
   read_struct (\<lambda>x. (li_ListMeta x, li_Items x))
     (\<lambda>x (m, xs). \<lparr>li_TypeMeta = li_TypeMeta x, li_ListMeta = m, li_Items = xs\<rparr>)
     (read_pair rl (read_slice policies (read_FinancialPolicy rm)))"

definition read_CostReportSpec where
  "read_CostReportSpec =
   read_struct (\<lambda>x. (rs_StartTime x, rs_EndTime x, rs_Namespaces x, rs_Teams x))
     (\<lambda>x (s, e, ns, ts). \<lparr>rs_StartTime = s, rs_EndTime = e, rs_Namespaces = ns, rs_Teams = ts\<rparr>)
     (read_pair read_plain (read_pair read_plain (read_pair (read_slice strings read_plain)
       (read_slice strings read_plain))))"

definition read_NamespaceCostSummary where
  "read_NamespaceCostSummary =
   read_struct su_ByService
     (\<lambda>x m. \<lparr>su_Namespace = su_Namespace x, su_DirectCost = su_DirectCost x, su_SharedCost =
       su_SharedCost x, su_TotalCost = su_TotalCost x, su_ByService = m\<rparr>)
     (read_map number_map)"

definition read_TeamCostSummary ::
    "('m, 'l, 'x) go_memory \<Rightarrow> TeamStruct \<Rightarrow> (TeamStruct \<times> nat set) option" where
  "read_TeamCostSummary = read_plain"

definition read_CostReportStatus where
  "read_CostReportStatus =
   read_struct (\<lambda>x. (rt_ByNamespace x, rt_ByTeam x, rt_GeneratedAt x))
     (\<lambda>x (ns, ts, g). \<lparr>rt_Phase = rt_Phase x, rt_TotalCost = rt_TotalCost x, rt_ByNamespace = ns,
       rt_ByTeam = ts, rt_GeneratedAt = g, rt_Message = rt_Message x\<rparr>)
     (read_pair (read_slice namespace_summaries read_NamespaceCostSummary) (read_pair (read_slice
       team_summaries read_plain) (read_pointer times read_plain)))"

definition read_CostReport where
  "read_CostReport rm =
   read_struct (\<lambda>x. (re_ObjectMeta x, re_Spec x, re_Status x))
     (\<lambda>x (m, s, t). \<lparr>re_TypeMeta = re_TypeMeta x, re_ObjectMeta = m, re_Spec = s, re_Status = t\<rparr>)
     (read_pair rm (read_pair read_CostReportSpec read_CostReportStatus))"

definition read_CostReportList where
  "read_CostReportList rm rl =
   read_struct (\<lambda>x. (li_ListMeta x, li_Items x))
     (\<lambda>x (m, xs). \<lparr>li_TypeMeta = li_TypeMeta x, li_ListMeta = m, li_Items = xs\<rparr>)
     (read_pair rl (read_slice reports (read_CostReport rm)))"

definition read_OptimizationActionSpec where
  "read_OptimizationActionSpec =
   read_struct (\<lambda>x. (as_AffectedNodes x, as_CurrentMix x, as_RecommendedMix x))
     (\<lambda>x (ns, c, r). \<lparr>as_ActionType = as_ActionType x, as_PolicyRef = as_PolicyRef x,
       as_TargetNamespace = as_TargetNamespace x, as_Reason = as_Reason x, as_ExpectedSavings =
       as_ExpectedSavings x, as_AffectedNodes = ns, as_CurrentMix = c, as_RecommendedMix = r,
       as_RequiresApproval = as_RequiresApproval x\<rparr>)
     (read_pair (read_slice strings read_plain) (read_pair (read_map number_map) (read_map
       number_map)))"

definition read_OptimizationActionStatus where
  "read_OptimizationActionStatus =
   read_struct at_AppliedAt
     (\<lambda>x t. \<lparr>at_Result = at_Result x, at_AppliedAt = t, at_ApprovedBy = at_ApprovedBy x,
       at_ActualSavings = at_ActualSavings x, at_Message = at_Message x, at_RollbackReason =
       at_RollbackReason x\<rparr>)
     (read_pointer times read_plain)"

definition read_OptimizationAction where
  "read_OptimizationAction rm =
   read_struct (\<lambda>x. (re_ObjectMeta x, re_Spec x, re_Status x))
     (\<lambda>x (m, s, t). \<lparr>re_TypeMeta = re_TypeMeta x, re_ObjectMeta = m, re_Spec = s, re_Status = t\<rparr>)
     (read_pair rm (read_pair read_OptimizationActionSpec read_OptimizationActionStatus))"

definition read_OptimizationActionList where
  "read_OptimizationActionList rm rl =
   read_struct (\<lambda>x. (li_ListMeta x, li_Items x))
     (\<lambda>x (m, xs). \<lparr>li_TypeMeta = li_TypeMeta x, li_ListMeta = m, li_Items = xs\<rparr>)
     (read_pair rl (read_slice actions (read_OptimizationAction rm)))"

section \<open>Every copy is deep\<close>

named_theorems copy_rules \<open>the copies that are deep\<close>

declare layouts_ok [copy_rules] deep_copies [copy_rules]

lemma deep_copy_BudgetSpec [copy_rules]:
  "deep_copy read_BudgetSpec BudgetSpec_DeepCopyInto"
  unfolding read_BudgetSpec_def
  by (rule deep_copy_struct [where
        f = "copy_plain numbers 0" and
        put = "\<lambda>x ts. x\<lparr>bu_AlertThresholds := ts\<rparr>"],
      (rule copy_rules)+, simp_all add: BudgetSpec_DeepCopyInto_def copy_pair_def split_beta)

lemma deep_copy_InstanceMixSpec [copy_rules]:
  "deep_copy read_InstanceMixSpec InstanceMixSpec_DeepCopyInto"
  unfolding read_InstanceMixSpec_def
  by (rule deep_copy_struct [where
        f = "copy_plain strings []" and
        put = "\<lambda>x ts. x\<lparr>im_AllowedInstanceTypes := ts\<rparr>"],
      (rule copy_rules)+, simp_all add: InstanceMixSpec_DeepCopyInto_def copy_pair_def split_beta)

lemma deep_copy_AlertingChannelSpec [copy_rules]:
  "deep_copy read_AlertingChannelSpec AlertingChannelSpec_DeepCopyInto"
  unfolding read_AlertingChannelSpec_def
  by (rule deep_copy_struct [where
        f = "copy_map string_map" and
        put = "\<lambda>x c. x\<lparr>ac_Config := c\<rparr>"],
      (rule copy_rules)+, simp_all add: AlertingChannelSpec_DeepCopyInto_def copy_pair_def split_beta)

lemma deep_copy_NamespaceCostSummary [copy_rules]:
  "deep_copy read_NamespaceCostSummary NamespaceCostSummary_DeepCopyInto"
  unfolding read_NamespaceCostSummary_def
  by (rule deep_copy_struct [where
        f = "copy_map number_map" and
        put = "\<lambda>x m. x\<lparr>su_ByService := m\<rparr>"],
      (rule copy_rules)+, simp_all add: NamespaceCostSummary_DeepCopyInto_def copy_pair_def split_beta)

lemma deep_copy_TeamCostSummary [copy_rules]: "deep_copy read_TeamCostSummary
  TeamCostSummary_DeepCopyInto"
  using deep_copy_plain by (simp add: read_TeamCostSummary_def TeamCostSummary_DeepCopyInto_def
    [abs_def])

lemma deep_copy_OptimizationActionSpec [copy_rules]:
  "deep_copy read_OptimizationActionSpec OptimizationActionSpec_DeepCopyInto"
  unfolding read_OptimizationActionSpec_def
  by (rule deep_copy_struct [where
        f = "copy_pair (copy_plain strings []) (copy_pair (copy_map number_map) (copy_map
          number_map))" and
        put = "\<lambda>x (ns, c, r). x\<lparr>as_AffectedNodes := ns, as_CurrentMix := c, as_RecommendedMix := r\<rparr>"],
      (rule copy_rules)+, simp_all add: OptimizationActionSpec_DeepCopyInto_def copy_pair_def
        split_beta)

text \<open>
  The contract of \<^verbatim>\<open>apimachinery\<close>: the copies of its metadata are deep, its times are values.
\<close>

locale metav1_copies =
  fixes M :: "('m, 'l, 'x) metav1"
    and rm :: "('m, 'l, 'x) gobject memory \<Rightarrow> 'm \<Rightarrow> ('mv \<times> nat set) option"
    and rl :: "('m, 'l, 'x) gobject memory \<Rightarrow> 'l \<Rightarrow> ('lv \<times> nat set) option"
  assumes time: "deep_copy read_plain (TimeDeepCopyInto M)"
    and time_pointer: "deep_copy (read_pointer times read_plain) (TimeDeepCopy M)"
    and object_meta: "deep_copy rm (ObjectMetaDeepCopyInto M)"
    and list_meta: "deep_copy rl (ListMetaDeepCopyInto M)"
begin

declare time [copy_rules] time_pointer [copy_rules] object_meta [copy_rules] list_meta [copy_rules]

lemma deep_SilenceWindowSpec [copy_rules]:
  "deep_copy read_SilenceWindowSpec (SilenceWindowSpec_DeepCopyInto M)"
  unfolding read_SilenceWindowSpec_def
  by (rule deep_copy_struct [where
        f = "copy_pair (TimeDeepCopyInto M) (TimeDeepCopyInto M)" and
        put = "\<lambda>x (s, e). x\<lparr>sw_Start := s, sw_End := e\<rparr>"],
      (rule copy_rules)+, simp_all add: SilenceWindowSpec_DeepCopyInto_def copy_pair_def split_beta)

lemma deep_AlertingSpec [copy_rules]:
  "deep_copy read_AlertingSpec (AlertingSpec_DeepCopyInto M)"
  unfolding read_AlertingSpec_def
  by (rule deep_copy_struct [where
        f = "copy_pair (copy_each channels zero_channel AlertingChannelSpec_DeepCopyInto) (copy_each
          windows (zero_window M) (SilenceWindowSpec_DeepCopyInto M))" and
        put = "\<lambda>x (cs, ws). x\<lparr>al_Channels := cs, al_SilenceWindows := ws\<rparr>"],
      (rule copy_rules)+, simp_all add: AlertingSpec_DeepCopyInto_def copy_pair_def split_beta)

lemma deep_PolicyCondition [copy_rules]:
  "deep_copy read_PolicyCondition (PolicyCondition_DeepCopyInto M)"
  unfolding read_PolicyCondition_def
  by (rule deep_copy_struct [where
        f = "TimeDeepCopyInto M" and
        put = "\<lambda>x t. x\<lparr>c_LastTransitionTime := t\<rparr>"],
      (rule copy_rules)+, simp_all add: PolicyCondition_DeepCopyInto_def copy_pair_def split_beta)

lemma deep_FinancialPolicySpec [copy_rules]:
  "deep_copy read_FinancialPolicySpec (FinancialPolicySpec_DeepCopyInto M)"
  unfolding read_FinancialPolicySpec_def
  by (rule deep_copy_struct [where
        f = "copy_pair BudgetSpec_DeepCopyInto (copy_pair (copy_new mixes zero_mix
          InstanceMixSpec_DeepCopyInto) (copy_new alertings zero_alerting (AlertingSpec_DeepCopyInto
          M)))" and
        put = "\<lambda>x (b, m, a). x\<lparr>sp_Budget := b, sp_InstanceMix := m, sp_Alerting := a\<rparr>"],
      (rule copy_rules)+, simp_all add: FinancialPolicySpec_DeepCopyInto_def copy_pair_def split_beta)

lemma deep_FinancialPolicyStatus [copy_rules]:
  "deep_copy read_FinancialPolicyStatus (FinancialPolicyStatus_DeepCopyInto M)"
  unfolding read_FinancialPolicyStatus_def
  by (rule deep_copy_struct [where
        f = "copy_pair (TimeDeepCopy M) (copy_each conditions (zero_condition M)
          (PolicyCondition_DeepCopyInto M))" and
        put = "\<lambda>x (t, cs). x\<lparr>st_LastEvaluated := t, st_Conditions := cs\<rparr>"],
      (rule copy_rules)+, simp_all add: FinancialPolicyStatus_DeepCopyInto_def copy_pair_def split_beta)

lemma deep_FinancialPolicy [copy_rules]:
  "deep_copy (read_FinancialPolicy rm) (FinancialPolicy_DeepCopyInto M)"
  unfolding read_FinancialPolicy_def
  by (rule deep_copy_struct [where
        f = "copy_pair (ObjectMetaDeepCopyInto M) (copy_pair (FinancialPolicySpec_DeepCopyInto M)
          (FinancialPolicyStatus_DeepCopyInto M))" and
        put = "\<lambda>x (m, s, t). x\<lparr>re_TypeMeta := re_TypeMeta x, re_ObjectMeta := m, re_Spec := s,
          re_Status := t\<rparr>"],
      (rule copy_rules)+, simp_all add: FinancialPolicy_DeepCopyInto_def copy_pair_def split_beta)

lemma deep_FinancialPolicyList [copy_rules]:
  "deep_copy (read_FinancialPolicyList rm rl) (FinancialPolicyList_DeepCopyInto M)"
  unfolding read_FinancialPolicyList_def
  by (rule deep_copy_struct [where
        f = "copy_pair (ListMetaDeepCopyInto M) (copy_each policies (zero_policy M)
          (FinancialPolicy_DeepCopyInto M))" and
        put = "\<lambda>x (m, xs). x\<lparr>li_TypeMeta := li_TypeMeta x, li_ListMeta := m, li_Items := xs\<rparr>"],
      (rule copy_rules)+, simp_all add: FinancialPolicyList_DeepCopyInto_def copy_pair_def split_beta)

lemma deep_CostReportSpec [copy_rules]:
  "deep_copy read_CostReportSpec (CostReportSpec_DeepCopyInto M)"
  unfolding read_CostReportSpec_def
  by (rule deep_copy_struct [where
        f = "copy_pair (TimeDeepCopyInto M) (copy_pair (TimeDeepCopyInto M) (copy_pair (copy_plain
          strings []) (copy_plain strings [])))" and
        put = "\<lambda>x (s, e, ns, ts). x\<lparr>rs_StartTime := s, rs_EndTime := e, rs_Namespaces := ns, rs_Teams
          := ts\<rparr>"],
      (rule copy_rules)+, simp_all add: CostReportSpec_DeepCopyInto_def copy_pair_def split_beta)

lemma deep_CostReportStatus [copy_rules]:
  "deep_copy read_CostReportStatus (CostReportStatus_DeepCopyInto M)"
  unfolding read_CostReportStatus_def
  by (rule deep_copy_struct [where
        f = "copy_pair (copy_each namespace_summaries zero_namespace_summary
          NamespaceCostSummary_DeepCopyInto) (copy_pair (copy_plain team_summaries zero_team_summary)
          (TimeDeepCopy M))" and
        put = "\<lambda>x (ns, ts, g). x\<lparr>rt_ByNamespace := ns, rt_ByTeam := ts, rt_GeneratedAt := g\<rparr>"],
      (rule copy_rules)+, simp_all add: CostReportStatus_DeepCopyInto_def copy_pair_def split_beta)

lemma deep_CostReport [copy_rules]:
  "deep_copy (read_CostReport rm) (CostReport_DeepCopyInto M)"
  unfolding read_CostReport_def
  by (rule deep_copy_struct [where
        f = "copy_pair (ObjectMetaDeepCopyInto M) (copy_pair (CostReportSpec_DeepCopyInto M)
          (CostReportStatus_DeepCopyInto M))" and
        put = "\<lambda>x (m, s, t). x\<lparr>re_TypeMeta := re_TypeMeta x, re_ObjectMeta := m, re_Spec := s,
          re_Status := t\<rparr>"],
      (rule copy_rules)+, simp_all add: CostReport_DeepCopyInto_def copy_pair_def split_beta)

lemma deep_CostReportList [copy_rules]:
  "deep_copy (read_CostReportList rm rl) (CostReportList_DeepCopyInto M)"
  unfolding read_CostReportList_def
  by (rule deep_copy_struct [where
        f = "copy_pair (ListMetaDeepCopyInto M) (copy_each reports (zero_report M)
          (CostReport_DeepCopyInto M))" and
        put = "\<lambda>x (m, xs). x\<lparr>li_TypeMeta := li_TypeMeta x, li_ListMeta := m, li_Items := xs\<rparr>"],
      (rule copy_rules)+, simp_all add: CostReportList_DeepCopyInto_def copy_pair_def split_beta)

lemma deep_OptimizationActionStatus [copy_rules]:
  "deep_copy read_OptimizationActionStatus (OptimizationActionStatus_DeepCopyInto M)"
  unfolding read_OptimizationActionStatus_def
  by (rule deep_copy_struct [where
        f = "TimeDeepCopy M" and
        put = "\<lambda>x t. x\<lparr>at_AppliedAt := t\<rparr>"],
      (rule copy_rules)+, simp_all add: OptimizationActionStatus_DeepCopyInto_def copy_pair_def
        split_beta)

lemma deep_OptimizationAction [copy_rules]:
  "deep_copy (read_OptimizationAction rm) (OptimizationAction_DeepCopyInto M)"
  unfolding read_OptimizationAction_def
  by (rule deep_copy_struct [where
        f = "copy_pair (ObjectMetaDeepCopyInto M) (copy_pair OptimizationActionSpec_DeepCopyInto
          (OptimizationActionStatus_DeepCopyInto M))" and
        put = "\<lambda>x (m, s, t). x\<lparr>re_TypeMeta := re_TypeMeta x, re_ObjectMeta := m, re_Spec := s,
          re_Status := t\<rparr>"],
      (rule copy_rules)+, simp_all add: OptimizationAction_DeepCopyInto_def copy_pair_def split_beta)

lemma deep_OptimizationActionList [copy_rules]:
  "deep_copy (read_OptimizationActionList rm rl) (OptimizationActionList_DeepCopyInto M)"
  unfolding read_OptimizationActionList_def
  by (rule deep_copy_struct [where
        f = "copy_pair (ListMetaDeepCopyInto M) (copy_each actions (zero_action M)
          (OptimizationAction_DeepCopyInto M))" and
        put = "\<lambda>x (m, xs). x\<lparr>li_TypeMeta := li_TypeMeta x, li_ListMeta := m, li_Items := xs\<rparr>"],
      (rule copy_rules)+, simp_all add: OptimizationActionList_DeepCopyInto_def copy_pair_def
        split_beta)

end

text \<open>The structs without times and metadata, and the resources of any metadata, meet the contract.\<close>

interpretation budget_copy: deep_copy read_BudgetSpec BudgetSpec_DeepCopyInto
  by (rule deep_copy_BudgetSpec)

interpretation mix_copy: deep_copy read_InstanceMixSpec InstanceMixSpec_DeepCopyInto
  by (rule deep_copy_InstanceMixSpec)

interpretation channel_copy: deep_copy read_AlertingChannelSpec AlertingChannelSpec_DeepCopyInto
  by (rule deep_copy_AlertingChannelSpec)

interpretation summary_copy: deep_copy read_NamespaceCostSummary NamespaceCostSummary_DeepCopyInto
  by (rule deep_copy_NamespaceCostSummary)

interpretation action_spec_copy: deep_copy read_OptimizationActionSpec OptimizationActionSpec_DeepCopyInto
  by (rule deep_copy_OptimizationActionSpec)

sublocale metav1_copies \<subseteq> policy_copy: deep_copy "read_FinancialPolicy rm" "FinancialPolicy_DeepCopyInto M"
  by (rule deep_FinancialPolicy)

sublocale metav1_copies \<subseteq> report_copy: deep_copy "read_CostReport rm" "CostReport_DeepCopyInto M"
  by (rule deep_CostReport)

sublocale metav1_copies \<subseteq> action_copy: deep_copy "read_OptimizationAction rm" "OptimizationAction_DeepCopyInto M"
  by (rule deep_OptimizationAction)

sublocale metav1_copies \<subseteq> spec_copy: deep_copy read_FinancialPolicySpec "FinancialPolicySpec_DeepCopyInto M"
  by (rule deep_FinancialPolicySpec)

end
