(* ===== verification/Runtime_Objects.thy ===== *)
theory Runtime_Objects
  imports Deep_Copy
begin

text \<open>
  The resources as values of the interface \<^verbatim>\<open>runtime.Object\<close>: the methods \<^verbatim>\<open>DeepCopyObject\<close> of
  \<^verbatim>\<open>zz_generated.deepcopy.go\<close>, what a copied object guarantees, and what the copies of a
  specification mean for the version history that keeps them.
\<close>

section \<open>Interface values\<close>

text \<open>
  An interface value has one of the six types of the package, and a pointer of that type, which
  may be nil; the nil interface value is \<open>None\<close> of \<open>runtime_object option\<close>. With values for
  the pointers, the same type is what an object stands for.
\<close>

datatype ('p, 'pl, 'r, 'rl, 'a, 'al) runtime_kind =
  IsFinancialPolicy 'p | IsFinancialPolicyList 'pl | IsCostReport 'r | IsCostReportList 'rl
| IsOptimizationAction 'a | IsOptimizationActionList 'al

type_synonym runtime_object = "(pointer, pointer, pointer, pointer, pointer, pointer) runtime_kind"

text \<open>
  \<^verbatim>\<open>if c := in.DeepCopy(); c != nil { return c }; return nil\<close>: a nil pointer does not become an
  interface value of its type, which would not be nil.
\<close>

definition FinancialPolicy_DeepCopyObject ::
    "('m, 'l, 'x) metav1 \<Rightarrow> pointer \<Rightarrow> ('m, 'l, 'x) go_memory \<Rightarrow> runtime_object option \<times> ('m, 'l, 'x) go_memory" where
  "FinancialPolicy_DeepCopyObject M p h =
     (let (c, h') = FinancialPolicy_DeepCopy M (pointee policies h p) h
      in (if c \<noteq> None then Some (IsFinancialPolicy c) else None, h'))"

definition FinancialPolicyList_DeepCopyObject ::
    "('m, 'l, 'x) metav1 \<Rightarrow> pointer \<Rightarrow> ('m, 'l, 'x) go_memory \<Rightarrow> runtime_object option \<times> ('m, 'l, 'x) go_memory" where
  "FinancialPolicyList_DeepCopyObject M p h =
     (let (c, h') = FinancialPolicyList_DeepCopy M (pointee policy_lists h p) h
      in (if c \<noteq> None then Some (IsFinancialPolicyList c) else None, h'))"

definition CostReport_DeepCopyObject ::
    "('m, 'l, 'x) metav1 \<Rightarrow> pointer \<Rightarrow> ('m, 'l, 'x) go_memory \<Rightarrow> runtime_object option \<times> ('m, 'l, 'x) go_memory" where
  "CostReport_DeepCopyObject M p h =
     (let (c, h') = CostReport_DeepCopy M (pointee reports h p) h
      in (if c \<noteq> None then Some (IsCostReport c) else None, h'))"

definition CostReportList_DeepCopyObject ::
    "('m, 'l, 'x) metav1 \<Rightarrow> pointer \<Rightarrow> ('m, 'l, 'x) go_memory \<Rightarrow> runtime_object option \<times> ('m, 'l, 'x) go_memory" where
  "CostReportList_DeepCopyObject M p h =
     (let (c, h') = CostReportList_DeepCopy M (pointee report_lists h p) h
      in (if c \<noteq> None then Some (IsCostReportList c) else None, h'))"

definition OptimizationAction_DeepCopyObject ::
    "('m, 'l, 'x) metav1 \<Rightarrow> pointer \<Rightarrow> ('m, 'l, 'x) go_memory \<Rightarrow> runtime_object option \<times> ('m, 'l, 'x) go_memory" where
  "OptimizationAction_DeepCopyObject M p h =
     (let (c, h') = OptimizationAction_DeepCopy M (pointee actions h p) h
      in (if c \<noteq> None then Some (IsOptimizationAction c) else None, h'))"

definition OptimizationActionList_DeepCopyObject ::
    "('m, 'l, 'x) metav1 \<Rightarrow> pointer \<Rightarrow> ('m, 'l, 'x) go_memory \<Rightarrow> runtime_object option \<times> ('m, 'l, 'x) go_memory" where
  "OptimizationActionList_DeepCopyObject M p h =
     (let (c, h') = OptimizationActionList_DeepCopy M (pointee action_lists h p) h
      in (if c \<noteq> None then Some (IsOptimizationActionList c) else None, h'))"

text \<open>The call of the method on an interface value.\<close>

definition DeepCopyObject ::
    "('m, 'l, 'x) metav1 \<Rightarrow> runtime_object \<Rightarrow> ('m, 'l, 'x) go_memory \<Rightarrow> runtime_object option \<times> ('m, 'l, 'x) go_memory" where
  "DeepCopyObject M obj h =
     (case obj of
        IsFinancialPolicy p \<Rightarrow> FinancialPolicy_DeepCopyObject M p h
      | IsFinancialPolicyList p \<Rightarrow> FinancialPolicyList_DeepCopyObject M p h
      | IsCostReport p \<Rightarrow> CostReport_DeepCopyObject M p h
      | IsCostReportList p \<Rightarrow> CostReportList_DeepCopyObject M p h
      | IsOptimizationAction p \<Rightarrow> OptimizationAction_DeepCopyObject M p h
      | IsOptimizationActionList p \<Rightarrow> OptimizationActionList_DeepCopyObject M p h)"

definition receiver :: "runtime_object \<Rightarrow> pointer" where
  "receiver obj =
     (case obj of IsFinancialPolicy p \<Rightarrow> p | IsFinancialPolicyList p \<Rightarrow> p | IsCostReport p \<Rightarrow> p
      | IsCostReportList p \<Rightarrow> p | IsOptimizationAction p \<Rightarrow> p | IsOptimizationActionList p \<Rightarrow> p)"

text \<open>What an interface value with a pointer that is not nil stands for.\<close>

definition as_kind :: "('v \<Rightarrow> 'k) \<Rightarrow> ('v option \<times> nat set) option \<Rightarrow> ('k \<times> nat set) option" where
  "as_kind K r = (case r of Some (Some v, F) \<Rightarrow> Some (K v, F) | _ \<Rightarrow> None)"

definition read_object where
  "read_object rm rl h obj =
     (case obj of
        IsFinancialPolicy p \<Rightarrow>
          as_kind IsFinancialPolicy (read_pointer policies (read_FinancialPolicy rm) h p)
      | IsFinancialPolicyList p \<Rightarrow>
          as_kind IsFinancialPolicyList (read_pointer policy_lists (read_FinancialPolicyList rm rl) h p)
      | IsCostReport p \<Rightarrow> as_kind IsCostReport (read_pointer reports (read_CostReport rm) h p)
      | IsCostReportList p \<Rightarrow>
          as_kind IsCostReportList (read_pointer report_lists (read_CostReportList rm rl) h p)
      | IsOptimizationAction p \<Rightarrow>
          as_kind IsOptimizationAction (read_pointer actions (read_OptimizationAction rm) h p)
      | IsOptimizationActionList p \<Rightarrow>
          as_kind IsOptimizationActionList (read_pointer action_lists (read_OptimizationActionList rm rl) h p))"

section \<open>A copied object\<close>

lemma as_kind_Some: "as_kind K r = Some (w, F) \<longleftrightarrow> (\<exists>v. r = Some (Some v, F) \<and> w = K v)"
  by (auto simp: as_kind_def split: option.splits)

lemma reader_kind:
  assumes "memory_reader r" "as_kind K (r h p) = Some (v, F)"
  shows "\<forall>a\<in>F. a < length h"
    and "\<forall>a\<in>F. a < length h' \<and> h' ! a = h ! a \<Longrightarrow> as_kind K (r h' p) = Some (v, F)"
proof -
  obtain w where w: "r h p = Some (Some w, F)" "v = K w" using assms(2) by (auto simp: as_kind_Some)
  show "\<forall>a\<in>F. a < length h" using memory_reader.bounded [OF assms(1) w(1)] by blast
  show "as_kind K (r h' p) = Some (v, F)" if "\<forall>a\<in>F. a < length h' \<and> h' ! a = h ! a"
    using memory_reader.local [OF assms(1) w(1), of h'] that w(2) by (simp add: as_kind_def)
qed

text \<open>The method of one type: \<open>K\<close> is its constructor, \<open>f\<close> its \<^verbatim>\<open>DeepCopyInto\<close>.\<close>

lemma copy_kind:
  assumes "layout_ok L" "deep_copy r f" "as_kind K (read_pointer L r h p) = Some (v, F)"
    and copy: "\<And>p h. copy p h = (let (c, h') = new_copy L zero f (pointee L h p) h
      in (if c \<noteq> None then Some (D c) else None, h'))"
  shows "\<exists>c e G. copy p h = (Some (D c), h @ e) \<and> as_kind K (read_pointer L r (h @ e) c) = Some (v, G) \<and>
    (\<forall>a\<in>G. length h \<le> a)"
proof -
  obtain w where w: "read_pointer L r h p = Some (Some w, F)" "v = K w"
    using assms(3) by (auto simp: as_kind_Some)
  obtain c e G where c: "copy_new L zero f p h = (c, h @ e)" "read_pointer L r (h @ e) c = Some (Some w, G)"
    "\<forall>a\<in>G. length h \<le> a"
    using deep_copy.copies [OF deep_copy_new [OF assms(1,2)] w(1), of zero] by blast
  then have "c \<noteq> None" by (auto simp: read_pointer_def read_nilable_Some)
  then show ?thesis using c w(2) by (auto simp: copy copy_new_def as_kind_def)
qed

lemmas deep_copy_object_defs =
  FinancialPolicy_DeepCopyObject_def FinancialPolicyList_DeepCopyObject_def CostReport_DeepCopyObject_def
  CostReportList_DeepCopyObject_def OptimizationAction_DeepCopyObject_def
  OptimizationActionList_DeepCopyObject_def
  FinancialPolicy_DeepCopy_def FinancialPolicyList_DeepCopy_def CostReport_DeepCopy_def
  CostReportList_DeepCopy_def OptimizationAction_DeepCopy_def OptimizationActionList_DeepCopy_def

context metav1_copies
begin

lemma reader_object: "memory_reader (read_object rm rl)"
proof -
  have r: "memory_reader (read_pointer policies (read_FinancialPolicy rm))"
    "memory_reader (read_pointer policy_lists (read_FinancialPolicyList rm rl))"
    "memory_reader (read_pointer reports (read_CostReport rm))"
    "memory_reader (read_pointer report_lists (read_CostReportList rm rl))"
    "memory_reader (read_pointer actions (read_OptimizationAction rm))"
    "memory_reader (read_pointer action_lists (read_OptimizationActionList rm rl))"
    by (rule deep_copy_reader, rule deep_copy_new, simp, rule copy_rules)+
  show ?thesis
  proof
    fix h x v F a assume x: "read_object rm rl h x = Some (v, F)" and a: "a \<in> F"
    from x have "\<forall>a\<in>F. a < length h"
      by (cases x; simp only: read_object_def runtime_kind.case) (rule reader_kind(1), rule r, assumption)+
    with a show "a < length h" by blast
  next
    fix h x v F h'
    assume x: "read_object rm rl h x = Some (v, F)" and same: "\<And>a. a \<in> F \<Longrightarrow> a < length h' \<and> h' ! a = h ! a"
    from same have "\<forall>a\<in>F. a < length h' \<and> h' ! a = h ! a" by blast
    with x show "read_object rm rl h' x = Some (v, F)"
      by (cases x; simp only: read_object_def runtime_kind.case) (rule reader_kind(2), rule r, assumption, assumption)+
  qed
qed

lemma object_copies:
  assumes "read_object rm rl h obj = Some (v, F)"
  shows "\<exists>c e G. DeepCopyObject M obj h = (Some c, h @ e) \<and> read_object rm rl (h @ e) c = Some (v, G) \<and>
    (\<forall>a\<in>G. length h \<le> a)"
proof (cases obj)
  case (IsFinancialPolicy p)
  have "\<exists>c e G. FinancialPolicy_DeepCopyObject M p h = (Some (IsFinancialPolicy c), h @ e) \<and>
      as_kind IsFinancialPolicy (read_pointer policies (read_FinancialPolicy rm) (h @ e) c) = Some (v, G) \<and> (\<forall>a\<in>G. length h \<le> a)"
    by (rule copy_kind [OF _ deep_FinancialPolicy]) (use assms in \<open>simp_all add: IsFinancialPolicy read_object_def deep_copy_object_defs\<close>)
  then have "\<exists>c e G. DeepCopyObject M obj h = (Some (IsFinancialPolicy c), h @ e) \<and>
      read_object rm rl (h @ e) (IsFinancialPolicy c) = Some (v, G) \<and> (\<forall>a\<in>G. length h \<le> a)"
    by (simp add: IsFinancialPolicy DeepCopyObject_def read_object_def)
  then show ?thesis by blast
next
  case (IsFinancialPolicyList p)
  have "\<exists>c e G. FinancialPolicyList_DeepCopyObject M p h = (Some (IsFinancialPolicyList c), h @ e) \<and>
      as_kind IsFinancialPolicyList (read_pointer policy_lists (read_FinancialPolicyList rm rl) (h @ e) c) = Some (v, G) \<and> (\<forall>a\<in>G. length h \<le> a)"
    by (rule copy_kind [OF _ deep_FinancialPolicyList]) (use assms in \<open>simp_all add: IsFinancialPolicyList read_object_def deep_copy_object_defs\<close>)
  then have "\<exists>c e G. DeepCopyObject M obj h = (Some (IsFinancialPolicyList c), h @ e) \<and>
      read_object rm rl (h @ e) (IsFinancialPolicyList c) = Some (v, G) \<and> (\<forall>a\<in>G. length h \<le> a)"
    by (simp add: IsFinancialPolicyList DeepCopyObject_def read_object_def)
  then show ?thesis by blast
next
  case (IsCostReport p)
  have "\<exists>c e G. CostReport_DeepCopyObject M p h = (Some (IsCostReport c), h @ e) \<and>
      as_kind IsCostReport (read_pointer reports (read_CostReport rm) (h @ e) c) = Some (v, G) \<and> (\<forall>a\<in>G. length h \<le> a)"
    by (rule copy_kind [OF _ deep_CostReport]) (use assms in \<open>simp_all add: IsCostReport read_object_def deep_copy_object_defs\<close>)
  then have "\<exists>c e G. DeepCopyObject M obj h = (Some (IsCostReport c), h @ e) \<and>
      read_object rm rl (h @ e) (IsCostReport c) = Some (v, G) \<and> (\<forall>a\<in>G. length h \<le> a)"
    by (simp add: IsCostReport DeepCopyObject_def read_object_def)
  then show ?thesis by blast
next
  case (IsCostReportList p)
  have "\<exists>c e G. CostReportList_DeepCopyObject M p h = (Some (IsCostReportList c), h @ e) \<and>
      as_kind IsCostReportList (read_pointer report_lists (read_CostReportList rm rl) (h @ e) c) = Some (v, G) \<and> (\<forall>a\<in>G. length h \<le> a)"
    by (rule copy_kind [OF _ deep_CostReportList]) (use assms in \<open>simp_all add: IsCostReportList read_object_def deep_copy_object_defs\<close>)
  then have "\<exists>c e G. DeepCopyObject M obj h = (Some (IsCostReportList c), h @ e) \<and>
      read_object rm rl (h @ e) (IsCostReportList c) = Some (v, G) \<and> (\<forall>a\<in>G. length h \<le> a)"
    by (simp add: IsCostReportList DeepCopyObject_def read_object_def)
  then show ?thesis by blast
next
  case (IsOptimizationAction p)
  have "\<exists>c e G. OptimizationAction_DeepCopyObject M p h = (Some (IsOptimizationAction c), h @ e) \<and>
      as_kind IsOptimizationAction (read_pointer actions (read_OptimizationAction rm) (h @ e) c) = Some (v, G) \<and> (\<forall>a\<in>G. length h \<le> a)"
    by (rule copy_kind [OF _ deep_OptimizationAction]) (use assms in \<open>simp_all add: IsOptimizationAction read_object_def deep_copy_object_defs\<close>)
  then have "\<exists>c e G. DeepCopyObject M obj h = (Some (IsOptimizationAction c), h @ e) \<and>
      read_object rm rl (h @ e) (IsOptimizationAction c) = Some (v, G) \<and> (\<forall>a\<in>G. length h \<le> a)"
    by (simp add: IsOptimizationAction DeepCopyObject_def read_object_def)
  then show ?thesis by blast
next
  case (IsOptimizationActionList p)
  have "\<exists>c e G. OptimizationActionList_DeepCopyObject M p h = (Some (IsOptimizationActionList c), h @ e) \<and>
      as_kind IsOptimizationActionList (read_pointer action_lists (read_OptimizationActionList rm rl) (h @ e) c) = Some (v, G) \<and> (\<forall>a\<in>G. length h \<le> a)"
    by (rule copy_kind [OF _ deep_OptimizationActionList]) (use assms in \<open>simp_all add: IsOptimizationActionList read_object_def deep_copy_object_defs\<close>)
  then have "\<exists>c e G. DeepCopyObject M obj h = (Some (IsOptimizationActionList c), h @ e) \<and>
      read_object rm rl (h @ e) (IsOptimizationActionList c) = Some (v, G) \<and> (\<forall>a\<in>G. length h \<le> a)"
    by (simp add: IsOptimizationActionList DeepCopyObject_def read_object_def)
  then show ?thesis by blast
qed

end

lemma nil_object: "receiver obj = None \<Longrightarrow> DeepCopyObject M obj h = (None, h)"
  by (cases obj) (simp_all add: receiver_def DeepCopyObject_def deep_copy_object_defs new_copy_def pointee_def)

text \<open>C10: \<^verbatim>\<open>DeepCopyObject\<close> of any of the six resource types: a nil pointer gives the nil interface
  value. Any other object, whatever its slices, maps and pointers share, gives a new object of the same
  type that stands for the same value, nil and empty apart; the memory that existed is as it was; and
  from then on each side keeps its value whatever is done to the objects of the other one or allocated.\<close>

theorem deep_copy_object:
  assumes "metav1_copies M rm rl"
  shows "(receiver obj = None \<longrightarrow> DeepCopyObject M obj h = (None, h)) \<and>
    (read_object rm rl h obj = Some (v, F) \<longrightarrow>
       (\<exists>c h'. DeepCopyObject M obj h = (Some c, h') \<and> unchanged {..<length h} h h' \<and>
         (\<forall>k. unchanged {length h..<length h'} h' k \<longrightarrow> (\<exists>G. read_object rm rl k c = Some (v, G))) \<and>
         (\<forall>k. unchanged {..<length h} h k \<longrightarrow> read_object rm rl k obj = Some (v, F))))"
proof (intro conjI impI)
  assume v: "read_object rm rl h obj = Some (v, F)"
  note r = metav1_copies.reader_object [OF assms]
  obtain c e G where c: "DeepCopyObject M obj h = (Some c, h @ e)"
    and copy: "read_object rm rl (h @ e) c = Some (v, G)" "\<forall>a\<in>G. length h \<le> a"
    using metav1_copies.object_copies [OF assms v] by blast
  show "\<exists>c h'. DeepCopyObject M obj h = (Some c, h') \<and> unchanged {..<length h} h h' \<and>
      (\<forall>k. unchanged {length h..<length h'} h' k \<longrightarrow> (\<exists>G. read_object rm rl k c = Some (v, G))) \<and>
      (\<forall>k. unchanged {..<length h} h k \<longrightarrow> read_object rm rl k obj = Some (v, F))"
    using c unchanged_append memory_reader.separated [OF r v copy] by blast
qed (rule nil_object)

section \<open>An instance of the metadata\<close>

text \<open>
  Metadata with a name, a namespace, labels and annotations, whose copy makes both maps anew, as
  the documentation of \<^verbatim>\<open>apimachinery\<close> says of the generated copies; lists have no metadata.
\<close>

record mem_meta =
  om_Name :: string
  om_Namespace :: string
  om_Labels :: map_ref
  om_Annotations :: map_ref

definition plain_machinery :: "(mem_meta, unit, unit) metav1" where
  "plain_machinery =
     \<lparr>TimeDeepCopyInto = (\<lambda>x h. (x, h)),
      TimeDeepCopy = copy_new times 0 (\<lambda>x h. (x, h)),
      ObjectMetaDeepCopyInto =
        (\<lambda>x h. let (l, h1) = copy_map string_map (om_Labels x) h;
                   (a, h2) = copy_map string_map (om_Annotations x) h1
               in (x\<lparr>om_Labels := l, om_Annotations := a\<rparr>, h2)),
      ListMetaDeepCopyInto = (\<lambda>x h. (x, h)),
      zeroTime = 0,
      zeroObjectMeta = \<lparr>om_Name = [], om_Namespace = [], om_Labels = None, om_Annotations = None\<rparr>,
      zeroListMeta = ()\<rparr>"

definition read_meta where
  "read_meta =
   read_struct (\<lambda>x. (om_Labels x, om_Annotations x)) (\<lambda>x (l, a). (om_Name x, om_Namespace x, l, a))
     (read_pair (read_map string_map) (read_map string_map))"

lemma plain_machinery_copies: "metav1_copies plain_machinery read_meta read_plain"
proof (rule metav1_copies.intro)
  show "deep_copy read_plain (TimeDeepCopyInto plain_machinery)"
    "deep_copy read_plain (ListMetaDeepCopyInto plain_machinery)"
    "deep_copy (read_pointer times read_plain) (TimeDeepCopy plain_machinery)"
    unfolding plain_machinery_def
    by (simp_all add: deep_copy_plain deep_copy_new)
  show "deep_copy read_meta (ObjectMetaDeepCopyInto plain_machinery)"
    unfolding read_meta_def
    by (rule deep_copy_struct [where
          f = "copy_pair (copy_map string_map) (copy_map string_map)" and
          put = "\<lambda>x (l, a). x\<lparr>om_Labels := l, om_Annotations := a\<rparr>"],
        (rule copy_rules)+, simp_all add: plain_machinery_def copy_pair_def split_beta)
qed

interpretation machinery: metav1_copies plain_machinery read_meta read_plain
  by (rule plain_machinery_copies)

text \<open>
  A policy whose labels and annotations are the same map, which the copy has twice; its budget
  shares an array with nothing, its status is empty.
\<close>

definition sample_memory :: "(mem_meta, unit, unit) go_memory" where
  "sample_memory =
     [ONumbers [lit 50, lit 80, lit 100], OStrings [''m5.large'', ''c5.large''],
      OMixes [\<lparr>im_MinOnDemandPercent = lit 20, im_MaxSpotPercent = lit 50, im_AllowedInstanceTypes = Some (1, 1, 1)\<rparr>],
      OStringMap [(''team'', ''a''), (''env'', ''b'')],
      OPolicies [\<lparr>re_TypeMeta = \<lparr>tm_Kind = ''FinancialPolicy'', tm_APIVersion = ''finops.eks.io/v1alpha1''\<rparr>,
        re_ObjectMeta = \<lparr>om_Name = ''p'', om_Namespace = ''ns'', om_Labels = Some 3, om_Annotations = Some 3\<rparr>,
        re_Spec = \<lparr>sp_TargetNamespace = ''ns'',
          sp_Budget = \<lparr>bu_MonthlyLimit = lit 1000, bu_AlertThresholds = Some (0, 0, 2), bu_BreachAction = ''alert''\<rparr>,
          sp_InstanceMix = Some (2, 0), sp_Mode = ''advisory'', sp_Alerting = None, sp_Version = 1\<rparr>,
        re_Status = zero_status\<rparr>]]"

definition sample_spec :: mem_spec where
  "sample_spec = \<lparr>sp_TargetNamespace = ''ns'',
     sp_Budget = \<lparr>bu_MonthlyLimit = lit 1000, bu_AlertThresholds = Some (0, 0, 2), bu_BreachAction = ''alert''\<rparr>,
     sp_InstanceMix = Some (2, 0), sp_Mode = ''advisory'', sp_Alerting = None, sp_Version = 1\<rparr>"

lemmas reader_defs =
  read_plain_def read_pair_def read_nilable_def read_array_def read_variable_def read_entries_def
  read_slice_def read_pointer_def read_map_def read_struct_def object_at_def layouts
  read_BudgetSpec_def read_InstanceMixSpec_def read_AlertingChannelSpec_def read_SilenceWindowSpec_def
  read_AlertingSpec_def read_PolicyCondition_def read_FinancialPolicySpec_def
  read_FinancialPolicyStatus_def read_FinancialPolicy_def read_meta_def

lemma sample_policy: "\<exists>v F. read_object read_meta read_plain sample_memory (IsFinancialPolicy (Some (4, 0))) = Some (v, F)"
  by (simp add: read_object_def as_kind_def reader_defs sample_memory_def zero_status_def)

theorem deep_copy_object_witness:
  "\<exists>v c h'. DeepCopyObject plain_machinery (IsFinancialPolicy (Some (4, 0))) sample_memory = (Some c, h') \<and>
     (\<forall>k. unchanged {length sample_memory..<length h'} h' k \<longrightarrow>
        (\<exists>G. read_object read_meta read_plain k c = Some (v, G)))"
  using sample_policy
    deep_copy_object [OF plain_machinery_copies, of "IsFinancialPolicy (Some (4, 0))" sample_memory] by blast

section \<open>The specification a version keeps\<close>

text \<open>
  The specification a struct in memory stands for in theory \<^verbatim>\<open>Policy_Types\<close>, where nil and empty
  are the same.
\<close>

definition listed :: "'a list option \<Rightarrow> 'a list" where
  "listed xs = (case xs of None \<Rightarrow> [] | Some xs \<Rightarrow> xs)"

definition channel_of :: "(string \<rightharpoonup> string) option ChannelStruct \<Rightarrow> AlertingChannelSpec" where
  "channel_of c =
     \<lparr>ch_Type = ac_Type c, ch_Config = (case ac_Config c of None \<Rightarrow> Map.empty | Some m \<Rightarrow> m)\<rparr>"

definition spec_of where
  "spec_of s =
     \<lparr>TargetNamespace = sp_TargetNamespace s,
      Budget = \<lparr>MonthlyLimit = bu_MonthlyLimit (sp_Budget s), AlertThresholds = listed (bu_AlertThresholds (sp_Budget s)),
        BreachAction = bu_BreachAction (sp_Budget s)\<rparr>,
      InstanceMix = map_option (\<lambda>m. \<lparr>MinOnDemandPercent = im_MinOnDemandPercent m,
        MaxSpotPercent = im_MaxSpotPercent m, AllowedInstanceTypes = listed (im_AllowedInstanceTypes m)\<rparr>) (sp_InstanceMix s),
      Mode = sp_Mode s,
      Alerting = map_option (\<lambda>a. \<lparr>Channels = map channel_of (listed (al_Channels a)),
        SilenceWindows = listed (al_SilenceWindows a)\<rparr>) (sp_Alerting s),
      Version = sp_Version s\<rparr>"

definition spec_at :: "('m, 'l, 'x) go_memory \<Rightarrow> mem_spec \<Rightarrow> f64 FinancialPolicySpec option" where
  "spec_at h x = map_option (\<lambda>(v, F). spec_of v) (read_FinancialPolicySpec h x)"

text \<open>C13: The copy of a specification that a version of the history is made of, \<^verbatim>\<open>Spec.DeepCopy()\<close>, is the
  value the model of the history stores: the new struct stands for the same specification, and keeps
  standing for it whatever is later done to the specification it was copied from, and the other way
  round.\<close>

theorem spec_copy_keeps_value:
  assumes "metav1_copies M rm rl" and s: "spec_at h x = Some s"
  shows "\<exists>c y h'. FinancialPolicySpec_DeepCopy M (Some x) h = (Some c, h') \<and>
    (\<forall>k. unchanged {length h..<length h'} h' k \<longrightarrow> pointee specs k (Some c) = Some y \<and> spec_at k y = Some s) \<and>
    (\<forall>k. unchanged {..<length h} h k \<longrightarrow> spec_at k x = Some s)"
proof -
  obtain v F where v: "read_FinancialPolicySpec h x = Some (v, F)" "s = spec_of v"
    using s by (auto simp: spec_at_def)
  note f = metav1_copies.deep_FinancialPolicySpec [OF assms(1)]
  obtain y e G where c: "FinancialPolicySpec_DeepCopy M (Some x) h = (Some (length h, 0), h @ to_object specs [y] # e)"
    and copy: "read_FinancialPolicySpec (h @ to_object specs [y] # e) y = Some (v, G)" "\<forall>a\<in>G. length h < a"
    unfolding FinancialPolicySpec_DeepCopy_def by (rule new_copyE [OF layouts_ok(12) f v(1)])
  have new: "\<forall>a\<in>G. length h \<le> a" using copy(2) by auto
  have p: "pointee specs k (Some (length h, 0)) = Some y"
    if "unchanged {length h..<length (h @ to_object specs [y] # e)} (h @ to_object specs [y] # e) k" for k
    using that by (simp add: unchanged_def pointee_def elems_def object_at_def specs_def nth_append)
  have "spec_at k y = Some s"
    if "unchanged {length h..<length (h @ to_object specs [y] # e)} (h @ to_object specs [y] # e) k" for k
    using memory_reader.separated(1) [OF deep_copy_reader [OF f] v(1) copy(1) new that] v(2) by (auto simp: spec_at_def)
  moreover have "spec_at k x = Some s" if "unchanged {..<length h} h k" for k
    using memory_reader.separated(2) [OF deep_copy_reader [OF f] v(1) copy(1) new that] v(2) by (simp add: spec_at_def)
  ultimately show ?thesis using c p by blast
qed

theorem spec_copy_keeps_value_witness:
  "\<exists>s c y h'. spec_at sample_memory sample_spec = Some s \<and>
     FinancialPolicySpec_DeepCopy plain_machinery (Some sample_spec) sample_memory = (Some c, h') \<and>
     pointee specs h' (Some c) = Some y \<and> spec_at h' y = Some s"
proof -
  obtain s where s: "spec_at sample_memory sample_spec = Some s"
    by (simp add: spec_at_def reader_defs sample_memory_def sample_spec_def)
  obtain c y h' where "FinancialPolicySpec_DeepCopy plain_machinery (Some sample_spec) sample_memory = (Some c, h')"
    and k: "\<And>k. unchanged {length sample_memory..<length h'} h' k \<Longrightarrow>
      pointee specs k (Some c) = Some y \<and> spec_at k y = Some s"
    using spec_copy_keeps_value [OF plain_machinery_copies s] by blast
  moreover have "unchanged {length sample_memory..<length h'} h' h'" by (simp add: unchanged_def)
  ultimately show ?thesis using s k by blast
qed

end
