(* ===== verification/Policy_Validate.thy ===== *)
theory Policy_Validate
  imports Policy_Types
begin

text \<open>
  \<^verbatim>\<open>pkg/policy/validate.go\<close>: \<^verbatim>\<open>ValidateFinancialPolicy\<close> collects one error per violated rule, in
  the order of the checks. The abstract specification \<open>valid_spec\<close> says which
  specifications are accepted.
\<close>

section \<open>The sets of allowed values\<close>

definition validBreachActions :: "string list" where
  "validBreachActions = [BreachActionAlert, BreachActionThrottle, BreachActionBlockDeployments]"

definition validModes :: "string list" where
  "validModes = [PolicyModeAutomatic, PolicyModeAdvisory]"

definition validChannelTypes :: "string list" where
  "validChannelTypes = [''slack'', ''email'', ''pagerduty'', ''sns'']"

section \<open>Sortedness as the standard library decides it\<close>

text \<open>
  \<^verbatim>\<open>sort.Float64sAreSorted\<close> looks for an element that is less than its predecessor, where
  NaN counts as less than every number. A value is NaN when it does not compare with itself.
\<close>

definition isNaN :: "'f::ord \<Rightarrow> bool" where
  "isNaN x \<longleftrightarrow> \<not> x \<le> x"

definition cmpLess :: "'f::ord \<Rightarrow> 'f \<Rightarrow> bool" where
  "cmpLess x y \<longleftrightarrow> (isNaN x \<and> \<not> isNaN y) \<or> x < y"

fun Float64sAreSorted :: "'f::ord list \<Rightarrow> bool" where
  "Float64sAreSorted (x # y # xs) = (\<not> cmpLess y x \<and> Float64sAreSorted (y # xs))"
| "Float64sAreSorted _ = True"

section \<open>The checks\<close>

definition indexed :: "string \<Rightarrow> nat \<Rightarrow> string \<Rightarrow> string" where
  "indexed before i after = before @ ''['' @ itoa (int i) @ '']'' @ after"

definition check_required :: "'f::{ord,zero} FinancialPolicySpec \<Rightarrow> 'f ValidationError list" where
  "check_required s =
     (if TargetNamespace s = [] then
        [\<lparr>ve_Field = ''spec.targetNamespace'', ve_Message = [Txt ''targetNamespace must be non-empty'']\<rparr>]
      else []) @
     (if MonthlyLimit (Budget s) \<le> 0 then
        [\<lparr>ve_Field = ''spec.budget.monthly_limit'',
          ve_Message = [Txt ''monthly_limit must be greater than 0'']\<rparr>]
      else [])"

definition check_enums :: "'f FinancialPolicySpec \<Rightarrow> 'f ValidationError list" where
  "check_enums s =
     (if BreachAction (Budget s) \<noteq> [] \<and> BreachAction (Budget s) \<notin> set validBreachActions then
        [\<lparr>ve_Field = ''spec.budget.breach_action'',
          ve_Message = [Txt ''breach_action must be one of: alert, throttle, block_deployments; got '',
                        Quo (BreachAction (Budget s))]\<rparr>]
      else []) @
     (if Mode s \<noteq> [] \<and> Mode s \<notin> set validModes then
        [\<lparr>ve_Field = ''spec.mode'',
          ve_Message = [Txt ''mode must be one of: automatic, advisory; got '', Quo (Mode s)]\<rparr>]
      else [])"

definition check_instance_mix ::
    "'f::{ord,zero,scaleR,one} FinancialPolicySpec \<Rightarrow> 'f ValidationError list" where
  "check_instance_mix s = (case InstanceMix s of None \<Rightarrow> [] | Some mix \<Rightarrow>
     (if MinOnDemandPercent mix < 0 \<or> lit 100 < MinOnDemandPercent mix then
        [\<lparr>ve_Field = ''spec.instanceMix.min_on_demand_percent'',
          ve_Message = [Txt ''min_on_demand_percent must be between 0 and 100; got '',
                        Val (MinOnDemandPercent mix)]\<rparr>]
      else []) @
     (if MaxSpotPercent mix < 0 \<or> lit 100 < MaxSpotPercent mix then
        [\<lparr>ve_Field = ''spec.instanceMix.max_spot_percent'',
          ve_Message = [Txt ''max_spot_percent must be between 0 and 100; got '',
                        Val (MaxSpotPercent mix)]\<rparr>]
      else []))"

definition check_thresholds ::
    "'f::{ord,zero,scaleR,one} FinancialPolicySpec \<Rightarrow> 'f ValidationError list" where
  "check_thresholds s = (let thresholds = AlertThresholds (Budget s) in
     collect (\<lambda>i t.
        if t < 0 \<or> lit 100 < t then
          [\<lparr>ve_Field = indexed ''spec.budget.alert_thresholds'' i '''',
            ve_Message = [Txt ''alert threshold must be between 0 and 100; got '', Val t]\<rparr>]
        else []) thresholds @
     (if 1 < length thresholds \<and> \<not> Float64sAreSorted thresholds then
        [\<lparr>ve_Field = ''spec.budget.alert_thresholds'',
          ve_Message = [Txt ''alert_thresholds must be sorted in ascending order'']\<rparr>]
      else []))"

definition check_alerting :: "'f FinancialPolicySpec \<Rightarrow> 'f ValidationError list" where
  "check_alerting s = (case Alerting s of None \<Rightarrow> [] | Some al \<Rightarrow>
     collect (\<lambda>i ch.
        if ch_Type ch \<notin> set validChannelTypes then
          [\<lparr>ve_Field = indexed ''spec.alerting.channels'' i ''.type'',
            ve_Message = [Txt ''channel type must be one of: slack, email, pagerduty, sns; got '',
                          Quo (ch_Type ch)]\<rparr>]
        else []) (Channels al) @
     collect (\<lambda>i sw.
        if \<not> sw_Start sw < sw_End sw then
          [\<lparr>ve_Field = indexed ''spec.alerting.silence_windows'' i '''',
            ve_Message = [Txt ''silence window start must be before end'']\<rparr>]
        else []) (SilenceWindows al))"

definition ValidateFinancialPolicy ::
    "'f::{ord,zero,scaleR,one} FinancialPolicy \<Rightarrow> 'f ValidationError list" where
  "ValidateFinancialPolicy policy = (let s = Spec policy in
     check_required s @ check_enums s @ check_instance_mix s @ check_thresholds s @
     check_alerting s)"

section \<open>The specification\<close>

definition percent :: "'f::{ord,zero,scaleR,one} \<Rightarrow> bool" where
  "percent x \<longleftrightarrow> \<not> x < 0 \<and> \<not> lit 100 < x"

definition valid_spec :: "'f::{ord,zero,scaleR,one} FinancialPolicySpec \<Rightarrow> bool" where
  "valid_spec s \<longleftrightarrow>
     TargetNamespace s \<noteq> [] \<and> \<not> MonthlyLimit (Budget s) \<le> 0 \<and>
     BreachAction (Budget s) \<in> {[]} \<union> set validBreachActions \<and>
     Mode s \<in> {[]} \<union> set validModes \<and>
     (\<forall>mix. InstanceMix s = Some mix \<longrightarrow>
        percent (MinOnDemandPercent mix) \<and> percent (MaxSpotPercent mix)) \<and>
     list_all percent (AlertThresholds (Budget s)) \<and>
     Float64sAreSorted (AlertThresholds (Budget s)) \<and>
     (\<forall>al. Alerting s = Some al \<longrightarrow>
        (\<forall>ch\<in>set (Channels al). ch_Type ch \<in> set validChannelTypes) \<and>
        (\<forall>sw\<in>set (SilenceWindows al). sw_Start sw < sw_End sw))"

lemma sorted_short: "\<not> 1 < length xs \<Longrightarrow> Float64sAreSorted xs"
  by (cases xs rule: Float64sAreSorted.cases) auto

lemma check_required_Nil:
  "check_required s = [] \<longleftrightarrow> TargetNamespace s \<noteq> [] \<and> \<not> MonthlyLimit (Budget s) \<le> 0"
  by (simp add: check_required_def)

lemma check_enums_Nil:
  "check_enums s = [] \<longleftrightarrow>
     BreachAction (Budget s) \<in> {[]} \<union> set validBreachActions \<and> Mode s \<in> {[]} \<union> set validModes"
  by (auto simp: check_enums_def)

lemma check_instance_mix_Nil:
  "check_instance_mix s = [] \<longleftrightarrow> (\<forall>mix. InstanceMix s = Some mix \<longrightarrow>
     percent (MinOnDemandPercent mix) \<and> percent (MaxSpotPercent mix))"
  by (simp add: check_instance_mix_def percent_def split: option.split)

lemma check_thresholds_Nil:
  "check_thresholds s = [] \<longleftrightarrow>
     list_all percent (AlertThresholds (Budget s)) \<and> Float64sAreSorted (AlertThresholds (Budget s))"
  using sorted_short [of "AlertThresholds (Budget s)"]
  by (auto simp: check_thresholds_def Let_def collect_if_Nil percent_def list_all_iff)

lemma check_alerting_Nil:
  "check_alerting s = [] \<longleftrightarrow> (\<forall>al. Alerting s = Some al \<longrightarrow>
     (\<forall>ch\<in>set (Channels al). ch_Type ch \<in> set validChannelTypes) \<and>
     (\<forall>sw\<in>set (SilenceWindows al). sw_Start sw < sw_End sw))"
  by (auto simp: check_alerting_def collect_if_Nil split: option.split)

lemmas checks_Nil = check_required_Nil check_enums_Nil check_instance_mix_Nil
  check_thresholds_Nil check_alerting_Nil

lemma validate_Nil_iff: "ValidateFinancialPolicy p = [] \<longleftrightarrow> valid_spec (Spec p)"
  unfolding ValidateFinancialPolicy_def valid_spec_def Let_def
  by (simp only: append_is_Nil_conv checks_Nil conj_assoc)

text \<open>Every field an error names is one of the fields a rule is about.\<close>

lemma validate_congruence: "Spec p = Spec q \<Longrightarrow> ValidateFinancialPolicy p = ValidateFinancialPolicy q"
  by (simp add: ValidateFinancialPolicy_def)

text \<open>
  For finite floats the thresholds of an accepted policy are a sorted list of percentages.
\<close>

lemma sorted_fin:
  assumes "list_all is_fin xs"
  shows "Float64sAreSorted xs \<longleftrightarrow> sorted_wrt (\<le>) xs"
  using assms
proof (induction xs rule: Float64sAreSorted.induct)
  case (1 x y xs)
  have *: "\<not> cmpLess y x \<longleftrightarrow> x \<le> y"
    using "1.prems" ieee.le_refl [of x] ieee.le_refl [of y] ieee.not_less [of y x] ieee.less_asym [of y x]
    by (auto simp: cmpLess_def isNaN_def)
  have "sorted_wrt (\<le>) (x # y # xs) \<longleftrightarrow> x \<le> y \<and> sorted_wrt (\<le>) (y # xs)"
    by (auto intro: ieee.le_trans)
  with * 1 show ?case by simp
qed auto

lemma percent_fin: "is_fin x \<Longrightarrow> percent x \<longleftrightarrow> 0 \<le> x \<and> x \<le> lit 100"
  using ieee.fin_lit [of 100] ieee.fin_zero
  by (auto simp: percent_def intro: ieee.not_less dest: ieee.less_asym)

section \<open>Properties\<close>

text \<open>The numbers of a specification.\<close>

definition spec_numbers :: "'f FinancialPolicySpec \<Rightarrow> 'f list" where
  "spec_numbers s = MonthlyLimit (Budget s) # AlertThresholds (Budget s) @
     (case InstanceMix s of None \<Rightarrow> [] | Some mix \<Rightarrow> [MinOnDemandPercent mix, MaxSpotPercent mix])"

text \<open>C14: a policy with finite numbers has no validation error exactly when it names a
  namespace, its monthly limit is positive, its enumerations hold allowed values or nothing,
  its percentages lie between 0 and 100, its thresholds ascend, its channels have known types
  and its silence windows end after they start.\<close>

theorem validation_decides_rules:
  assumes "list_all is_fin (spec_numbers (Spec p))"
  shows "ValidateFinancialPolicy p = [] \<longleftrightarrow> (let s = Spec p in
     TargetNamespace s \<noteq> [] \<and> 0 < MonthlyLimit (Budget s) \<and>
     BreachAction (Budget s) \<in> {'''', ''alert'', ''throttle'', ''block_deployments''} \<and>
     Mode s \<in> {'''', ''automatic'', ''advisory''} \<and>
     (\<forall>mix. InstanceMix s = Some mix \<longrightarrow>
        0 \<le> MinOnDemandPercent mix \<and> MinOnDemandPercent mix \<le> lit 100 \<and>
        0 \<le> MaxSpotPercent mix \<and> MaxSpotPercent mix \<le> lit 100) \<and>
     (\<forall>t\<in>set (AlertThresholds (Budget s)). 0 \<le> t \<and> t \<le> lit 100) \<and>
     sorted_wrt (\<le>) (AlertThresholds (Budget s)) \<and>
     (\<forall>al. Alerting s = Some al \<longrightarrow>
        (\<forall>ch\<in>set (Channels al). ch_Type ch \<in> {''slack'', ''email'', ''pagerduty'', ''sns''}) \<and>
        (\<forall>sw\<in>set (SilenceWindows al). sw_Start sw < sw_End sw)))"
proof -
  have fin: "is_fin (MonthlyLimit (Budget (Spec p)))" "list_all is_fin (AlertThresholds (Budget (Spec p)))"
    "InstanceMix (Spec p) = Some mix \<Longrightarrow> is_fin (MinOnDemandPercent mix) \<and> is_fin (MaxSpotPercent mix)" for mix
    using assms by (auto simp: spec_numbers_def)
  have "\<not> MonthlyLimit (Budget (Spec p)) \<le> 0 \<longleftrightarrow> 0 < MonthlyLimit (Budget (Spec p))"
    using fin(1) ieee.fin_zero ieee.not_less ieee.less_asym by metis
  then show ?thesis
    using fin sorted_fin [OF fin(2)] unfolding validate_Nil_iff
    by (auto simp: valid_spec_def Let_def policy_constants validBreachActions_def validModes_def
        validChannelTypes_def percent_fin list_all_iff)
qed

lemma validation_decides_rules_witness:
  "ValidateFinancialPolicy \<lparr>Name = ''p'', Namespace = ''n'', Annotations = None, ResourceVersion = [],
     Spec = \<lparr>TargetNamespace = ''n'',
       Budget = \<lparr>MonthlyLimit = mk 10, AlertThresholds = [mk 50, mk 80], BreachAction = ''alert''\<rparr>,
       InstanceMix = None, Mode = [], Alerting = None, Version = 0\<rparr>,
     Status = \<lparr>Phase = [], CurrentCost = 0, BudgetUsagePercent = 0, LastEvaluated = None,
       Conditions = []\<rparr>\<rparr> = []"
  by (subst validation_decides_rules)
    (simp_all add: spec_numbers_def Let_def lit_f64 mk_0 [symmetric])

text \<open>A threshold error carries the index of its threshold: there is an error for the field
  \<^verbatim>\<open>spec.budget.alert_thresholds[i]\<close> exactly when the \<open>i\<close>-th threshold is not a percentage,
  and an error for the whole field exactly when the thresholds are out of order.\<close>

lemma threshold_errors_located:
  "((\<exists>e\<in>set (ValidateFinancialPolicy p). ve_Field e = indexed ''spec.budget.alert_thresholds'' i '''') \<longleftrightarrow>
     i < length (AlertThresholds (Budget (Spec p))) \<and> \<not> percent (AlertThresholds (Budget (Spec p)) ! i)) \<and>
   ((\<exists>e\<in>set (ValidateFinancialPolicy p). ve_Field e = ''spec.budget.alert_thresholds'') \<longleftrightarrow>
     \<not> Float64sAreSorted (AlertThresholds (Budget (Spec p))))"
proof -
  let ?ts = "AlertThresholds (Budget (Spec p))" and ?f = "''spec.budget.alert_thresholds''"
  have "e \<in> set (ValidateFinancialPolicy p) \<Longrightarrow> take 28 (ve_Field e) = ?f \<Longrightarrow>
      e \<in> set (check_thresholds (Spec p))" for e
    by (auto simp: ValidateFinancialPolicy_def Let_def check_required_def check_enums_def
        check_instance_mix_def check_alerting_def set_collect indexed_def
        split: if_splits option.splits)
  moreover have "set (check_thresholds (Spec p)) \<subseteq> set (ValidateFinancialPolicy p)"
    by (auto simp: ValidateFinancialPolicy_def Let_def)
  ultimately have here: "(\<exists>e\<in>set (ValidateFinancialPolicy p). ve_Field e = g) \<longleftrightarrow>
      (\<exists>e\<in>set (check_thresholds (Spec p)). ve_Field e = g)" if "take 28 g = ?f" for g
    using that by blast
  have inj: "indexed f i '''' = indexed f j '''' \<longleftrightarrow> i = j" for f i j by (simp add: indexed_def itoa_inj)
  have ne: "indexed f i '''' \<noteq> f" for f i by (simp add: indexed_def)
  have "(\<exists>e\<in>set (check_thresholds (Spec p)). ve_Field e = indexed ?f i '''') \<longleftrightarrow>
      i < length ?ts \<and> \<not> percent (?ts ! i)"
    by (auto simp: check_thresholds_def Let_def set_collect percent_def inj ne [symmetric] Bex_def)
  moreover have "(\<exists>e\<in>set (check_thresholds (Spec p)). ve_Field e = ?f) \<longleftrightarrow> \<not> Float64sAreSorted ?ts"
    using sorted_short [of ?ts]
    by (simp add: check_thresholds_def Let_def bex_Un) (auto simp: set_collect ne)
  moreover have "take 28 (indexed ?f i '''') = ?f" "take 28 ?f = ?f" by (simp_all add: indexed_def)
  ultimately show ?thesis by (simp only: here)
qed

end
