(* ===== verification/Kube_Api.thy ===== *)
theory Kube_Api
  imports Policy_Types "HOL-Library.AList"
begin

text \<open>
  The Kubernetes API client (\<^verbatim>\<open>sigs.k8s.io/controller-runtime/pkg/client\<close>) is not part of the
  repository: it is the parameter \<open>Client\<close> of every definition that calls it. The locale
  \<open>kube_api\<close> states what its documentation promises and the code relies on:
  a create or a spec update does not store the status of a resource with a status
  subresource (\<^verbatim>\<open>+kubebuilder:subresource:status\<close> in \<^verbatim>\<open>financialpolicy_types.go\<close>), a status
  update stores nothing else, and a successful call overwrites the object it was given
  with the server's answer, in which empty fields are absent. \<open>mem_client\<close> is a server
  that keeps the objects in a list and satisfies the contract.
\<close>

section \<open>The client\<close>

datatype kube_error = KNotFound | KAlreadyExists | KConflict | KOther string

record ('s, 'f) Client =
  kGet :: "'s \<Rightarrow> string \<Rightarrow> string \<Rightarrow> kube_error + 'f FinancialPolicy"
  kList :: "'s \<Rightarrow> string option \<Rightarrow> kube_error + 'f FinancialPolicy list"
  kCreate :: "'s \<Rightarrow> 'f FinancialPolicy \<Rightarrow> kube_error option \<times> 's \<times> 'f FinancialPolicy"
  kUpdate :: "'s \<Rightarrow> 'f FinancialPolicy \<Rightarrow> kube_error option \<times> 's \<times> 'f FinancialPolicy"
  kStatusUpdate :: "'s \<Rightarrow> 'f FinancialPolicy \<Rightarrow> kube_error option \<times> 's \<times> 'f FinancialPolicy"

text \<open>The name and the namespace identify an object.\<close>

definition key :: "'f FinancialPolicy \<Rightarrow> string \<times> string" where
  "key p = (Name p, Namespace p)"

text \<open>What every call keeps of the object it is given.\<close>

definition same_body :: "'f FinancialPolicy \<Rightarrow> 'f FinancialPolicy \<Rightarrow> bool" where
  "same_body p q \<longleftrightarrow> key q = key p \<and> Spec q = Spec p \<and> Annotations q = Annotations p"

section \<open>The contract\<close>

locale kube_api =
  fixes c :: "('s, 'f::{ord,zero,one,minus,scaleR}) Client"
    and wf :: "'s \<Rightarrow> bool"
    and objs :: "'s \<Rightarrow> (string \<times> string \<rightharpoonup> 'f FinancialPolicy)"
  assumes key_objs: "wf s \<Longrightarrow> objs s k = Some p \<Longrightarrow> key p = k"
    and get_found: "wf s \<Longrightarrow> kGet c s n ns = Inr p \<Longrightarrow> objs s (n, ns) = Some p"
    and get_missing: "wf s \<Longrightarrow> kGet c s n ns = Inl KNotFound \<Longrightarrow> objs s (n, ns) = None"
    and list_all: "wf s \<Longrightarrow> kList c s None = Inr ps \<Longrightarrow> set ps = ran (objs s)"
    and list_in: "wf s \<Longrightarrow> kList c s (Some ns) = Inr ps \<Longrightarrow>
      set ps = {p \<in> ran (objs s). Namespace p = ns}"
    and create_ok: "wf s \<Longrightarrow> kCreate c s p = (None, s', p') \<Longrightarrow>
      wf s' \<and> objs s (key p) = None \<and>
      (\<exists>q. same_body p q \<and> objs s' = (objs s)(key p \<mapsto> q)) \<and> same_body p p'"
    and create_fails: "wf s \<Longrightarrow> kCreate c s p = (Some e, s', p') \<Longrightarrow> wf s' \<and> objs s' = objs s"
    and update_ok: "wf s \<Longrightarrow> kUpdate c s p = (None, s', p') \<Longrightarrow>
      wf s' \<and> (\<exists>old q. objs s (key p) = Some old \<and> same_body p q \<and> Status q = Status old \<and>
        objs s' = (objs s)(key p \<mapsto> q) \<and> same_body p p' \<and>
        (Phase (Status old) \<noteq> [] \<longrightarrow> Phase (Status p') = Phase (Status old)))"
    and update_fails: "wf s \<Longrightarrow> kUpdate c s p = (Some e, s', p') \<Longrightarrow> wf s' \<and> objs s' = objs s"
    and status_ok: "wf s \<Longrightarrow> kStatusUpdate c s p = (None, s', p') \<Longrightarrow>
      wf s' \<and> (\<exists>old q. objs s (key p) = Some old \<and> same_body old q \<and> Status q = Status p \<and>
        objs s' = (objs s)(key p \<mapsto> q))"
    and status_fails: "wf s \<Longrightarrow> kStatusUpdate c s p = (Some e, s', p') \<Longrightarrow>
      wf s' \<and> objs s' = objs s"
begin

lemma wf_create: "wf s \<Longrightarrow> kCreate c s p = (r, s', p') \<Longrightarrow> wf s'"
  using create_ok create_fails by (cases r) blast+

lemma wf_update: "wf s \<Longrightarrow> kUpdate c s p = (r, s', p') \<Longrightarrow> wf s'"
  using update_ok update_fails by (cases r) blast+

lemma wf_status: "wf s \<Longrightarrow> kStatusUpdate c s p = (r, s', p') \<Longrightarrow> wf s'"
  using status_ok status_fails by (cases r) blast+

lemma list_member: "wf s \<Longrightarrow> kList c s None = Inr ps \<Longrightarrow> p \<in> set ps \<Longrightarrow> objs s (key p) = Some p"
  using list_all [of s ps] key_objs [of s _ p] by (auto simp: ran_def)

text \<open>An update leaves every other object alone.\<close>

lemma update_frame:
  "wf s \<Longrightarrow> kUpdate c s p = (r, s', p') \<Longrightarrow> k \<noteq> key p \<Longrightarrow> objs s' k = objs s k"
  using update_ok [of s p s' p'] update_fails [of s p _ s' p'] by (cases r) auto

lemma status_frame:
  "wf s \<Longrightarrow> kStatusUpdate c s p = (r, s', p') \<Longrightarrow> k \<noteq> key p \<Longrightarrow> objs s' k = objs s k"
  using status_ok [of s p s' p'] status_fails [of s p _ s' p'] by (cases r) auto

end

section \<open>A server that accepts well-formed requests\<close>

text \<open>
  What the API server documents of requests it has no cause to refuse: a read answers what is stored, a
  create of an object that is not there, without a resource version, and an update that carries the
  stored version succeed if the object passes the admission. \<open>admits\<close> stands for the schema, the size
  limits and the admission controllers of the cluster, which look at the name, the specification and
  the annotations. The answer of an update carries the new version.
\<close>

locale accepting_api = kube_api c wf objs
  for c :: "('s, 'f::{ord,zero,one,minus,scaleR}) Client"
    and wf :: "'s \<Rightarrow> bool"
    and objs :: "'s \<Rightarrow> (string \<times> string \<rightharpoonup> 'f FinancialPolicy)" +
  fixes admits :: "'f FinancialPolicy \<Rightarrow> bool"
  assumes admits_body: "same_body p q \<Longrightarrow> admits q = admits p"
    and get_answers: "wf s \<Longrightarrow> kGet c s n ns = (case objs s (n, ns) of None \<Rightarrow> Inl KNotFound | Some p \<Rightarrow> Inr p)"
    and create_accepted: "wf s \<Longrightarrow> objs s (key p) = None \<Longrightarrow> ResourceVersion p = [] \<Longrightarrow> admits p \<Longrightarrow>
      fst (kCreate c s p) = None"
    and update_accepted: "wf s \<Longrightarrow> objs s (key p) = Some old \<Longrightarrow> ResourceVersion p = ResourceVersion old \<Longrightarrow>
      admits p \<Longrightarrow> fst (kUpdate c s p) = None"
    and status_accepted: "wf s \<Longrightarrow> objs s (key p) = Some old \<Longrightarrow> ResourceVersion p = ResourceVersion old \<Longrightarrow>
      admits p \<Longrightarrow> fst (kStatusUpdate c s p) = None"
    and update_version: "wf s \<Longrightarrow> kUpdate c s p = (None, s', p') \<Longrightarrow> objs s' (key p) = Some q \<Longrightarrow>
      ResourceVersion p' = ResourceVersion q"
begin

text \<open>An update that is accepted can be followed by a status update with its answer.\<close>

lemma update_then_status:
  assumes "wf s" "objs s (key p) = Some old" "ResourceVersion p = ResourceVersion old" "admits p"
  shows "\<exists>s1 p1. kUpdate c s p = (None, s1, p1) \<and> fst (kStatusUpdate c s1 p1) = None"
proof -
  obtain s1 p1 where upd: "kUpdate c s p = (None, s1, p1)"
    using update_accepted [OF assms] by (cases "kUpdate c s p") auto
  from update_ok [OF assms(1) upd] obtain q where q: "wf s1" "objs s1 = (objs s)(key p \<mapsto> q)" "same_body p p1" by blast
  have "key p1 = key p" using q(3) by (simp add: same_body_def)
  then have "objs s1 (key p1) = Some q" "ResourceVersion p1 = ResourceVersion q"
    using update_version [OF assms(1) upd, of q] q(2) by simp_all
  with status_accepted [OF q(1)] admits_body [OF q(3)] assms(4) have "fst (kStatusUpdate c s1 p1) = None" by blast
  with upd show ?thesis by blast
qed

end

section \<open>A server that keeps its objects in a list\<close>

record 'f mem_server =
  stored :: "'f FinancialPolicy list"
  revision :: int

definition mem_objs :: "'f mem_server \<Rightarrow> (string \<times> string \<rightharpoonup> 'f FinancialPolicy)" where
  "mem_objs s k = find (\<lambda>p. key p = k) (stored s)"

definition mem_wf :: "'f mem_server \<Rightarrow> bool" where
  "mem_wf s \<longleftrightarrow> distinct (map key (stored s))"

text \<open>The JSON of a status omits its empty fields, so decoding one over an object keeps those.\<close>

definition decode_status ::
    "'f::zero FinancialPolicyStatus \<Rightarrow> 'f FinancialPolicyStatus \<Rightarrow> 'f FinancialPolicyStatus" where
  "decode_status answer given =
     \<lparr>Phase = (if Phase answer = [] then Phase given else Phase answer),
      CurrentCost = (if CurrentCost answer = 0 then CurrentCost given else CurrentCost answer),
      BudgetUsagePercent = (if BudgetUsagePercent answer = 0 then BudgetUsagePercent given
                            else BudgetUsagePercent answer),
      LastEvaluated = (if LastEvaluated answer = None then LastEvaluated given
                       else LastEvaluated answer),
      Conditions = (if Conditions answer = [] then Conditions given else Conditions answer)\<rparr>"

definition empty_status :: "'f::zero FinancialPolicyStatus" where
  "empty_status = \<lparr>Phase = [], CurrentCost = 0, BudgetUsagePercent = 0, LastEvaluated = None,
                   Conditions = []\<rparr>"

definition put :: "'f FinancialPolicy \<Rightarrow> 'f mem_server \<Rightarrow> 'f mem_server" where
  "put q s = s\<lparr>stored := map (\<lambda>p. if key p = key q then q else p) (stored s),
              revision := revision s + 1\<rparr>"

definition mem_create ::
    "'f::zero mem_server \<Rightarrow> 'f FinancialPolicy \<Rightarrow> kube_error option \<times> 'f mem_server \<times> 'f FinancialPolicy"
  where
  "mem_create s p = (case mem_objs s (key p) of
     Some _ \<Rightarrow> (Some KAlreadyExists, s, p)
   | None \<Rightarrow> let q = p\<lparr>Status := empty_status, ResourceVersion := itoa (revision s)\<rparr>
             in (None, s\<lparr>stored := stored s @ [q], revision := revision s + 1\<rparr>,
                 q\<lparr>Status := Status p\<rparr>))"

definition mem_update ::
    "'f::zero mem_server \<Rightarrow> 'f FinancialPolicy \<Rightarrow> kube_error option \<times> 'f mem_server \<times> 'f FinancialPolicy"
  where
  "mem_update s p = (case mem_objs s (key p) of
     None \<Rightarrow> (Some KNotFound, s, p)
   | Some old \<Rightarrow>
       if ResourceVersion p \<noteq> [] \<and> ResourceVersion p \<noteq> ResourceVersion old then (Some KConflict, s, p)
       else let q = p\<lparr>Status := Status old, ResourceVersion := itoa (revision s)\<rparr>
            in (None, put q s, q\<lparr>Status := decode_status (Status old) (Status p)\<rparr>))"

definition mem_status_update ::
    "'f mem_server \<Rightarrow> 'f FinancialPolicy \<Rightarrow> kube_error option \<times> 'f mem_server \<times> 'f FinancialPolicy"
  where
  "mem_status_update s p = (case mem_objs s (key p) of
     None \<Rightarrow> (Some KNotFound, s, p)
   | Some old \<Rightarrow>
       if ResourceVersion p \<noteq> [] \<and> ResourceVersion p \<noteq> ResourceVersion old then (Some KConflict, s, p)
       else let q = old\<lparr>Status := Status p, ResourceVersion := itoa (revision s)\<rparr>
            in (None, put q s, q))"

definition mem_client :: "('f::zero mem_server, 'f) Client" where
  "mem_client =
     \<lparr>kGet = (\<lambda>s n ns. case mem_objs s (n, ns) of None \<Rightarrow> Inl KNotFound | Some p \<Rightarrow> Inr p),
      kList = (\<lambda>s ns. Inr (case ns of None \<Rightarrow> stored s
                           | Some x \<Rightarrow> filter (\<lambda>p. Namespace p = x) (stored s))),
      kCreate = mem_create, kUpdate = mem_update, kStatusUpdate = mem_status_update\<rparr>"

lemma mem_client_simps [simp]:
  "kGet mem_client = (\<lambda>s n ns. case mem_objs s (n, ns) of None \<Rightarrow> Inl KNotFound | Some p \<Rightarrow> Inr p)"
  "kList mem_client = (\<lambda>s ns. Inr (case ns of None \<Rightarrow> stored s
                           | Some x \<Rightarrow> filter (\<lambda>p. Namespace p = x) (stored s)))"
  "kCreate mem_client = mem_create" "kUpdate mem_client = mem_update"
  "kStatusUpdate mem_client = mem_status_update"
  by (simp_all add: mem_client_def)

lemma mem_objs_key: "mem_objs s k = Some p \<Longrightarrow> key p = k"
  by (auto simp: mem_objs_def find_Some_iff)

lemma mem_objs_None: "mem_objs s k = None \<longleftrightarrow> k \<notin> key ` set (stored s)"
  by (auto simp: mem_objs_def find_None_iff)

lemma mem_objs_unique: "mem_wf s \<Longrightarrow> p \<in> set (stored s) \<Longrightarrow> mem_objs s (key p) = Some p"
proof -
  have "distinct (map key xs) \<Longrightarrow> p \<in> set xs \<Longrightarrow> find (\<lambda>q. key q = key p) xs = Some p" for xs
    by (induction xs) (auto simp: image_iff)
  then show "mem_wf s \<Longrightarrow> p \<in> set (stored s) \<Longrightarrow> ?thesis" by (simp add: mem_objs_def mem_wf_def)
qed

lemma mem_objs_in: "mem_objs s k = Some p \<Longrightarrow> p \<in> set (stored s)"
  by (auto simp: mem_objs_def find_Some_iff)

lemma ran_mem_objs: "mem_wf s \<Longrightarrow> ran (mem_objs s) = set (stored s)"
  using mem_objs_unique [of s] mem_objs_in [of s] unfolding ran_def by blast

lemma map_key_put: "map key (map (\<lambda>p. if key p = key q then q else p) xs) = map key xs"
  by (induction xs) auto

lemma mem_wf_put [simp]: "mem_wf (put q s) = mem_wf s"
  by (simp add: mem_wf_def put_def map_key_put del: map_map)

lemma find_put_other: "k \<noteq> key q \<Longrightarrow>
  find (\<lambda>p. key p = k) (map (\<lambda>p. if key p = key q then q else p) xs) = find (\<lambda>p. key p = k) xs"
  by (induction xs) auto

lemma find_put_same: "find (\<lambda>p. key p = key q) xs = Some old \<Longrightarrow>
  find (\<lambda>p. key p = key q) (map (\<lambda>p. if key p = key q then q else p) xs) = Some q"
  by (induction xs) (auto split: if_splits)

lemma mem_objs_put:
  "mem_objs s (key q) = Some old \<Longrightarrow> mem_objs (put q s) = (mem_objs s)(key q \<mapsto> q)"
  by (rule ext) (auto simp: mem_objs_def put_def find_put_other find_put_same)

lemma mem_objs_append:
  "mem_objs s (key q) = None \<Longrightarrow>
   mem_objs (s\<lparr>stored := stored s @ [q], revision := r\<rparr>) = (mem_objs s)(key q \<mapsto> q)"
proof
  fix k
  have "find (\<lambda>p. key p = key q) xs = None \<Longrightarrow>
      find (\<lambda>p. key p = k) (xs @ [q]) = (if k = key q then Some q else find (\<lambda>p. key p = k) xs)" for xs
    by (induction xs) (auto split: if_splits)
  then show "mem_objs s (key q) = None \<Longrightarrow>
    mem_objs (s\<lparr>stored := stored s @ [q], revision := r\<rparr>) k = ((mem_objs s)(key q \<mapsto> q)) k"
    by (simp add: mem_objs_def)
qed

lemma key_updates [simp]:
  "key (p\<lparr>Status := st\<rparr>) = key p" "key (p\<lparr>ResourceVersion := rv\<rparr>) = key p"
  "key (p\<lparr>Annotations := a\<rparr>) = key p" "key (p\<lparr>Spec := sp\<rparr>) = key p"
  by (simp_all add: key_def)

lemma mem_create_ok:
  assumes "mem_wf s" "mem_create s p = (None, s', p')"
  shows "mem_wf s' \<and> mem_objs s (key p) = None \<and>
    (\<exists>q. same_body p q \<and> mem_objs s' = (mem_objs s)(key p \<mapsto> q)) \<and> same_body p p'"
proof -
  let ?q = "p\<lparr>Status := empty_status, ResourceVersion := itoa (revision s)\<rparr>"
  from assms(2) have none: "mem_objs s (key p) = None"
    and s': "s' = s\<lparr>stored := stored s @ [?q], revision := revision s + 1\<rparr>"
    and p': "p' = ?q\<lparr>Status := Status p\<rparr>"
    by (auto simp: mem_create_def Let_def split: option.splits)
  have "mem_objs s' = (mem_objs s)(key p \<mapsto> ?q)" unfolding s' using mem_objs_append [of s ?q] none by simp
  moreover have "same_body p ?q" by (simp add: same_body_def)
  moreover have "mem_wf s'" using assms(1) none by (auto simp: s' mem_wf_def mem_objs_None)
  moreover have "same_body p p'" by (simp add: same_body_def p')
  ultimately show ?thesis using none by blast
qed

lemma mem_update_ok:
  assumes "mem_wf s" "mem_update s p = (None, s', p')"
  shows "mem_wf s' \<and> (\<exists>old q. mem_objs s (key p) = Some old \<and> same_body p q \<and>
    Status q = Status old \<and> mem_objs s' = (mem_objs s)(key p \<mapsto> q) \<and> same_body p p' \<and>
    (Phase (Status old) \<noteq> [] \<longrightarrow> Phase (Status p') = Phase (Status old)))"
proof -
  from assms(2) obtain old where old: "mem_objs s (key p) = Some old"
    and s': "s' = put (p\<lparr>Status := Status old, ResourceVersion := itoa (revision s)\<rparr>) s"
    and p': "p' = p\<lparr>Status := decode_status (Status old) (Status p),
                     ResourceVersion := itoa (revision s)\<rparr>"
    by (auto simp: mem_update_def Let_def split: option.splits if_splits)
  let ?q = "p\<lparr>Status := Status old, ResourceVersion := itoa (revision s)\<rparr>"
  have "mem_objs s' = (mem_objs s)(key p \<mapsto> ?q)" unfolding s' using mem_objs_put [of s ?q] old by simp
  moreover have "same_body p ?q" "same_body p p'" by (simp_all add: same_body_def p')
  moreover have "mem_wf s'" using assms(1) by (simp add: s')
  moreover have "Phase (Status old) \<noteq> [] \<longrightarrow> Phase (Status p') = Phase (Status old)"
    by (simp add: p' decode_status_def)
  moreover have "Status ?q = Status old" by simp
  ultimately show ?thesis using old by blast
qed

lemma mem_status_ok:
  assumes "mem_wf s" "mem_status_update s p = (None, s', p')"
  shows "mem_wf s' \<and> (\<exists>old q. mem_objs s (key p) = Some old \<and> same_body old q \<and>
    Status q = Status p \<and> mem_objs s' = (mem_objs s)(key p \<mapsto> q))"
proof -
  from assms(2) obtain old where old: "mem_objs s (key p) = Some old"
    and s': "s' = put (old\<lparr>Status := Status p, ResourceVersion := itoa (revision s)\<rparr>) s"
    by (auto simp: mem_status_update_def Let_def split: option.splits if_splits)
  let ?q = "old\<lparr>Status := Status p, ResourceVersion := itoa (revision s)\<rparr>"
  have key: "key ?q = key p" using mem_objs_key [OF old] by simp
  have "mem_objs s' = (mem_objs s)(key p \<mapsto> ?q)"
    unfolding s' using mem_objs_put [of s ?q old] old by (simp only: key)
  moreover have "same_body old ?q" by (simp add: same_body_def)
  moreover have "mem_wf s'" using assms(1) by (simp add: s')
  moreover have "Status ?q = Status p" by simp
  ultimately show ?thesis using old by blast
qed

lemma mem_fails:
  "mem_create s p = (Some e, s', p') \<Longrightarrow> mem_wf s \<Longrightarrow> mem_wf s' \<and> mem_objs s' = mem_objs s"
  "mem_update s p = (Some e, s', p') \<Longrightarrow> mem_wf s \<Longrightarrow> mem_wf s' \<and> mem_objs s' = mem_objs s"
  "mem_status_update s p = (Some e, s', p') \<Longrightarrow> mem_wf s \<Longrightarrow> mem_wf s' \<and> mem_objs s' = mem_objs s"
  by (auto simp: mem_create_def mem_update_def mem_status_update_def Let_def
        split: option.splits if_splits)

interpretation mem: kube_api mem_client mem_wf mem_objs
proof (unfold_locales, unfold mem_client_simps)
  fix s :: "'f::{ord,zero,one,minus,scaleR} mem_server" and p ps n ns
  show "(case mem_objs s (n, ns) of None \<Rightarrow> Inl KNotFound | Some p \<Rightarrow> Inr p) = Inr p \<Longrightarrow>
      mem_objs s (n, ns) = Some p"
    and "(case mem_objs s (n, ns) of None \<Rightarrow> Inl KNotFound | Some p \<Rightarrow> Inr p) = Inl KNotFound \<Longrightarrow>
      mem_objs s (n, ns) = None"
    by (simp_all split: option.splits)
  show "mem_wf s \<Longrightarrow> Inr (case None of None \<Rightarrow> stored s
      | Some x \<Rightarrow> filter (\<lambda>p. Namespace p = x) (stored s)) = Inr ps \<Longrightarrow> set ps = ran (mem_objs s)"
    and "mem_wf s \<Longrightarrow> Inr (case Some ns of None \<Rightarrow> stored s
      | Some x \<Rightarrow> filter (\<lambda>p. Namespace p = x) (stored s)) = Inr ps \<Longrightarrow>
      set ps = {p \<in> ran (mem_objs s). Namespace p = ns}"
    by (auto simp: ran_mem_objs)
qed (erule mem_objs_key mem_create_ok mem_update_ok mem_status_ok mem_fails; assumption)+

text \<open>It has no cause to refuse a well-formed request.\<close>

lemma mem_update_version:
  assumes "mem_update s p = (None, s', p')" "mem_objs s' (key p) = Some q"
  shows "ResourceVersion p' = ResourceVersion q"
proof -
  from assms(1) obtain old where old: "mem_objs s (key p) = Some old"
    and s': "s' = put (p\<lparr>Status := Status old, ResourceVersion := itoa (revision s)\<rparr>) s"
    and p': "ResourceVersion p' = itoa (revision s)"
    by (auto simp: mem_update_def Let_def split: option.splits if_splits)
  let ?q = "p\<lparr>Status := Status old, ResourceVersion := itoa (revision s)\<rparr>"
  have "mem_objs s' = (mem_objs s)(key p \<mapsto> ?q)" unfolding s' using mem_objs_put [of s ?q] old by simp
  with assms(2) p' show ?thesis by auto
qed

interpretation mem_accepts: accepting_api mem_client mem_wf mem_objs "\<lambda>_. True"
proof (unfold_locales, unfold mem_client_simps)
  fix s s' :: "'f::{ord,zero,one,minus,scaleR} mem_server" and p p' q
  show "mem_update s p = (None, s', p') \<Longrightarrow> mem_objs s' (key p) = Some q \<Longrightarrow> ResourceVersion p' = ResourceVersion q"
    by (rule mem_update_version)
qed (auto simp: mem_create_def mem_update_def mem_status_update_def Let_def)

end
