(* ===== verification/Policy_Controller.thy ===== *)
theory Policy_Controller
  imports Policy_Validate Kube_Api
begin

text \<open>
  \<^verbatim>\<open>pkg/policy/controller.go\<close>: the reconciler of \<^verbatim>\<open>FinancialPolicy\<close> resources. It validates the
  resource a request names and records the outcome in its status. Every result the
  controller returns is the empty \<^verbatim>\<open>ctrl.Result\<close>, so a call is its error and the new state.
\<close>

section \<open>Conditions\<close>

text \<open>The first condition of the type is overwritten; without one, one is appended.\<close>

fun set_cond ::
    "'f PolicyCondition list \<Rightarrow> string \<Rightarrow> string \<Rightarrow> string \<Rightarrow> 'f gotext \<Rightarrow> time \<Rightarrow> 'f PolicyCondition list"
  where
  "set_cond [] condType status reason message now =
     [\<lparr>c_Type = condType, c_Status = status, c_LastTransitionTime = now, c_Reason = reason,
       c_Message = message\<rparr>]"
| "set_cond (c # cs) condType status reason message now =
     (if c_Type c = condType
      then c\<lparr>c_Status := status, c_Reason := reason, c_Message := message,
             c_LastTransitionTime := now\<rparr> # cs
      else c # set_cond cs condType status reason message now)"

definition setCondition ::
    "'f FinancialPolicy \<Rightarrow> string \<Rightarrow> string \<Rightarrow> string \<Rightarrow> 'f gotext \<Rightarrow> time \<Rightarrow> 'f FinancialPolicy" where
  "setCondition policy condType status reason message now =
     policy\<lparr>Status := (Status policy)\<lparr>Conditions :=
       set_cond (Conditions (Status policy)) condType status reason message now\<rparr>\<rparr>"

section \<open>Reconciling\<close>

text \<open>The object the reconciler writes back for the one it read.\<close>

definition evaluated :: "time \<Rightarrow> 'f::{ord,zero,scaleR,one} FinancialPolicy \<Rightarrow> 'f FinancialPolicy" where
  "evaluated now policy =
     (let validationErrs = ValidateFinancialPolicy policy in
      if 0 < length validationErrs then
        setCondition (policy\<lparr>Status := (Status policy)\<lparr>Phase := PolicyPhaseError\<rparr>\<rparr>)
          ''Valid'' ''False'' ''ValidationFailed'' (error_texts validationErrs) now
      else
        setCondition (policy\<lparr>Status := (Status policy)\<lparr>Phase := PolicyPhaseActive\<rparr>\<rparr>)
          ''Valid'' ''True'' ''ValidationPassed'' [Txt ''Policy is valid''] now)"

definition Reconcile ::
    "('s, 'f::{ord,zero,scaleR,one}) Client \<Rightarrow> time \<Rightarrow> 's \<Rightarrow> string \<times> string \<Rightarrow> kube_error option \<times> 's"
  where
  "Reconcile c now s req =
     (case kGet c s (fst req) (snd req) of
        Inl err \<Rightarrow> (if err = KNotFound then (None, s) else (Some err, s))
      | Inr policy \<Rightarrow>
          (case kStatusUpdate c s (evaluated now policy) of
             (Some err, s', _) \<Rightarrow> (Some err, s')
           | (None, s', _) \<Rightarrow> (None, s')))"

section \<open>What a status says\<close>

text \<open>The condition of a type, the one a reader of the status finds first.\<close>

definition condition_of :: "string \<Rightarrow> 'f FinancialPolicyStatus \<Rightarrow> 'f PolicyCondition option" where
  "condition_of t st = find (\<lambda>c. c_Type c = t) (Conditions st)"

text \<open>A status tells the outcome of validating a specification.\<close>

definition status_tells ::
    "'f::{ord,zero,scaleR,one} FinancialPolicySpec \<Rightarrow> 'f FinancialPolicyStatus \<Rightarrow> bool" where
  "status_tells spec st \<longleftrightarrow>
     Phase st = (if valid_spec spec then PolicyPhaseActive else PolicyPhaseError) \<and>
     (\<exists>c. condition_of ''Valid'' st = Some c \<and>
        c_Status c = (if valid_spec spec then ''True'' else ''False''))"

lemma set_cond_find:
  "find (\<lambda>c. c_Type c = t) (set_cond cs t st r m now) =
     Some \<lparr>c_Type = t, c_Status = st, c_LastTransitionTime = now, c_Reason = r, c_Message = m\<rparr>"
  by (induction cs) auto

lemma set_cond_other:
  "t' \<noteq> t \<Longrightarrow> filter (\<lambda>c. c_Type c = t') (set_cond cs t st r m now) = filter (\<lambda>c. c_Type c = t') cs"
  by (induction cs) auto

lemma set_cond_types:
  "map c_Type (set_cond cs t st r m now) =
     (if t \<in> c_Type ` set cs then map c_Type cs else map c_Type cs @ [t])"
  by (induction cs) auto

lemma set_cond_idem: "set_cond (set_cond cs t st r m now) t st r m now = set_cond cs t st r m now"
  by (induction cs) auto

lemma evaluated_frame [simp]:
  "Spec (evaluated now p) = Spec p" "key (evaluated now p) = key p"
  "Annotations (evaluated now p) = Annotations p"
  by (simp_all add: evaluated_def setCondition_def key_def Let_def)

lemma evaluated_tells: "status_tells (Spec p) (Status (evaluated now p))"
  using validate_Nil_iff [of p]
  by (simp add: status_tells_def condition_of_def evaluated_def setCondition_def set_cond_find Let_def)

lemma evaluated_other_conditions:
  "t \<noteq> ''Valid'' \<Longrightarrow> filter (\<lambda>c. c_Type c = t) (Conditions (Status (evaluated now p))) =
     filter (\<lambda>c. c_Type c = t) (Conditions (Status p))"
  by (simp add: evaluated_def setCondition_def set_cond_other Let_def)

lemma evaluated_types:
  "distinct (map c_Type (Conditions (Status p))) \<Longrightarrow>
   distinct (map c_Type (Conditions (Status (evaluated now p))))"
  by (auto simp: evaluated_def setCondition_def set_cond_types Let_def)

lemma evaluated_idem: "evaluated now (evaluated now p) = evaluated now p"
proof -
  have "ValidateFinancialPolicy (evaluated now p) = ValidateFinancialPolicy p"
    by (rule validate_congruence) simp
  then show ?thesis
    by (cases "ValidateFinancialPolicy p = []")
      (simp_all add: evaluated_def [of now] setCondition_def set_cond_idem Let_def)
qed

context kube_api
begin

text \<open>
  A request for a missing resource changes nothing and is not retried; a request that
  succeeds on a resource leaves its specification and makes its status tell the truth.
\<close>

lemma reconcile_step:
  assumes "wf s" and run: "Reconcile c now s k = (r, s')"
  shows "wf s' \<and> (\<forall>j. j \<noteq> k \<longrightarrow> objs s' j = objs s j) \<and>
    (r \<noteq> None \<longrightarrow> objs s' = objs s) \<and>
    (r = None \<longrightarrow> (case objs s k of
       None \<Rightarrow> objs s' = objs s
     | Some p \<Rightarrow> \<exists>q. objs s' k = Some q \<and> same_body p q \<and> Status q = Status (evaluated now p)))"
proof (cases "kGet c s (fst k) (snd k)")
  case (Inl err)
  with run assms get_missing [OF assms(1), of "fst k" "snd k"] show ?thesis
    by (auto simp: Reconcile_def split: if_splits)
next
  case (Inr p)
  from get_found [OF assms(1) this] have p: "objs s k = Some p" by simp
  with key_objs [OF assms(1)] have k: "key p = k" by simp
  obtain r1 s1 p1 where st: "kStatusUpdate c s (evaluated now p) = (r1, s1, p1)" by (metis prod_cases3)
  with run Inr have r: "r = r1" "s' = s1" by (auto simp: Reconcile_def split: option.splits)
  show ?thesis
  proof (cases r1)
    case None
    from status_ok [OF assms(1) st [unfolded None]] k p r None show ?thesis by auto
  next
    case (Some e)
    from status_fails [OF assms(1) st [unfolded Some]] r Some show ?thesis by auto
  qed
qed

end

section \<open>Properties\<close>

text \<open>C31: a reconciliation touches no other resource and never the specification; when it fails
  nothing has changed; when it succeeds on a resource, its status says \<^verbatim>\<open>Active\<close> with a true
  \<^verbatim>\<open>Valid\<close> condition if the specification is valid and \<^verbatim>\<open>Error\<close> with a false one otherwise,
  and its conditions of other types are untouched.\<close>

theorem reconcile_tells_validity:
  fixes wf :: "'s \<Rightarrow> bool"
  assumes "kube_api c wf objs" "wf s" "Reconcile c now s k = (r, s')"
  shows "wf s' \<and> (\<forall>j. j \<noteq> k \<longrightarrow> objs s' j = objs s j) \<and> (r \<noteq> None \<longrightarrow> objs s' = objs s) \<and>
    (r = None \<longrightarrow> (case objs s k of
       None \<Rightarrow> objs s' = objs s
     | Some p \<Rightarrow> \<exists>q. objs s' k = Some q \<and> same_body p q \<and> status_tells (Spec q) (Status q) \<and>
         (\<forall>t. t \<noteq> ''Valid'' \<longrightarrow> filter (\<lambda>c. c_Type c = t) (Conditions (Status q)) =
                               filter (\<lambda>c. c_Type c = t) (Conditions (Status p)))))"
  using kube_api.reconcile_step [OF assms] evaluated_tells [of _ now]
    evaluated_other_conditions [of _ now]
  by (fastforce split: option.splits simp: same_body_def)

text \<open>What a reconciliation writes is a fixed point: a condition list without repeated types
  stays so, and evaluating the written object at the same instant changes nothing.\<close>

lemma evaluation_stable:
  "evaluated now (evaluated now p) = evaluated now p \<and>
   (distinct (map c_Type (Conditions (Status p))) \<longrightarrow>
    distinct (map c_Type (Conditions (Status (evaluated now p)))))"
  using evaluated_idem evaluated_types by blast

definition demo_bad :: "f64 FinancialPolicy" where
  "demo_bad = \<lparr>Name = ''p'', Namespace = ''n'', Annotations = None, ResourceVersion = [],
     Spec = \<lparr>TargetNamespace = [],
       Budget = \<lparr>MonthlyLimit = mk 10, AlertThresholds = [], BreachAction = []\<rparr>,
       InstanceMix = None, Mode = [], Alerting = None, Version = 0\<rparr>,
     Status = \<lparr>Phase = PolicyPhaseActive, CurrentCost = 0, BudgetUsagePercent = 0, LastEvaluated = None,
       Conditions = [\<lparr>c_Type = ''Ready'', c_Status = ''True'', c_LastTransitionTime = 1, c_Reason = [],
         c_Message = []\<rparr>]\<rparr>\<rparr>"

lemma reconcile_tells_validity_witness:
  "\<exists>s' q. Reconcile mem_client 9 \<lparr>stored = [demo_bad], revision = 1\<rparr> (''p'', ''n'') = (None, s') \<and>
     mem_objs s' (''p'', ''n'') = Some q \<and> Phase (Status q) = PolicyPhaseError"
proof -
  let ?s = "\<lparr>stored = [demo_bad], revision = 1\<rparr>"
  have key: "key demo_bad = (''p'', ''n'')" by (simp add: key_def demo_bad_def)
  have wf: "mem_wf ?s" by (simp add: mem_wf_def)
  have stored: "mem_objs ?s (''p'', ''n'') = Some demo_bad" by (simp add: mem_objs_def key)
  have rv: "ResourceVersion (evaluated 9 demo_bad) = []"
    by (simp add: evaluated_def setCondition_def Let_def demo_bad_def)
  have "fst (Reconcile mem_client 9 ?s (''p'', ''n'')) = None"
    by (simp add: Reconcile_def stored mem_status_update_def key rv Let_def)
  then obtain s' where run: "Reconcile mem_client 9 ?s (''p'', ''n'') = (None, s')"
    by (cases "Reconcile mem_client 9 ?s (''p'', ''n'')") auto
  from reconcile_tells_validity [OF mem.kube_api_axioms, OF wf run]
  obtain q where q: "mem_objs s' (''p'', ''n'') = Some q" "same_body demo_bad q"
    "status_tells (Spec q) (Status q)" by (auto simp: stored)
  then have "\<not> valid_spec (Spec q)" by (auto simp: same_body_def valid_spec_def demo_bad_def)
  with q have "Phase (Status q) = PolicyPhaseError" by (simp add: status_tells_def)
  with run q show ?thesis by blast
qed

lemma evaluation_stable_witness:
  "distinct (map c_Type (Conditions (Status (evaluated 9 demo_bad))))"
proof -
  have "distinct (map c_Type (Conditions (Status demo_bad)))" by (simp add: demo_bad_def)
  with evaluation_stable [of 9 demo_bad] show ?thesis by blast
qed

end
