(* ===== verification/Policy_Manager.thy ===== *)
theory Policy_Manager
  imports Policy_Validate Kube_Api
begin

text \<open>
  \<^verbatim>\<open>pkg/policy/manager.go\<close>: \<^verbatim>\<open>DefaultPolicyManager\<close> applies, lists and rolls back policies and
  keeps the last ten replaced specifications of a policy in an annotation. Every method
  takes the client and the state of the cluster, and a method that writes returns the new
  state and the object the caller passed, as the call leaves it. \<open>now\<close> is what
  \<^verbatim>\<open>time.Now\<close> returns. The logger's calls are left out everywhere in the development.
\<close>

section \<open>Errors\<close>

datatype 'f policy_error =
    EInvalid "'f gotext"                  \<comment> \<open>policy validation failed\<close>
  | EGetExisting kube_error
  | ECreate kube_error
  | EUpdate kube_error
  | EList kube_error                      \<comment> \<open>failed to list policies\<close>
  | EListNamespace string kube_error
  | EFind "'f policy_error"               \<comment> \<open>wraps the error of ListPolicies\<close>
  | EPolicyNotFound string
  | EUnmarshalHistory                     \<comment> \<open>failed to unmarshal version history\<close>
  | EMarshalHistory                       \<comment> \<open>failed to marshal version history\<close>
  | EInitHistory "'f policy_error"
  | EAppendHistory "'f policy_error"
  | EAppendCurrent "'f policy_error"
  | EVersionNotFound int string
  | ERollbackUpdate kube_error
  | ERollbackStatus kube_error

section \<open>The version history\<close>

definition VersionHistoryAnnotation :: string where
  "VersionHistoryAnnotation = ''finops.eks.io/version-history''"

definition maxVersionHistory :: nat where
  "maxVersionHistory = 10"

text \<open>
  \<^verbatim>\<open>json.Marshal\<close> of a history fails when a number of it is not finite, and then only:
  \<open>x - x = 0\<close> is false exactly for the infinities and NaN.
\<close>

definition json_number :: "'f::{zero,minus} \<Rightarrow> bool" where
  "json_number x \<longleftrightarrow> x - x = 0"

definition json_spec :: "'f::{zero,minus} FinancialPolicySpec \<Rightarrow> bool" where
  "json_spec s \<longleftrightarrow> json_number (MonthlyLimit (Budget s)) \<and>
     list_all json_number (AlertThresholds (Budget s)) \<and>
     (case InstanceMix s of None \<Rightarrow> True
      | Some mix \<Rightarrow> json_number (MinOnDemandPercent mix) \<and> json_number (MaxSpotPercent mix))"

definition json_Marshal ::
    "'f::{zero,minus} PolicyVersion list \<Rightarrow> 'f policy_error + 'f annotation" where
  "json_Marshal h = (if list_all (json_spec \<circ> pv_Spec) h then Inr (AJson h) else Inl EMarshalHistory)"

definition json_Unmarshal :: "'f annotation \<Rightarrow> 'f policy_error + 'f PolicyVersion list" where
  "json_Unmarshal raw = (case raw of AJson h \<Rightarrow> Inr h | AText _ \<Rightarrow> Inl EUnmarshalHistory)"

definition parseVersionHistory ::
    "'f FinancialPolicy \<Rightarrow> 'f policy_error + 'f PolicyVersion list" where
  "parseVersionHistory policy =
     (case Annotations policy of
        None \<Rightarrow> Inr []
      | Some ann \<Rightarrow>
          (case ann VersionHistoryAnnotation of
             None \<Rightarrow> Inr []
           | Some raw \<Rightarrow> if raw = AText [] then Inr [] else json_Unmarshal raw))"

text \<open>An index write to a nil map would panic, so both writers make the map first.\<close>

definition annotations_of :: "'f FinancialPolicy \<Rightarrow> (string \<rightharpoonup> 'f annotation)" where
  "annotations_of policy = (case Annotations policy of None \<Rightarrow> Map.empty | Some ann \<Rightarrow> ann)"

definition initVersionHistory ::
    "'f::{zero,minus} FinancialPolicy \<Rightarrow> 'f policy_error + 'f FinancialPolicy" where
  "initVersionHistory policy =
     (let ann = annotations_of policy; history = [] in
      case json_Marshal history of
        Inl e \<Rightarrow> Inl e
      | Inr data \<Rightarrow> Inr (policy\<lparr>Annotations := Some (ann(VersionHistoryAnnotation \<mapsto> data))\<rparr>))"

definition current_version :: "time \<Rightarrow> 'f FinancialPolicy \<Rightarrow> 'f PolicyVersion" where
  "current_version now policy =
     \<lparr>pv_Version = Version (Spec policy), pv_Spec = Spec policy, pv_Timestamp = now\<rparr>"

text \<open>The last \<open>n\<close> elements: \<^verbatim>\<open>history[len(history)-n:]\<close>.\<close>

definition keep_last :: "nat \<Rightarrow> 'a list \<Rightarrow> 'a list" where
  "keep_last n xs = drop (length xs - n) xs"

definition appendVersionHistory ::
    "time \<Rightarrow> 'f::{zero,minus} FinancialPolicy \<Rightarrow> 'f policy_error + 'f FinancialPolicy" where
  "appendVersionHistory now policy =
     (let ann = annotations_of policy in
      case (case ann VersionHistoryAnnotation of
              None \<Rightarrow> Inr []
            | Some raw \<Rightarrow> if raw = AText [] then Inr [] else json_Unmarshal raw) of
        Inl e \<Rightarrow> Inl e
      | Inr history0 \<Rightarrow>
          let history1 = history0 @ [current_version now policy];
              history = (if maxVersionHistory < length history1
                         then keep_last maxVersionHistory history1 else history1) in
          (case json_Marshal history of
             Inl e \<Rightarrow> Inl e
           | Inr data \<Rightarrow> Inr (policy\<lparr>Annotations := Some (ann(VersionHistoryAnnotation \<mapsto> data))\<rparr>)))"

section \<open>Applying a policy\<close>

text \<open>\<^verbatim>\<open>ValidatePolicy\<close> has no error of its own.\<close>

definition ValidatePolicy ::
    "'f::{ord,zero,scaleR,one} FinancialPolicy \<Rightarrow> 'f ValidationError list \<times> 'e option" where
  "ValidatePolicy policy = (let errs = ValidateFinancialPolicy policy in (errs, None))"

definition set_version :: "int \<Rightarrow> 'f FinancialPolicy \<Rightarrow> 'f FinancialPolicy" where
  "set_version v policy = policy\<lparr>Spec := (Spec policy)\<lparr>Version := v\<rparr>\<rparr>"

definition ApplyPolicy ::
    "('s, 'f::{ord,zero,scaleR,one,minus}) Client \<Rightarrow> time \<Rightarrow> 's \<Rightarrow> 'f FinancialPolicy \<Rightarrow>
     'f policy_error option \<times> 's \<times> 'f FinancialPolicy" where
  "ApplyPolicy c now s policy =
     (let validationErrs = ValidateFinancialPolicy policy in
      if 0 < length validationErrs then (Some (EInvalid (error_texts validationErrs)), s, policy)
      else case kGet c s (Name policy) (Namespace policy) of
        Inl err \<Rightarrow>
          if err \<noteq> KNotFound then (Some (EGetExisting err), s, policy)
          else let policy1 = set_version 1 policy in
            (case initVersionHistory policy1 of
               Inl e \<Rightarrow> (Some (EInitHistory e), s, policy1)
             | Inr policy2 \<Rightarrow>
                 (case kCreate c s policy2 of
                    (Some e, s', policy3) \<Rightarrow> (Some (ECreate e), s', policy3)
                  | (None, s', policy3) \<Rightarrow> (None, s', policy3)))
      | Inr existing0 \<Rightarrow>
          (case appendVersionHistory now existing0 of
             Inl e \<Rightarrow> (Some (EAppendHistory e), s, policy)
           | Inr existing \<Rightarrow>
               let newVersion = int64 (Version (Spec existing) + 1);
                   policy1 = set_version newVersion policy;
                   ann = annotations_of policy1;
                   ann' = (case Annotations existing of
                             None \<Rightarrow> ann
                           | Some exann \<Rightarrow> ann(VersionHistoryAnnotation :=
                               Some (case exann VersionHistoryAnnotation of
                                       None \<Rightarrow> AText [] | Some raw \<Rightarrow> raw)));
                   policy2 = policy1\<lparr>Annotations := Some ann',
                                     ResourceVersion := ResourceVersion existing\<rparr> in
               (case kUpdate c s policy2 of
                  (Some e, s', policy3) \<Rightarrow> (Some (EUpdate e), s', policy3)
                | (None, s', policy3) \<Rightarrow> (None, s', policy3))))"

section \<open>Reading policies\<close>

definition GetActivePolicy ::
    "('s, 'f) Client \<Rightarrow> 's \<Rightarrow> string \<Rightarrow> 'f policy_error + 'f FinancialPolicy option" where
  "GetActivePolicy c s namespace =
     (case kList c s (Some namespace) of
        Inl e \<Rightarrow> Inl (EListNamespace namespace e)
      | Inr items \<Rightarrow>
          if length items = 0 then Inr None
          else (case find (\<lambda>p. Phase (Status p) = PolicyPhaseActive) items of
                  Some p \<Rightarrow> Inr (Some p)
                | None \<Rightarrow> Inr (Some (items ! 0))))"

definition ListPolicies :: "('s, 'f) Client \<Rightarrow> 's \<Rightarrow> 'f policy_error + 'f FinancialPolicy list" where
  "ListPolicies c s = (case kList c s None of Inl e \<Rightarrow> Inl (EList e) | Inr items \<Rightarrow> Inr items)"

definition findPolicyByName ::
    "('s, 'f) Client \<Rightarrow> 's \<Rightarrow> string \<Rightarrow> 'f policy_error + 'f FinancialPolicy" where
  "findPolicyByName c s name =
     (case ListPolicies c s of
        Inl e \<Rightarrow> Inl (EFind e)
      | Inr policies \<Rightarrow>
          (case find (\<lambda>p. Name p = name) policies of
             Some p \<Rightarrow> Inr p
           | None \<Rightarrow> Inl (EPolicyNotFound name)))"

text \<open>
  \<^verbatim>\<open>sort.Slice\<close> is an insertion sort, hence stable, on the at most twelve entries a history of the
  manager has with the current version; versions that differ are sorted in one way only.
\<close>

definition GetPolicyHistory ::
    "('s, 'f) Client \<Rightarrow> time \<Rightarrow> 's \<Rightarrow> string \<Rightarrow> 'f policy_error + 'f PolicyVersion list" where
  "GetPolicyHistory c now s name =
     (case findPolicyByName c s name of
        Inl e \<Rightarrow> Inl e
      | Inr policy \<Rightarrow>
          (case parseVersionHistory policy of
             Inl e \<Rightarrow> Inl e
           | Inr history \<Rightarrow> Inr (sort_key pv_Version (history @ [current_version now policy]))))"

section \<open>Rolling back\<close>

definition set_phase :: "string \<Rightarrow> 'f FinancialPolicy \<Rightarrow> 'f FinancialPolicy" where
  "set_phase ph policy = policy\<lparr>Status := (Status policy)\<lparr>Phase := ph\<rparr>\<rparr>"

definition RollbackPolicy ::
    "('s, 'f::{zero,minus}) Client \<Rightarrow> time \<Rightarrow> 's \<Rightarrow> string \<Rightarrow> int \<Rightarrow> 'f policy_error option \<times> 's" where
  "RollbackPolicy c now s name version =
     (case findPolicyByName c s name of
        Inl e \<Rightarrow> (Some e, s)
      | Inr policy \<Rightarrow>
     (case parseVersionHistory policy of
        Inl e \<Rightarrow> (Some e, s)
      | Inr history \<Rightarrow>
     (case find (\<lambda>h. pv_Version h = version) history of
        None \<Rightarrow> (Some (EVersionNotFound version name), s)
      | Some target \<Rightarrow>
     (case appendVersionHistory now policy of
        Inl e \<Rightarrow> (Some (EAppendCurrent e), s)
      | Inr policy1 \<Rightarrow>
          let newVersion = int64 (Version (Spec policy1) + 1);
              policy2 = set_phase PolicyPhaseRolledBack
                          (set_version newVersion (policy1\<lparr>Spec := pv_Spec target\<rparr>)) in
          (case kUpdate c s policy2 of
             (Some e, s', _) \<Rightarrow> (Some (ERollbackUpdate e), s')
           | (None, s', policy3) \<Rightarrow>
               (case kStatusUpdate c s' policy3 of
                  (Some e, s'', _) \<Rightarrow> (Some (ERollbackStatus e), s'')
                | (None, s'', _) \<Rightarrow> (None, s'')))))))"


section \<open>The history as a log\<close>

text \<open>
  The abstract view of a policy is the list of all specifications it has had, numbered
  from 1. Applying a specification appends it; rolling back to version \<open>v\<close> appends the
  \<open>v\<close>-th one again. The resource holds the last of them and the ten before it.
\<close>

definition numbered :: "'f FinancialPolicySpec list \<Rightarrow> bool" where
  "numbered lg \<longleftrightarrow> map Version lg = map int [1..<Suc (length lg)]"

definition log_apply ::
    "'f FinancialPolicySpec list \<Rightarrow> 'f FinancialPolicySpec \<Rightarrow> 'f FinancialPolicySpec list" where
  "log_apply lg spec = lg @ [spec\<lparr>Version := int (length lg) + 1\<rparr>]"

definition log_rollback ::
    "'f FinancialPolicySpec list \<Rightarrow> int \<Rightarrow> 'f FinancialPolicySpec list" where
  "log_rollback lg v = log_apply lg (lg ! nat (v - 1))"

definition in_window :: "'f FinancialPolicySpec list \<Rightarrow> int \<Rightarrow> bool" where
  "in_window lg v \<longleftrightarrow> 1 \<le> v \<and> int (length lg) - int maxVersionHistory \<le> v \<and> v < int (length lg)"

definition represents ::
    "'f::{zero,minus} FinancialPolicySpec list \<Rightarrow> 'f FinancialPolicy \<Rightarrow> bool" where
  "represents lg p \<longleftrightarrow> lg \<noteq> [] \<and> Spec p = last lg \<and> numbered lg \<and> list_all json_spec lg \<and>
     (\<exists>h. parseVersionHistory p = Inr h \<and>
        map pv_Spec h = keep_last maxVersionHistory (butlast lg) \<and>
        (\<forall>x\<in>set h. pv_Version x = Version (pv_Spec x)))"

subsection \<open>The last elements of a list\<close>

lemma keep_last_all [simp]: "length xs \<le> n \<Longrightarrow> keep_last n xs = xs"
  by (simp add: keep_last_def)

lemma length_keep_last [simp]: "length (keep_last n xs) = min n (length xs)"
  by (simp add: keep_last_def)

lemma map_keep_last: "map f (keep_last n xs) = keep_last n (map f xs)"
  by (simp add: keep_last_def drop_map)

lemma set_keep_last: "set (keep_last n xs) \<subseteq> set xs"
  by (simp add: keep_last_def set_drop_subset)

lemma keep_last_snoc: "keep_last n (keep_last n xs @ [x]) = keep_last n (xs @ [x])"
  by (cases "length xs \<le> n") (auto simp: keep_last_def Suc_diff_le)

lemma keep_last_if: "(if n < length xs then keep_last n xs else xs) = keep_last n xs"
  by simp

subsection \<open>The numbering\<close>

lemma numbered_nth: "numbered lg \<Longrightarrow> i < length lg \<Longrightarrow> Version (lg ! i) = int i + 1"
  unfolding numbered_def by (drule arg_cong [where f = "\<lambda>xs. xs ! i"]) (simp del: upt_Suc)

lemma numbered_last: "numbered lg \<Longrightarrow> lg \<noteq> [] \<Longrightarrow> Version (last lg) = int (length lg)"
  using numbered_nth [of lg "length lg - 1"] by (cases lg) (auto simp: last_conv_nth)

lemma numbered_apply: "numbered lg \<Longrightarrow> numbered (log_apply lg spec)"
  by (simp add: numbered_def log_apply_def)

lemma log_apply_simps [simp]:
  "log_apply lg spec \<noteq> []" "butlast (log_apply lg spec) = lg"
  "last (log_apply lg spec) = spec\<lparr>Version := int (length lg) + 1\<rparr>"
  "length (log_apply lg spec) = Suc (length lg)"
  by (simp_all add: log_apply_def)

lemma json_spec_Version [simp]: "json_spec (spec\<lparr>Version := v\<rparr>) = json_spec spec"
  by (simp add: json_spec_def)

subsection \<open>Reading and writing the annotation\<close>

lemma parse_written [simp]:
  "parseVersionHistory (p\<lparr>Annotations := Some (ann(VersionHistoryAnnotation \<mapsto> AJson h))\<rparr>) = Inr h"
  by (simp add: parseVersionHistory_def json_Unmarshal_def)

lemma parse_cong: "Annotations q = Annotations p \<Longrightarrow> parseVersionHistory q = parseVersionHistory p"
  by (simp add: parseVersionHistory_def)

lemma append_parse:
  "appendVersionHistory now p =
     (case parseVersionHistory p of
        Inl e \<Rightarrow> Inl e
      | Inr h \<Rightarrow> (case json_Marshal (keep_last maxVersionHistory (h @ [current_version now p])) of
          Inl e \<Rightarrow> Inl e
        | Inr data \<Rightarrow> Inr (p\<lparr>Annotations :=
            Some ((annotations_of p)(VersionHistoryAnnotation \<mapsto> data))\<rparr>)))"
  unfolding appendVersionHistory_def parseVersionHistory_def annotations_of_def Let_def keep_last_if
  by (simp split: option.split)

lemma append_ok:
  assumes "parseVersionHistory p = Inr h" "list_all (json_spec \<circ> pv_Spec) h" "json_spec (Spec p)"
  shows "appendVersionHistory now p = Inr (p\<lparr>Annotations := Some ((annotations_of p)
    (VersionHistoryAnnotation \<mapsto> AJson (keep_last maxVersionHistory (h @ [current_version now p]))))\<rparr>)"
proof -
  have "list_all (json_spec \<circ> pv_Spec) (keep_last maxVersionHistory (h @ [current_version now p]))"
    using assms(2,3) set_keep_last [of maxVersionHistory "h @ [current_version now p]"]
    by (auto simp: list_all_iff current_version_def)
  then show ?thesis by (simp add: append_parse assms(1) json_Marshal_def)
qed

lemma append_body:
  "appendVersionHistory now p = Inr q \<Longrightarrow> \<exists>ann. q = p\<lparr>Annotations := Some ann\<rparr>"
  by (auto simp: append_parse split: sum.splits)

text \<open>
  Recording the current specification of a resource that represents a log gives the
  annotation of the log's next version.
\<close>

lemma represents_append:
  assumes "represents lg p"
  obtains h where
    "appendVersionHistory now p = Inr (p\<lparr>Annotations := Some ((annotations_of p)
       (VersionHistoryAnnotation \<mapsto> AJson h))\<rparr>)"
    "map pv_Spec h = keep_last maxVersionHistory lg"
    "\<forall>x\<in>set h. pv_Version x = Version (pv_Spec x)"
proof -
  let ?n = maxVersionHistory
  from assms obtain h where parse: "parseVersionHistory p = Inr h"
    and specs: "map pv_Spec h = keep_last ?n (butlast lg)"
    and vers: "\<forall>x\<in>set h. pv_Version x = Version (pv_Spec x)"
    and lg: "lg \<noteq> []" "Spec p = last lg" "numbered lg" "list_all json_spec lg"
    by (auto simp: represents_def)
  have butl: "set (butlast lg) \<subseteq> set lg" by (auto dest: in_set_butlastD)
  have "set (map pv_Spec h) \<subseteq> set lg"
    unfolding specs using set_keep_last [of ?n "butlast lg"] butl by blast
  then have "list_all (json_spec \<circ> pv_Spec) h" using lg(4) by (auto simp: list_all_iff)
  moreover have "json_spec (Spec p)" using lg by (simp add: list_all_iff)
  ultimately have app: "appendVersionHistory now p = Inr (p\<lparr>Annotations := Some ((annotations_of p)
      (VersionHistoryAnnotation \<mapsto> AJson (keep_last ?n (h @ [current_version now p]))))\<rparr>)"
    by (intro append_ok parse)
  have "map pv_Spec (keep_last ?n (h @ [current_version now p]))
      = keep_last ?n (keep_last ?n (butlast lg) @ [last lg])"
    by (simp add: map_keep_last specs lg(2) current_version_def)
  also have "\<dots> = keep_last ?n lg" using lg(1) by (simp add: keep_last_snoc)
  finally have "map pv_Spec (keep_last ?n (h @ [current_version now p])) = keep_last ?n lg" .
  moreover have "\<forall>x\<in>set (keep_last ?n (h @ [current_version now p])). pv_Version x = Version (pv_Spec x)"
    using vers set_keep_last [of ?n "h @ [current_version now p]"]
    by (force simp: current_version_def)
  ultimately show thesis by (rule that [OF app])
qed

text \<open>Which versions a resource can be rolled back to.\<close>

lemma nth_keep_last: "i < min n (length xs) \<Longrightarrow> keep_last n xs ! i = xs ! (length xs - n + i)"
  by (auto simp: keep_last_def)

lemma represents_find:
  assumes "represents lg p" "parseVersionHistory p = Inr h"
  shows "find (\<lambda>x. pv_Version x = v) h = None \<longleftrightarrow> \<not> in_window lg v"
    and "find (\<lambda>x. pv_Version x = v) h = Some x \<Longrightarrow> pv_Spec x = lg ! nat (v - 1) \<and> in_window lg v"
proof -
  let ?n = maxVersionHistory and ?b = "butlast lg"
  from assms have specs: "map pv_Spec h = keep_last ?n ?b" and lg: "lg \<noteq> []" "numbered lg"
    and vers: "\<forall>x\<in>set h. pv_Version x = Version (pv_Spec x)" by (auto simp: represents_def)
  have len: "length h = min ?n (length lg - 1)" using arg_cong [OF specs, of length] by simp
  have spec_nth: "pv_Spec (h ! i) = lg ! (length lg - 1 - ?n + i)" if "i < length h" for i
  proof -
    have "pv_Spec (h ! i) = keep_last ?n ?b ! i" using that specs by (metis nth_map)
    also have "\<dots> = ?b ! (length ?b - ?n + i)" by (rule nth_keep_last) (use that len in simp)
    also have "\<dots> = lg ! (length lg - 1 - ?n + i)"
      by (subst nth_butlast) (use that len in auto)
    finally show ?thesis .
  qed
  have vers_nth: "pv_Version (h ! i) = int (length lg - 1 - ?n + i) + 1" if "i < length h" for i
  proof -
    have idx: "length lg - 1 - ?n + i < length lg" using that len by auto
    show ?thesis using that vers spec_nth [OF that] numbered_nth [OF lg(2) idx] by simp
  qed
  show "find (\<lambda>x. pv_Version x = v) h = None \<longleftrightarrow> \<not> in_window lg v"
  proof -
    have "(\<exists>i<length h. pv_Version (h ! i) = v) \<longleftrightarrow> in_window lg v"
    proof
      assume "in_window lg v"
      then have v: "1 \<le> v" "int (length lg) - int ?n \<le> v" "v < int (length lg)"
        by (auto simp: in_window_def)
      let ?i = "nat (v - 1) - (length lg - 1 - ?n)"
      have "?i < length h" unfolding len using v lg(1) by (simp add: min_def) arith
      moreover from this have "pv_Version (h ! ?i) = v"
        unfolding vers_nth [OF \<open>?i < length h\<close>] using v by arith
      ultimately show "\<exists>i<length h. pv_Version (h ! i) = v" by blast
    qed (use vers_nth len in \<open>auto simp: in_window_def\<close>)
    then show ?thesis by (auto simp: find_None_iff in_set_conv_nth)
  qed
  show "find (\<lambda>x. pv_Version x = v) h = Some x \<Longrightarrow> pv_Spec x = lg ! nat (v - 1) \<and> in_window lg v"
  proof -
    assume "find (\<lambda>x. pv_Version x = v) h = Some x"
    then obtain i where i: "i < length h" "x = h ! i" "pv_Version x = v" by (auto simp: find_Some_iff)
    have v: "v = int (length lg - 1 - ?n + i) + 1" using i vers_nth [OF i(1)] by simp
    then have "nat (v - 1) = length lg - 1 - ?n + i" by simp
    moreover have "in_window lg v" using v i(1) len by (auto simp: in_window_def)
    ultimately show ?thesis using i spec_nth [OF i(1)] by simp
  qed
qed


section \<open>Refinement: the manager against the log\<close>

lemma set_version_simps [simp]:
  "key (set_version v p) = key p" "Spec (set_version v p) = (Spec p)\<lparr>Version := v\<rparr>"
  "Annotations (set_version v p) = Annotations p" "Status (set_version v p) = Status p"
  by (simp_all add: set_version_def)

lemma set_phase_simps [simp]:
  "key (set_phase v p) = key p" "Spec (set_phase v p) = Spec p"
  "Annotations (set_phase v p) = Annotations p" "Phase (Status (set_phase v p)) = v"
  by (simp_all add: set_phase_def)

lemma represents_body: "same_body p q \<Longrightarrow> represents lg p \<Longrightarrow> represents lg q"
  by (simp add: represents_def same_body_def parseVersionHistory_def)

lemma representsI:
  assumes "Spec p = last lg" "lg \<noteq> []" "numbered lg" "list_all json_spec lg"
    "Annotations p = Some (ann(VersionHistoryAnnotation \<mapsto> AJson h))"
    "map pv_Spec h = keep_last maxVersionHistory (butlast lg)"
    "\<forall>x\<in>set h. pv_Version x = Version (pv_Spec x)"
  shows "represents lg p"
  using assms by (simp add: represents_def parseVersionHistory_def json_Unmarshal_def)

lemma find_by_name:
  "findPolicyByName c s name = Inr p \<Longrightarrow>
   Name p = name \<and> (\<exists>ps. kList c s None = Inr ps \<and> p \<in> set ps)"
  by (auto simp: findPolicyByName_def ListPolicies_def find_Some_iff
      split: sum.splits option.splits)

context kube_api
begin

lemma apply_valid: "ApplyPolicy c now s p = (None, s', p') \<Longrightarrow> ValidateFinancialPolicy p = []"
  by (auto simp: ApplyPolicy_def Let_def split: if_splits)

lemma apply_invalid:
  "ValidateFinancialPolicy p = errs \<Longrightarrow> errs \<noteq> [] \<Longrightarrow>
   ApplyPolicy c now s p = (Some (EInvalid (error_texts errs)), s, p)"
  by (simp add: ApplyPolicy_def)

lemma apply_failed_frame:
  "wf s \<Longrightarrow> ApplyPolicy c now s p = (Some e, s', p') \<Longrightarrow> objs s' = objs s"
  by (auto simp: ApplyPolicy_def Let_def dest: create_fails update_fails
      split: if_splits sum.splits prod.splits option.splits)

lemma wf_apply:
  "wf s \<Longrightarrow> ApplyPolicy c now s p = (r, s', p') \<Longrightarrow> wf s'"
  by (auto simp: ApplyPolicy_def Let_def dest: wf_create wf_update
      split: if_splits sum.splits prod.splits option.splits)

lemma apply_creates:
  assumes "wf s" "objs s (key p) = None" "json_spec (Spec p)"
    and ok: "ApplyPolicy c now s p = (None, s', p')"
  shows "wf s' \<and> (\<exists>q. objs s' = (objs s)(key p \<mapsto> q) \<and> represents (log_apply [] (Spec p)) q)"
proof -
  have get: "kGet c s (Name p) (Namespace p) \<noteq> Inr x" for x
    using get_found [OF assms(1)] assms(2) by (auto simp: key_def)
  let ?p = "(set_version 1 p)\<lparr>Annotations := Some ((annotations_of (set_version 1 p))
              (VersionHistoryAnnotation \<mapsto> AJson []))\<rparr>"
  have "initVersionHistory (set_version 1 p) = Inr ?p"
    by (simp add: initVersionHistory_def json_Marshal_def Let_def)
  with ok get obtain p3 where create: "kCreate c s ?p = (None, s', p3)"
    by (auto simp: ApplyPolicy_def Let_def split: if_splits sum.splits prod.splits option.splits)
  have "represents (log_apply [] (Spec p)) ?p"
    by (rule representsI [where h = "[]"])
      (use assms(3) in \<open>simp_all add: log_apply_def numbered_def\<close>)
  with create_ok [OF assms(1) create] show ?thesis by (auto intro: represents_body)
qed

lemma apply_refines:
  assumes "wf s" "objs s (key p) = Some old" "represents lg old"
    and spec: "json_spec (Spec p)" "int (length lg) < 2 ^ 63 - 1"
    and ok: "ApplyPolicy c now s p = (None, s', p')"
  shows "wf s' \<and> (\<exists>q. objs s' = (objs s)(key p \<mapsto> q) \<and> Status q = Status old \<and>
    represents (log_apply lg (Spec p)) q)"
proof -
  from assms(3) obtain h where app: "appendVersionHistory now old = Inr (old\<lparr>Annotations :=
        Some ((annotations_of old)(VersionHistoryAnnotation \<mapsto> AJson h))\<rparr>)"
    and h: "map pv_Spec h = keep_last maxVersionHistory lg"
      "\<forall>x\<in>set h. pv_Version x = Version (pv_Spec x)"
    by (rule represents_append)
  have lg: "lg \<noteq> []" "numbered lg" "list_all json_spec lg" "Version (Spec old) = int (length lg)"
    using assms(3) numbered_last by (auto simp: represents_def)
  have get: "kGet c s (Name p) (Namespace p) \<noteq> Inl KNotFound"
    using get_missing [OF assms(1)] assms(2) by (auto simp: key_def)
  have found: "kGet c s (Name p) (Namespace p) = Inr x \<Longrightarrow> x = old" for x
    using get_found [OF assms(1)] assms(2) by (fastforce simp: key_def)
  let ?v = "int (length lg) + 1"
  let ?p = "(set_version ?v p)\<lparr>Annotations := Some ((annotations_of (set_version ?v p))
              (VersionHistoryAnnotation \<mapsto> AJson h)), ResourceVersion := ResourceVersion old\<rparr>"
  have "int64 ?v = ?v" using spec(2) by (intro int64_id) auto
  with ok get found app lg(4) obtain p3 where upd: "kUpdate c s ?p = (None, s', p3)"
    by (auto simp: ApplyPolicy_def Let_def split: if_splits sum.splits prod.splits option.splits)
  have "represents (log_apply lg (Spec p)) ?p"
    by (rule representsI [OF _ _ _ _ _ _ h(2)])
      (use lg spec(1) h(1) in \<open>simp_all add: numbered_apply, simp add: log_apply_def\<close>)
  with update_ok [OF assms(1) upd] assms(2) show ?thesis by (auto intro: represents_body)
qed

text \<open>
  Whatever a rollback returns, the store is unchanged or the resource represents the log
  with the target version appended.
\<close>

lemma rollback_step:
  assumes "wf s" "findPolicyByName c s name = Inr old" "represents lg old"
    and bound: "int (length lg) < 2 ^ 63 - 1"
    and run: "RollbackPolicy c now s name v = (r, s')"
  shows "wf s' \<and> (objs s' = objs s \<and> r \<noteq> None \<or>
    in_window lg v \<and> (\<exists>q. objs s' = (objs s)(key old \<mapsto> q) \<and> represents (log_rollback lg v) q \<and>
      (Phase (Status old) \<noteq> [] \<longrightarrow> Phase (Status q) = Phase (Status old))))"
proof -
  from find_by_name [OF assms(2)] list_member [OF assms(1)]
  have stored: "objs s (key old) = Some old" by auto
  from assms(3) obtain h0 where parse: "parseVersionHistory old = Inr h0"
    by (auto simp: represents_def)
  from assms(3) obtain h where app: "appendVersionHistory now old = Inr (old\<lparr>Annotations :=
        Some ((annotations_of old)(VersionHistoryAnnotation \<mapsto> AJson h))\<rparr>)"
    and h: "map pv_Spec h = keep_last maxVersionHistory lg"
      "\<forall>x\<in>set h. pv_Version x = Version (pv_Spec x)"
    by (rule represents_append)
  have lg: "lg \<noteq> []" "numbered lg" "list_all json_spec lg" "Version (Spec old) = int (length lg)"
    using assms(3) numbered_last by (auto simp: represents_def)
  let ?w = "int (length lg) + 1"
  have w: "int64 ?w = ?w" using bound by (intro int64_id) auto
  show ?thesis
  proof (cases "find (\<lambda>x. pv_Version x = v) h0")
    case None
    with run assms(1) show ?thesis by (auto simp: RollbackPolicy_def assms(2) parse)
  next
    case (Some t)
    from represents_find(2) [OF assms(3) parse Some]
    have target: "pv_Spec t = lg ! nat (v - 1)" "in_window lg v" by auto
    let ?p = "set_phase PolicyPhaseRolledBack (set_version ?w (old\<lparr>Annotations :=
        Some ((annotations_of old)(VersionHistoryAnnotation \<mapsto> AJson h)), Spec := pv_Spec t\<rparr>))"
    obtain r1 s1 p1 where upd: "kUpdate c s ?p = (r1, s1, p1)" by (metis prod_cases3)
    have "nat (v - 1) < length lg" using target(2) by (auto simp: in_window_def)
    then have "json_spec (lg ! nat (v - 1))" using lg(3) by (simp add: list_all_length)
    then have rep: "represents (log_rollback lg v) ?p"
      by (intro representsI [OF _ _ _ _ _ _ h(2)])
        (use lg h(1) target(1) in \<open>simp_all add: log_rollback_def numbered_apply, simp add: log_apply_def\<close>)
    show ?thesis
    proof (cases r1)
      case (Some e)
      then have "r = Some (ERollbackUpdate e)" "s' = s1"
        using run upd by (auto simp: RollbackPolicy_def assms(2) parse \<open>find _ h0 = Some t\<close> app lg(4) w Let_def)
      with update_fails [OF assms(1) upd [unfolded Some]] show ?thesis by simp
    next
      case None
      note upd = upd [unfolded None]
      from update_ok [OF assms(1) upd] stored rep obtain q1 where q1: "wf s1"
          "objs s1 = (objs s)(key old \<mapsto> q1)" "same_body ?p p1" "represents (log_rollback lg v) q1"
          "Status q1 = Status old" "Phase (Status old) \<noteq> [] \<longrightarrow> Phase (Status p1) = Phase (Status old)"
        by (auto intro: represents_body)
      have k: "key p1 = key old" using q1(3) by (simp add: same_body_def)
      obtain r2 s2 p2 where st: "kStatusUpdate c s1 p1 = (r2, s2, p2)" by (metis prod_cases3)
      have s': "s' = s2"
        using run upd st by (auto simp: RollbackPolicy_def assms(2) parse Some app lg(4) w Let_def split: option.splits)
      show ?thesis
      proof (cases r2)
        case None
        from status_ok [OF q1(1) st [unfolded None]] q1(2) k obtain q where "wf s'" "same_body q1 q"
            "Status q = Status p1" "objs s' = (objs s)(key old \<mapsto> q)" by (auto simp: s')
        with q1 target(2) show ?thesis by (auto intro: represents_body)
      next
        case (Some e)
        from status_fails [OF q1(1) st [unfolded Some]] q1 target(2) show ?thesis by (auto simp: s')
      qed
    qed
  qed
qed

end

text \<open>A rollback reports a missing version exactly when the version is outside the window.\<close>

lemma rollback_missing:
  assumes "findPolicyByName c s name = Inr old" "represents lg old"
  shows "fst (RollbackPolicy c now s name v) = Some (EVersionNotFound v name) \<longleftrightarrow> \<not> in_window lg v"
proof -
  from assms(2) obtain h where parse: "parseVersionHistory old = Inr h" by (auto simp: represents_def)
  show ?thesis
    using represents_find(1) [OF assms(2) parse, of v]
    by (auto simp: RollbackPolicy_def assms(1) parse Let_def split: option.splits sum.splits prod.splits)
qed

lemma keep_last_Suc: "xs \<noteq> [] \<Longrightarrow> keep_last (Suc n) xs = keep_last n (butlast xs) @ [last xs]"
  by (induction xs rule: rev_induct) (auto simp: keep_last_def)

text \<open>The history a caller sees: the last eleven versions in order, the current one last.\<close>

lemma history_of_represents:
  assumes "findPolicyByName c s name = Inr p" "represents lg p"
  obtains h where "GetPolicyHistory c now s name = Inr h"
    "map pv_Spec h = keep_last (Suc maxVersionHistory) lg"
    "map pv_Version h = map Version (keep_last (Suc maxVersionHistory) lg)"
proof -
  from assms(2) obtain h where parse: "parseVersionHistory p = Inr h"
    and h: "map pv_Spec h = keep_last maxVersionHistory (butlast lg)"
      "\<forall>x\<in>set h. pv_Version x = Version (pv_Spec x)"
    and lg: "lg \<noteq> []" "Spec p = last lg" "numbered lg" by (auto simp: represents_def)
  let ?h = "h @ [current_version now p]"
  have specs: "map pv_Spec ?h = keep_last (Suc maxVersionHistory) lg"
    using h(1) lg by (simp add: keep_last_Suc current_version_def)
  have "map pv_Version ?h = map (Version \<circ> pv_Spec) ?h"
    using h(2) by (simp add: current_version_def)
  also have "\<dots> = map Version (keep_last (Suc maxVersionHistory) lg)"
    by (metis specs map_map)
  finally have vers: "map pv_Version ?h = map Version (keep_last (Suc maxVersionHistory) lg)" .
  have "sorted (map int [1..<Suc (length lg)])" by (auto simp: sorted_iff_nth_mono simp del: upt_Suc)
  then have "sorted (map Version lg)" using lg(3) by (simp add: numbered_def del: upt_Suc)
  then have "sorted (map pv_Version ?h)" unfolding vers
    by (simp add: keep_last_def drop_map [symmetric] sorted_wrt_drop del: drop_map)
  then have "sort_key pv_Version ?h = ?h" by (rule sort_key_id_if_sorted)
  then have "GetPolicyHistory c now s name = Inr ?h"
    by (simp add: GetPolicyHistory_def assms(1) parse)
  then show thesis using specs vers by (rule that)
qed

section \<open>Runs of the manager\<close>

datatype 'f manager_op = OpApply time "'f FinancialPolicy" | OpRollback time string int

fun manager_step ::
    "('s, 'f::{ord,zero,scaleR,one,minus}) Client \<Rightarrow> 'f manager_op \<Rightarrow> 's \<Rightarrow> 's" where
  "manager_step c (OpApply now p) s = fst (snd (ApplyPolicy c now s p))"
| "manager_step c (OpRollback now name v) s = snd (RollbackPolicy c now s name v)"

fun op_json :: "'f::{zero,minus} manager_op \<Rightarrow> bool" where
  "op_json (OpApply now p) = json_spec (Spec p)"
| "op_json (OpRollback now name v) = True"

text \<open>Every stored policy represents a log of at most \<open>n\<close> versions.\<close>

definition managed ::
    "nat \<Rightarrow> (string \<times> string \<rightharpoonup> 'f::{zero,minus} FinancialPolicy) \<Rightarrow> bool" where
  "managed n m \<longleftrightarrow> (\<forall>k p. m k = Some p \<longrightarrow> (\<exists>lg. length lg \<le> n \<and> represents lg p))"

lemma managed_update:
  "managed n m \<Longrightarrow> represents lg q \<Longrightarrow> length lg \<le> Suc n \<Longrightarrow> managed (Suc n) (m(k \<mapsto> q))"
  unfolding managed_def by (metis fun_upd_apply le_SucI option.inject)

lemma managed_Suc: "managed n m \<Longrightarrow> managed (Suc n) m"
  unfolding managed_def by (meson le_SucI)

lemma log_rollback_length [simp]: "length (log_rollback lg v) = Suc (length lg)"
  by (simp add: log_rollback_def)

context kube_api
begin

lemma apply_managed:
  assumes "wf s" "managed n (objs s)" "json_spec (Spec p)" "int n < 2 ^ 63 - 1"
    and run: "ApplyPolicy c now s p = (r, s', p')"
  shows "wf s' \<and> managed (Suc n) (objs s')"
proof (cases r)
  case (Some e)
  with run assms apply_failed_frame [of s now p e s' p'] wf_apply [OF assms(1) run]
  show ?thesis by (simp add: managed_Suc)
next
  case None
  note run = run [unfolded None]
  show ?thesis
  proof (cases "objs s (key p)")
    case None
    from apply_creates [OF assms(1) None assms(3) run] show ?thesis
      using managed_update [OF assms(2), of "log_apply [] (Spec p)" _ "key p"] by auto
  next
    case (Some old)
    then obtain lg where lg: "length lg \<le> n" "represents lg old" using assms(2) unfolding managed_def by blast
    then have "int (length lg) < 2 ^ 63 - 1" using assms(4) by simp
    from apply_refines [OF assms(1) Some lg(2) assms(3) this run] lg(1) show ?thesis
      using managed_update [OF assms(2), of "log_apply lg (Spec p)" _ "key p"] by auto
  qed
qed

lemma rollback_managed:
  assumes "wf s" "managed n (objs s)" "int n < 2 ^ 63 - 1"
    and run: "RollbackPolicy c now s name v = (r, s')"
  shows "wf s' \<and> managed (Suc n) (objs s')"
proof (cases "findPolicyByName c s name")
  case (Inl e)
  with run assms show ?thesis by (auto simp: RollbackPolicy_def managed_Suc)
next
  case (Inr old)
  from find_by_name [OF Inr] list_member [OF assms(1)] have "objs s (key old) = Some old" by auto
  then obtain lg where lg: "length lg \<le> n" "represents lg old" using assms(2) unfolding managed_def by blast
  then have "int (length lg) < 2 ^ 63 - 1" using assms(3) by simp
  from rollback_step [OF assms(1) Inr lg(2) this run] lg(1) show ?thesis
    using managed_update [OF assms(2), of "log_rollback lg v" _ "key old"] managed_Suc [OF assms(2)] by auto
qed

lemma run_managed:
  "wf s \<Longrightarrow> managed n (objs s) \<Longrightarrow> list_all op_json ops \<Longrightarrow> int (n + length ops) < 2 ^ 63 \<Longrightarrow>
   wf (fold (manager_step c) ops s) \<and> managed (n + length ops) (objs (fold (manager_step c) ops s))"
proof (induction ops arbitrary: s n)
  case (Cons x ops)
  have n: "int n < 2 ^ 63 - 1" using Cons.prems(4) by simp
  have "wf (manager_step c x s) \<and> managed (Suc n) (objs (manager_step c x s))"
  proof (cases x)
    case (OpApply now p)
    with apply_managed [OF Cons.prems(1,2) _ n] Cons.prems(3) show ?thesis
      by (cases "ApplyPolicy c now s p") auto
  next
    case (OpRollback now name v)
    with rollback_managed [OF Cons.prems(1,2) n] show ?thesis
      by (cases "RollbackPolicy c now s name v") auto
  qed
  with Cons.IH [of "manager_step c x s" "Suc n"] Cons.prems show ?case by simp
qed simp

end

section \<open>A server that accepts well-formed requests\<close>

text \<open>
  The admission of the server accepts the object a request stores: whatever its history is written like,
  if it represents the log and has the other annotations of the given policy.
\<close>

definition admitted ::
    "('f::{zero,minus} FinancialPolicy \<Rightarrow> bool) \<Rightarrow> 'f FinancialPolicySpec list \<Rightarrow> 'f FinancialPolicy \<Rightarrow> bool" where
  "admitted admits lg p \<longleftrightarrow> (\<forall>q. key q = key p \<and> represents lg q \<and>
     (\<forall>a. a \<noteq> VersionHistoryAnnotation \<longrightarrow> annotations_of q a = annotations_of p a) \<longrightarrow> admits q)"

lemma admittedD:
  "admitted admits lg p \<Longrightarrow> key q = key p \<Longrightarrow> represents lg q \<Longrightarrow>
   Annotations q = Some ((annotations_of p)(VersionHistoryAnnotation \<mapsto> h)) \<Longrightarrow> admits q"
  by (simp add: admitted_def annotations_of_def)

context accepting_api
begin

lemma apply_succeeds:
  assumes "wf s" "valid_spec (Spec p)" "json_spec (Spec p)"
    and "case objs s (key p) of None \<Rightarrow> ResourceVersion p = [] \<and> admitted admits (log_apply [] (Spec p)) p
      | Some old \<Rightarrow> \<exists>lg. represents lg old \<and> int (length lg) < 2 ^ 63 - 1 \<and> admitted admits (log_apply lg (Spec p)) p"
  shows "fst (ApplyPolicy c now s p) = None"
proof -
  have valid: "ValidateFinancialPolicy p = []" using assms(2) validate_Nil_iff [of p] by simp
  have get: "kGet c s (Name p) (Namespace p) = (case objs s (key p) of None \<Rightarrow> Inl KNotFound | Some q \<Rightarrow> Inr q)"
    using get_answers [OF assms(1)] by (simp add: key_def)
  show ?thesis
  proof (cases "objs s (key p)")
    case None
    let ?p = "(set_version 1 p)\<lparr>Annotations := Some ((annotations_of p)(VersionHistoryAnnotation \<mapsto> AJson []))\<rparr>"
    have init: "initVersionHistory (set_version 1 p) = Inr ?p"
      by (simp add: initVersionHistory_def json_Marshal_def annotations_of_def Let_def)
    have "represents (log_apply [] (Spec p)) ?p"
      by (rule representsI [where h = "[]"]) (use assms(3) in \<open>simp_all add: log_apply_def numbered_def\<close>)
    then have "admits ?p" using None assms(4) by (intro admittedD) auto
    then have "fst (kCreate c s ?p) = None"
      using None assms(1,4) by (intro create_accepted) (simp_all add: set_version_def)
    then show ?thesis using None valid get init
      by (auto simp: ApplyPolicy_def Let_def split: prod.splits option.splits)
  next
    case (Some old)
    then obtain lg where lg: "represents lg old" "int (length lg) < 2 ^ 63 - 1" "admitted admits (log_apply lg (Spec p)) p"
      using assms(4) by auto
    obtain h where app: "appendVersionHistory now old = Inr (old\<lparr>Annotations :=
        Some ((annotations_of old)(VersionHistoryAnnotation \<mapsto> AJson h))\<rparr>)"
      and h: "map pv_Spec h = keep_last maxVersionHistory lg" "\<forall>x\<in>set h. pv_Version x = Version (pv_Spec x)"
      using lg(1) by (rule represents_append)
    have log: "lg \<noteq> []" "numbered lg" "list_all json_spec lg" "Version (Spec old) = int (length lg)"
      using lg(1) numbered_last by (auto simp: represents_def)
    let ?v = "int (length lg) + 1"
    let ?p = "(set_version ?v p)\<lparr>Annotations := Some ((annotations_of p)(VersionHistoryAnnotation \<mapsto> AJson h)),
       ResourceVersion := ResourceVersion old\<rparr>"
    have v: "int64 ?v = ?v" using lg(2) by (intro int64_id) auto
    have "represents (log_apply lg (Spec p)) ?p"
      by (rule representsI [OF _ _ _ _ _ _ h(2)])
        (use log assms(3) h(1) in \<open>simp_all add: numbered_apply, simp add: log_apply_def\<close>)
    then have "admits ?p" by (intro admittedD [OF lg(3)]) simp_all
    then have "fst (kUpdate c s ?p) = None" using Some assms(1) by (intro update_accepted) simp_all
    moreover have "annotations_of (set_version ?v p) = annotations_of p" by (simp add: annotations_of_def)
    ultimately show ?thesis using Some valid get app log(4) v
      by (auto simp: ApplyPolicy_def Let_def split: prod.splits option.splits)
  qed
qed

lemma rollback_succeeds:
  assumes "wf s" "findPolicyByName c s name = Inr old" "represents lg old" "int (length lg) < 2 ^ 63 - 1"
    and "in_window lg v" "admitted admits (log_rollback lg v) old"
  shows "fst (RollbackPolicy c now s name v) = None"
proof -
  from find_by_name [OF assms(2)] list_member [OF assms(1)] have stored: "objs s (key old) = Some old" by auto
  from assms(3) obtain h0 where parse: "parseVersionHistory old = Inr h0" by (auto simp: represents_def)
  from represents_find [OF assms(3) parse] assms(5)
  obtain t where t: "find (\<lambda>x. pv_Version x = v) h0 = Some t" "pv_Spec t = lg ! nat (v - 1)" by (metis not_None_eq)
  obtain h where app: "appendVersionHistory now old = Inr (old\<lparr>Annotations :=
      Some ((annotations_of old)(VersionHistoryAnnotation \<mapsto> AJson h))\<rparr>)"
    and h: "map pv_Spec h = keep_last maxVersionHistory lg" "\<forall>x\<in>set h. pv_Version x = Version (pv_Spec x)"
    using assms(3) by (rule represents_append)
  have log: "lg \<noteq> []" "numbered lg" "list_all json_spec lg" "Version (Spec old) = int (length lg)"
    using assms(3) numbered_last by (auto simp: represents_def)
  let ?v = "int (length lg) + 1"
  let ?p = "set_phase PolicyPhaseRolledBack (set_version ?v (old\<lparr>Annotations :=
      Some ((annotations_of old)(VersionHistoryAnnotation \<mapsto> AJson h)), Spec := pv_Spec t\<rparr>))"
  have v: "int64 ?v = ?v" using assms(4) by (intro int64_id) auto
  have "nat (v - 1) < length lg" using assms(5) by (auto simp: in_window_def)
  then have "json_spec (lg ! nat (v - 1))" using log(3) by (simp add: list_all_length)
  then have "represents (log_rollback lg v) ?p"
    by (intro representsI [OF _ _ _ _ _ _ h(2)])
      (use log h(1) t(2) in \<open>simp_all add: log_rollback_def numbered_apply, simp add: log_apply_def\<close>)
  then have "admits ?p" by (intro admittedD [OF assms(6)]) simp_all
  moreover have "ResourceVersion ?p = ResourceVersion old" by (simp add: set_phase_def set_version_def)
  ultimately have "\<exists>s1 p1. kUpdate c s ?p = (None, s1, p1) \<and> fst (kStatusUpdate c s1 p1) = None"
    using assms(1) stored by (intro update_then_status) simp_all
  then show ?thesis
    by (auto simp: RollbackPolicy_def assms(2) parse t(1) app log(4) v Let_def split: prod.split option.split)
qed

end

section \<open>Properties\<close>

text \<open>C1: applying a policy whose resource exists is the abstract append: when the call
  succeeds the policy was valid, no other resource changed, the status is kept, and the
  resource represents the old log with the new specification as its next version.\<close>

theorem apply_appends_version:
  fixes wf :: "'s \<Rightarrow> bool"
  assumes "kube_api c wf objs" "wf s" "objs s (key p) = Some old" "represents lg old"
    and "json_spec (Spec p)" "int (length lg) < 2 ^ 63 - 1"
    and "ApplyPolicy c now s p = (None, s', p')"
  shows "valid_spec (Spec p) \<and> wf s' \<and> (\<exists>q. objs s' = (objs s)(key p \<mapsto> q) \<and>
    Status q = Status old \<and> represents (log_apply lg (Spec p)) q)"
  using kube_api.apply_valid [OF assms(1,7)] kube_api.apply_refines [OF assms] validate_Nil_iff [of p]
  by simp

text \<open>C18: whatever a rollback returns, either it failed and nothing changed, or the target
  version was in the window of the last ten and the resource now represents the log with that
  version's specification appended under a new number.\<close>

theorem rollback_appends_target:
  fixes wf :: "'s \<Rightarrow> bool"
  assumes "kube_api c wf objs" "wf s" "findPolicyByName c s name = Inr old" "represents lg old"
    and "int (length lg) < 2 ^ 63 - 1" "RollbackPolicy c now s name v = (r, s')"
  shows "wf s' \<and> (objs s' = objs s \<and> r \<noteq> None \<or>
    in_window lg v \<and> (\<exists>q. objs s' = (objs s)(key old \<mapsto> q) \<and> represents (log_rollback lg v) q))"
  using kube_api.rollback_step [OF assms] by blast

text \<open>A rollback answers that the version is not in the history exactly when it is not one
  of the ten versions before the current one.\<close>

lemma rollback_window:
  assumes "findPolicyByName c s name = Inr old" "represents lg old"
  shows "fst (RollbackPolicy c now s name v) = Some (EVersionNotFound v name) \<longleftrightarrow>
    \<not> (1 \<le> v \<and> int (length lg) - 10 \<le> v \<and> v < int (length lg))"
  using rollback_missing [OF assms, of now v] by (simp add: in_window_def maxVersionHistory_def)

text \<open>C30: \<^verbatim>\<open>RollbackPolicy\<close> sets the phase \<^verbatim>\<open>RolledBack\<close>, but the answer of the update that follows
  overwrites it: after a successful rollback the stored phase is still the old one (unless
  that one was empty).\<close>

theorem rollback_keeps_phase:
  fixes wf :: "'s \<Rightarrow> bool"
  assumes "kube_api c wf objs" "wf s" "findPolicyByName c s name = Inr old" "represents lg old"
    and "int (length lg) < 2 ^ 63 - 1" "RollbackPolicy c now s name v = (None, s')"
    and "Phase (Status old) \<noteq> []"
  shows "\<exists>q. objs s' (key old) = Some q \<and> Phase (Status q) = Phase (Status old)"
  using kube_api.rollback_step [OF assms(1-6)] assms(7) by auto

text \<open>C28: the history of a policy that represents a log is its last eleven versions in ascending
  order, with the specification of each, the current one last.\<close>

theorem history_is_log_suffix:
  assumes "findPolicyByName c s name = Inr p" "represents lg p"
  shows "\<exists>h. GetPolicyHistory c now s name = Inr h \<and> length h = min 11 (length lg) \<and>
    map pv_Spec h = drop (length lg - 11) lg \<and>
    map pv_Version h = map int [Suc (length lg) - length h..<Suc (length lg)]"
proof -
  have "numbered lg" using assms(2) by (simp add: represents_def)
  have eq: "Suc (length lg) - min 11 (length lg) = Suc (length lg - 11)" unfolding min_def by presburger
  from \<open>numbered lg\<close> have "map Version (drop (length lg - 11) lg) = map int (drop (length lg - 11) [1..<Suc (length lg)])"
    unfolding numbered_def by (simp only: drop_map [symmetric])
  then have vers: "map Version (drop (length lg - 11) lg)
      = map int [Suc (length lg) - min 11 (length lg)..<Suc (length lg)]"
    using eq by (simp add: drop_upt del: upt_Suc)
  obtain h where h: "GetPolicyHistory c now s name = Inr h"
    "map pv_Spec h = keep_last (Suc maxVersionHistory) lg"
    "map pv_Version h = map Version (keep_last (Suc maxVersionHistory) lg)"
    by (rule history_of_represents [OF assms])
  from arg_cong [OF h(2), of length] have "length h = min 11 (length lg)"
    by (simp add: maxVersionHistory_def)
  with h vers show ?thesis by (simp add: keep_last_def maxVersionHistory_def)
qed

text \<open>C19: starting from any state in which every resource represents a log of at most \<open>n\<close>
  versions (an empty cluster, for one), every sequence of applications and rollbacks, failed
  ones included, keeps all of them so: numbers stay consecutive, histories stay readable.\<close>

theorem manager_runs_keep_logs:
  fixes wf :: "'s \<Rightarrow> bool"
  assumes "kube_api c wf objs" "wf s" "managed n (objs s)" "list_all op_json ops"
    and "int (n + length ops) < 2 ^ 63"
  shows "wf (fold (manager_step c) ops s) \<and>
    managed (n + length ops) (objs (fold (manager_step c) ops s))"
  using kube_api.run_managed [OF assms] .

text \<open>An application that fails stores nothing; an invalid policy always fails, with all its
  validation errors in the message.\<close>

lemma apply_failure_stores_nothing:
  fixes wf :: "'s \<Rightarrow> bool"
  assumes "kube_api c wf objs" "wf s"
  shows "(ApplyPolicy c now s p = (Some e, s', p') \<longrightarrow> objs s' = objs s) \<and>
    (\<not> valid_spec (Spec p) \<longrightarrow> ApplyPolicy c now s p =
       (Some (EInvalid (error_texts (ValidateFinancialPolicy p))), s, p))"
  using kube_api.apply_failed_frame [OF assms, of now p e s' p'] validate_Nil_iff [of p]
    kube_api.apply_invalid [OF assms(1) refl, of p now s]
  by blast


text \<open>The active policy of a namespace is one of its policies, in phase \<^verbatim>\<open>Active\<close> when any of
  them is, and there is none exactly when the namespace has no policy.\<close>

lemma active_policy_correct:
  fixes wf :: "'s \<Rightarrow> bool"
  assumes "kube_api c wf objs" "wf s" "GetActivePolicy c s ns = Inr r"
  shows "(r = None \<longleftrightarrow> (\<forall>p \<in> ran (objs s). Namespace p \<noteq> ns)) \<and>
    (\<forall>p. r = Some p \<longrightarrow> p \<in> ran (objs s) \<and> Namespace p = ns \<and>
      ((\<exists>q \<in> ran (objs s). Namespace q = ns \<and> Phase (Status q) = PolicyPhaseActive) \<longrightarrow>
        Phase (Status p) = PolicyPhaseActive))"
proof -
  from assms(3) obtain items where items: "kList c s (Some ns) = Inr items"
    by (auto simp: GetActivePolicy_def split: sum.splits)
  note in_ns = kube_api.list_in [OF assms(1,2) items]
  show ?thesis
  proof (cases "find (\<lambda>p. Phase (Status p) = PolicyPhaseActive) items")
    case None
    with assms(3) items have r: "r = (if items = [] then None else Some (items ! 0))"
      by (auto simp: GetActivePolicy_def)
    from None in_ns show ?thesis unfolding r find_None_iff by (cases items) auto
  next
    case (Some p)
    then have p: "p \<in> set items" "Phase (Status p) = PolicyPhaseActive" by (auto simp: find_Some_iff)
    from p(1) have "items \<noteq> []" by auto
    with assms(3) items Some have r: "r = Some p" by (simp add: GetActivePolicy_def)
    from p in_ns show ?thesis unfolding r by auto
  qed
qed

subsection \<open>The properties at work\<close>

definition demo_policy :: "f64 FinancialPolicy" where
  "demo_policy = \<lparr>Name = ''budget'', Namespace = ''team-a'', Annotations = None, ResourceVersion = [],
     Spec = \<lparr>TargetNamespace = ''team-a'',
       Budget = \<lparr>MonthlyLimit = mk 1000, AlertThresholds = [mk 50, mk 80], BreachAction = ''alert''\<rparr>,
       InstanceMix = None, Mode = ''automatic'', Alerting = None, Version = 0\<rparr>,
     Status = \<lparr>Phase = [], CurrentCost = 0, BudgetUsagePercent = 0, LastEvaluated = None,
       Conditions = []\<rparr>\<rparr>"

definition demo_stored :: "int \<Rightarrow> f64 FinancialPolicy" where
  "demo_stored limit = demo_policy\<lparr>Spec := (Spec demo_policy)\<lparr>Version := 2,
       Budget := (Budget (Spec demo_policy))\<lparr>MonthlyLimit := mk limit\<rparr>\<rparr>,
     Annotations := Some [VersionHistoryAnnotation \<mapsto>
       AJson [\<lparr>pv_Version = 1, pv_Spec = (Spec demo_policy)\<lparr>Version := 1\<rparr>, pv_Timestamp = 0\<rparr>]],
     Status := (Status demo_policy)\<lparr>Phase := PolicyPhaseActive\<rparr>\<rparr>"

definition demo_server :: "f64 mem_server" where
  "demo_server = \<lparr>stored = [demo_stored 2000], revision = 7\<rparr>"

definition demo_log :: "f64 FinancialPolicySpec list" where
  "demo_log = [(Spec demo_policy)\<lparr>Version := 1\<rparr>, Spec (demo_stored 2000)]"

lemma demo_valid: "valid_spec (Spec demo_policy)" "json_spec (Spec demo_policy)"
  by (simp_all add: demo_policy_def valid_spec_def validModes_def validBreachActions_def
      policy_constants percent_def cmpLess_def isNaN_def json_spec_def json_number_def lit_f64 mk_0 [symmetric])

lemma demo_represents: "represents demo_log (demo_stored 2000)"
  by (auto simp: represents_def demo_log_def demo_stored_def demo_policy_def numbered_def json_spec_def
      json_number_def parseVersionHistory_def json_Unmarshal_def maxVersionHistory_def
      mk_0 [symmetric])

lemma demo_server_wf: "mem_wf demo_server" "managed 2 (mem_objs demo_server)"
  "mem_objs demo_server (key demo_policy) = Some (demo_stored 2000)"
  "findPolicyByName mem_client demo_server ''budget'' = Inr (demo_stored 2000)"
proof -
  have k: "key (demo_stored 2000) = key demo_policy" by (simp add: demo_stored_def)
  have n: "Name (demo_stored 2000) = ''budget''" by (simp add: demo_stored_def demo_policy_def)
  show "mem_wf demo_server" by (simp add: mem_wf_def demo_server_def)
  show "mem_objs demo_server (key demo_policy) = Some (demo_stored 2000)"
    using k by (simp add: mem_objs_def demo_server_def)
  show "findPolicyByName mem_client demo_server ''budget'' = Inr (demo_stored 2000)"
    using n by (simp add: findPolicyByName_def ListPolicies_def demo_server_def)
  have "length demo_log = 2" by (simp add: demo_log_def)
  moreover have "mem_objs demo_server k = Some p \<Longrightarrow> p = demo_stored 2000" for k p
    by (simp add: mem_objs_def demo_server_def split: if_splits)
  ultimately show "managed 2 (mem_objs demo_server)"
    unfolding managed_def using demo_represents by (metis order_refl)
qed

lemma demo_length: "length demo_log = 2"
  by (simp add: demo_log_def)

lemma demo_apply:
  obtains s' p' where "ApplyPolicy mem_client 5 demo_server demo_policy = (None, s', p')"
proof -
  have "fst (ApplyPolicy mem_client 5 demo_server demo_policy) = None"
    by (rule mem_accepts.apply_succeeds [OF demo_server_wf(1) demo_valid])
      (use demo_represents demo_length in \<open>auto simp: demo_server_wf(3) admitted_def intro!: exI [of _ demo_log]\<close>)
  with that show thesis by (cases "ApplyPolicy mem_client 5 demo_server demo_policy") auto
qed

lemma demo_window: "in_window demo_log 1"
  by (simp add: in_window_def demo_log_def maxVersionHistory_def)

lemma demo_rollback:
  obtains s' where "RollbackPolicy mem_client 5 demo_server ''budget'' 1 = (None, s')"
proof -
  have "fst (RollbackPolicy mem_client 5 demo_server ''budget'' 1) = None"
    by (rule mem_accepts.rollback_succeeds [OF demo_server_wf(1,4) demo_represents _ demo_window])
      (simp_all add: demo_length admitted_def)
  with that show thesis by (cases "RollbackPolicy mem_client 5 demo_server ''budget'' 1") auto
qed

lemma apply_appends_version_witness:
  "\<exists>s' p' q. ApplyPolicy mem_client 5 demo_server demo_policy = (None, s', p') \<and>
     mem_objs s' = (mem_objs demo_server)(key demo_policy \<mapsto> q) \<and>
     represents (log_apply demo_log (Spec demo_policy)) q"
proof -
  obtain s' p' where run: "ApplyPolicy mem_client 5 demo_server demo_policy = (None, s', p')"
    by (rule demo_apply)
  from apply_appends_version [OF mem.kube_api_axioms, OF demo_server_wf(1,3) demo_represents demo_valid(2)
      _ run] demo_length run
  show ?thesis by auto
qed

lemma rollback_appends_target_witness:
  "\<exists>s' q. RollbackPolicy mem_client 5 demo_server ''budget'' 1 = (None, s') \<and>
     mem_objs s' = (mem_objs demo_server)(key (demo_stored 2000) \<mapsto> q) \<and>
     represents (log_rollback demo_log 1) q"
proof -
  obtain s' where run: "RollbackPolicy mem_client 5 demo_server ''budget'' 1 = (None, s')"
    by (rule demo_rollback)
  from rollback_appends_target [OF mem.kube_api_axioms, OF demo_server_wf(1,4) demo_represents _ run]
    demo_length run
  show ?thesis by auto
qed

lemma rollback_window_witness:
  "fst (RollbackPolicy mem_client 5 demo_server ''budget'' 2) = Some (EVersionNotFound 2 ''budget'')"
  using rollback_window [OF demo_server_wf(4) demo_represents, of 5 2] by (simp add: demo_length)

lemma rollback_keeps_phase_witness:
  "\<exists>s' q. RollbackPolicy mem_client 5 demo_server ''budget'' 1 = (None, s') \<and>
     mem_objs s' (key (demo_stored 2000)) = Some q \<and> Phase (Status q) = PolicyPhaseActive"
proof -
  obtain s' where run: "RollbackPolicy mem_client 5 demo_server ''budget'' 1 = (None, s')"
    by (rule demo_rollback)
  have ph: "Phase (Status (demo_stored 2000)) = PolicyPhaseActive" by (simp add: demo_stored_def)
  then have "Phase (Status (demo_stored 2000)) \<noteq> []" by (simp add: policy_constants)
  from rollback_keeps_phase [OF mem.kube_api_axioms, OF demo_server_wf(1,4) demo_represents _ run this]
    demo_length run ph
  show ?thesis by auto
qed

lemma history_is_log_suffix_witness:
  "\<exists>h. GetPolicyHistory mem_client 5 demo_server ''budget'' = Inr h \<and> map pv_Version h = [1, 2]"
proof -
  from history_is_log_suffix [OF demo_server_wf(4) demo_represents, of 5] obtain h where
    "GetPolicyHistory mem_client 5 demo_server ''budget'' = Inr h" "length h = 2"
    "map pv_Version h = map int [Suc (length demo_log) - length h..<Suc (length demo_log)]"
    by (auto simp: demo_length)
  then show ?thesis by (auto simp: demo_length upt_rec)
qed

lemma manager_runs_keep_logs_witness:
  "managed 4 (mem_objs (fold (manager_step mem_client)
     [OpApply 5 demo_policy, OpRollback 6 ''budget'' 1] demo_server))"
  using manager_runs_keep_logs [OF mem.kube_api_axioms, OF demo_server_wf(1,2),
      of "[OpApply 5 demo_policy, OpRollback 6 ''budget'' 1]"] demo_valid(2) by simp

lemma apply_failure_stores_nothing_witness:
  "ApplyPolicy mem_client 5 demo_server (demo_policy\<lparr>Spec := (Spec demo_policy)\<lparr>TargetNamespace := []\<rparr>\<rparr>) =
     (Some (EInvalid [Txt ''spec.targetNamespace: '', Txt ''targetNamespace must be non-empty'']),
      demo_server, demo_policy\<lparr>Spec := (Spec demo_policy)\<lparr>TargetNamespace := []\<rparr>\<rparr>)"
proof -
  let ?p = "demo_policy\<lparr>Spec := (Spec demo_policy)\<lparr>TargetNamespace := []\<rparr>\<rparr>"
  have "\<not> valid_spec (Spec ?p)" by (simp add: valid_spec_def)
  moreover have "error_texts (ValidateFinancialPolicy ?p) =
      [Txt ''spec.targetNamespace: '', Txt ''targetNamespace must be non-empty'']"
    by (simp add: ValidateFinancialPolicy_def check_required_def check_enums_def check_instance_mix_def
        check_thresholds_def check_alerting_def demo_policy_def validModes_def validBreachActions_def
        policy_constants collect_def cmpLess_def isNaN_def lit_f64 mk_0 [symmetric] error_texts_def
        error_text_def)
  ultimately show ?thesis
    using apply_failure_stores_nothing [OF mem.kube_api_axioms, OF demo_server_wf(1), of 5 ?p] by simp
qed


lemma active_policy_correct_witness:
  "GetActivePolicy mem_client demo_server ''team-a'' = Inr (Some (demo_stored 2000)) \<and>
   Phase (Status (demo_stored 2000)) = PolicyPhaseActive"
proof -
  have run: "GetActivePolicy mem_client demo_server ''team-a'' = Inr (Some (demo_stored 2000))"
    by (simp add: GetActivePolicy_def demo_server_def demo_stored_def demo_policy_def policy_constants)
  have "demo_stored 2000 \<in> ran (mem_objs demo_server)" 
    using demo_server_wf(3) unfolding ran_def by blast
  moreover have "Namespace (demo_stored 2000) = ''team-a''"
    "Phase (Status (demo_stored 2000)) = PolicyPhaseActive"
    by (simp_all add: demo_stored_def demo_policy_def)
  ultimately show ?thesis
    using active_policy_correct [OF mem.kube_api_axioms, OF demo_server_wf(1) run] run by blast
qed

end
