(* ===== verification/Cost_Types.thy ===== *)
theory Cost_Types
  imports Prelude
begin

text \<open>
  The data of \<^verbatim>\<open>pkg/collector/types.go\<close>: measured usage, costs reported by AWS, and costs
  aggregated by namespace and team. A Go map that may be nil is an option of a partial map;
  the maps of pointers in \<open>AggregatedCosts\<close> hold the structs themselves, since the code never
  shares one between two keys and never stores nil.
\<close>

type_synonym labels = "(string \<rightharpoonup> string) option"

text \<open>Reading a nil map finds nothing.\<close>

definition label :: "labels \<Rightarrow> string \<Rightarrow> string option" where
  "label ls k = (case ls of None \<Rightarrow> None | Some m \<Rightarrow> m k)"

lemma label_simps [simp]: "label None k = None" "label (Some m) k = m k"
  by (simp_all add: label_def)

record 'f PodMetrics =
  pm_Name :: string
  pm_Namespace :: string
  pm_NodeName :: string
  pm_CPUUsage :: 'f
  pm_MemUsage :: 'f
  pm_NetUsage :: 'f
  pm_Storage :: 'f
  pm_Labels :: labels

record 'f NodeMetrics =
  nm_Name :: string
  nm_InstanceType :: string
  nm_PurchaseOption :: string
  nm_CPUCapacity :: 'f
  nm_CPUUsage :: 'f
  nm_MemCapacity :: 'f
  nm_MemUsage :: 'f
  nm_NetUsage :: 'f
  nm_Storage :: 'f
  nm_Labels :: labels

record 'f ClusterMetrics =
  cm_Timestamp :: time
  cm_Pods :: "'f PodMetrics list"
  cm_Nodes :: "'f NodeMetrics list"

record 'f AWSCostData =
  aws_StartTime :: time
  aws_EndTime :: time
  aws_ByService :: "string \<rightharpoonup> 'f"
  aws_ByTag :: "string \<rightharpoonup> 'f"
  aws_TotalCost :: 'f
  aws_IsApproximate :: bool

record 'f CURLineItem =
  li_ResourceID :: string
  li_ServiceCode :: string
  li_UsageType :: string
  li_PurchaseOption :: string
  li_Cost :: 'f
  li_Tags :: labels

record 'f CURData =
  cur_StartTime :: time
  cur_EndTime :: time
  cur_LineItems :: "'f CURLineItem list"
  cur_TotalCost :: 'f

record 'f NamespaceCost =
  nc_Namespace :: string
  nc_Team :: string
  nc_DirectCost :: 'f
  nc_SharedCost :: 'f
  nc_TotalCost :: 'f
  nc_ByService :: "string \<rightharpoonup> 'f"
  nc_ByPod :: "string \<rightharpoonup> 'f"
  nc_IsApproximate :: bool

record 'f TeamCost =
  tc_Team :: string
  tc_DirectCost :: 'f
  tc_IndirectCost :: 'f
  tc_TotalCost :: 'f
  tc_Namespaces :: "string \<rightharpoonup> 'f"

record 'f AggregatedCosts =
  ag_Timestamp :: time
  ag_ByNamespace :: "string \<rightharpoonup> 'f NamespaceCost"
  ag_ByTeam :: "string \<rightharpoonup> 'f TeamCost"
  ag_TotalCost :: 'f

record 'f DailyCostRecord =
  dr_Date :: time
  dr_Namespace :: string
  dr_TotalCost :: 'f
  dr_DayOfWeek :: int
  dr_DayOfMonth :: int

section \<open>Sums of groups\<close>

text \<open>
  The reference for the aggregation loops: the cost of a group is the running sum, in the
  order of the list, of the costs of its members; \<open>group_map\<close> has an entry for every key
  a member has.
\<close>

definition group_sum :: "('p \<Rightarrow> bool) \<Rightarrow> ('p \<Rightarrow> 'f) \<Rightarrow> 'p list \<Rightarrow> 'f::{zero,plus}" where
  "group_sum P cost ps = fold (\<lambda>p s. s + cost p) (filter P ps) 0"

definition group_map ::
    "('p \<Rightarrow> 'k) \<Rightarrow> ('p \<Rightarrow> bool) \<Rightarrow> ('p \<Rightarrow> 'f) \<Rightarrow> 'p list \<Rightarrow> ('k \<rightharpoonup> 'f::{zero,plus})" where
  "group_map k P cost ps = (\<lambda>x. if \<exists>p\<in>set ps. P p \<and> k p = x
     then Some (group_sum (\<lambda>p. P p \<and> k p = x) cost ps) else None)"

lemma group_sum_snoc:
  "group_sum P cost (ps @ [p]) = (if P p then group_sum P cost ps + cost p else group_sum P cost ps)"
  by (simp add: group_sum_def)

lemma group_sum_Nil [simp]: "group_sum P cost [] = 0"
  by (simp add: group_sum_def)

lemma group_sum_none: "(\<And>p. p \<in> set ps \<Longrightarrow> \<not> P p) \<Longrightarrow> group_sum P cost ps = 0"
  by (simp add: group_sum_def filter_False)

lemma group_map_Nil [simp]: "group_map k P cost [] = Map.empty"
  by (simp add: group_map_def)

lemma group_map_none:
  "(\<And>p. p \<in> set ps \<Longrightarrow> \<not> P p) \<Longrightarrow> group_map k P cost ps = Map.empty"
  by (auto simp: group_map_def fun_eq_iff)

lemma dom_group_map: "dom (group_map k P cost ps) = k ` {p \<in> set ps. P p}"
  by (auto simp: group_map_def split: if_splits)

lemma at0_group_map: "at0 (group_map k P cost ps) x = group_sum (\<lambda>p. P p \<and> k p = x) cost ps"
  using group_sum_none [of ps "\<lambda>p. P p \<and> k p = x" cost] by (auto simp: at0_def group_map_def)

lemma group_map_snoc:
  "group_map k P cost (ps @ [p]) =
     (if P p then add_at (k p) (cost p) (group_map k P cost ps) else group_map k P cost ps)"
proof (cases "P p")
  case True
  have "group_map k P cost (ps @ [p]) x = add_at (k p) (cost p) (group_map k P cost ps) x" for x
  proof (cases "k p = x")
    case eq: True
    have "add_at (k p) (cost p) (group_map k P cost ps) x =
        Some (at0 (group_map k P cost ps) x + cost p)"
      using eq by (simp add: add_at_def at0_def)
    then show ?thesis
      using eq True by (simp add: at0_group_map) (simp add: group_map_def group_sum_snoc)
  qed (auto simp: add_at_def group_map_def group_sum_snoc)
  with True show ?thesis by auto
next
  case False
  then show ?thesis by (auto simp: group_map_def group_sum_snoc fun_eq_iff)
qed

lemma group_sum_cong:
  "(\<And>p. p \<in> set ps \<Longrightarrow> P p = Q p) \<Longrightarrow> (\<And>p. p \<in> set ps \<Longrightarrow> Q p \<Longrightarrow> cost p = cost' p) \<Longrightarrow>
   group_sum P cost ps = group_sum Q cost' ps"
  by (auto simp: group_sum_def intro!: fold_cong cong: filter_cong)

lemma group_map_cong:
  "(\<And>p. p \<in> set ps \<Longrightarrow> P p = Q p) \<Longrightarrow> (\<And>p. p \<in> set ps \<Longrightarrow> Q p \<Longrightarrow> cost p = cost' p) \<Longrightarrow>
   group_map k P cost ps = group_map k Q cost' ps"
  by (auto simp: group_map_def fun_eq_iff intro!: group_sum_cong)

text \<open>In exact arithmetic the groups of a partition add up to the whole.\<close>

lemma group_sum_real: "group_sum P cost ps = (\<Sum>p\<leftarrow>filter P ps. cost p)" for cost :: "'p \<Rightarrow> real"
  by (simp add: group_sum_def fold_add_real)

lemma group_sum_partition:
  fixes cost :: "'p \<Rightarrow> real"
  assumes "finite K" "\<And>p. p \<in> set ps \<Longrightarrow> P p \<Longrightarrow> k p \<in> K"
  shows "(\<Sum>x\<in>K. group_sum (\<lambda>p. P p \<and> k p = x) cost ps) = group_sum P cost ps"
  using assms(2)
proof (induction ps rule: rev_induct)
  case (snoc p ps)
  have "(\<Sum>x\<in>K. group_sum (\<lambda>p. P p \<and> k p = x) cost (ps @ [p])) =
      (\<Sum>x\<in>K. group_sum (\<lambda>p. P p \<and> k p = x) cost ps + (if P p \<and> x = k p then cost p else 0))"
    by (rule sum.cong) (auto simp: group_sum_snoc)
  also have "\<dots> = group_sum P cost ps + (if P p then cost p else 0)"
    using snoc assms(1) by (cases "P p") (auto simp: sum.distrib)
  finally show ?case by (simp add: group_sum_snoc)
qed simp

lemma sum_group_map:
  fixes cost :: "'p \<Rightarrow> real"
  shows "(\<Sum>x\<in>dom (group_map k P cost ps). the (group_map k P cost ps x)) = group_sum P cost ps"
proof -
  have "(\<Sum>x\<in>dom (group_map k P cost ps). the (group_map k P cost ps x)) =
      (\<Sum>x\<in>dom (group_map k P cost ps). group_sum (\<lambda>p. P p \<and> k p = x) cost ps)"
    by (rule sum.cong) (auto simp: group_map_def split: if_splits)
  also have "\<dots> = group_sum P cost ps"
    by (rule group_sum_partition) (auto simp: dom_group_map)
  finally show ?thesis .
qed

end
