(* ===== verification/Backoff.thy ===== *)
theory Backoff
  imports Prelude
begin

text \<open>
  \<^verbatim>\<open>pkg/collector/backoff.go\<close>: calls are retried with growing, jittered delays while their error
  is transient. An error is what the code can ask of it: the code of an AWS API error, the HTTP
  status it carries, and its message.
\<close>

section \<open>Errors\<close>

record go_error =
  ge_ErrorCode :: "string option"
  ge_HTTPStatusCode :: "int option"
  ge_Error :: string

definition isRetryableError :: "go_error option \<Rightarrow> bool" where
  "isRetryableError err = (case err of None \<Rightarrow> False | Some e \<Rightarrow>
     (case ge_ErrorCode e of
        Some apiCode \<Rightarrow>
          (case ge_HTTPStatusCode e of
             Some code \<Rightarrow> code = 429 \<or> 500 \<le> code
           | None \<Rightarrow> apiCode \<in> {''Throttling'', ''ThrottlingException'', ''RequestLimitExceeded'',
                                ''TooManyRequestsException''})
      | None \<Rightarrow> Contains (ge_Error e) ''connection reset'' \<or> Contains (ge_Error e) ''connection refused'' \<or>
                Contains (ge_Error e) ''i/o timeout''))"

section \<open>Delays\<close>

definition baseDelay :: int where "baseDelay = second"

definition maxDelay :: int where "maxDelay = 32 * second"

text \<open>
  \<^verbatim>\<open>math.Pow(2, float64(attempt))\<close> is exact. \<open>u\<close> is the value \<^verbatim>\<open>rand.Float64()\<close> returns, a number
  of [0, 1).
\<close>

definition backoff_delay ::
    "nat \<Rightarrow> 'f::{zero,one,ord,plus,minus,times,size,scaleR} \<Rightarrow> int" where
  "backoff_delay attempt u =
     (let delay = trunc (of_count baseDelay * (lit (2 ^ attempt) :: 'f));
          capped = (if maxDelay < delay then maxDelay else delay);
          jitterRange = of_count capped * lit (1/4);
          jitterOffset = (u * lit 2 - 1) * jitterRange;
          jittered = trunc (of_count capped + jitterOffset)
      in if jittered < 0 then 0 else jittered)"

section \<open>The loop\<close>

text \<open>
  \<open>fn\<close> is the call, \<open>wait\<close> sleeps for a delay and answers the context's error if it is done
  first, \<open>jit n\<close> is the random number of the \<open>n\<close>-th delay. \<open>retry_from k n\<close> is the loop at
  attempt \<open>n\<close> with \<open>k\<close> attempts left after it.
\<close>

fun retry_from ::
    "('s \<Rightarrow> go_error option \<times> 's) \<Rightarrow> (int \<Rightarrow> 's \<Rightarrow> go_error option \<times> 's) \<Rightarrow>
     (nat \<Rightarrow> 'f::{zero,one,ord,plus,minus,times,size,scaleR}) \<Rightarrow> nat \<Rightarrow> nat \<Rightarrow> 's \<Rightarrow>
     go_error option \<times> 's" where
  "retry_from fn wait jit k attempt s =
     (case fn s of
        (None, s1) \<Rightarrow> (None, s1)
      | (Some lastErr, s1) \<Rightarrow>
          if \<not> isRetryableError (Some lastErr) then (Some lastErr, s1)
          else (case k of
             0 \<Rightarrow> (Some lastErr, s1)
           | Suc k' \<Rightarrow>
               (case wait (backoff_delay attempt (jit attempt)) s1 of
                  (Some ctxErr, s2) \<Rightarrow> (Some ctxErr, s2)
                | (None, s2) \<Rightarrow> retry_from fn wait jit k' (Suc attempt) s2)))"

declare retry_from.simps [simp del]

text \<open>With a negative number of retries the body of the loop never runs.\<close>

definition retryWithBackoff ::
    "('s \<Rightarrow> go_error option \<times> 's) \<Rightarrow> (int \<Rightarrow> 's \<Rightarrow> go_error option \<times> 's) \<Rightarrow>
     (nat \<Rightarrow> 'f::{zero,one,ord,plus,minus,times,size,scaleR}) \<Rightarrow> int \<Rightarrow> 's \<Rightarrow> go_error option \<times> 's" where
  "retryWithBackoff fn wait jit maxRetries s =
     (if maxRetries < 0 then (None, s) else retry_from fn wait jit (nat maxRetries) 0 s)"

section \<open>What the loop computes\<close>

text \<open>
  The reference: the calls and the waits give a sequence of outcomes, and the result is the first
  one that ends the loop. \<open>runs n s\<close> is the state after \<open>n\<close> transient failures with their waits, if
  there were that many.
\<close>

definition transient_step ::
    "('s \<Rightarrow> go_error option \<times> 's) \<Rightarrow> (int \<Rightarrow> 's \<Rightarrow> go_error option \<times> 's) \<Rightarrow> int \<Rightarrow> 's \<Rightarrow> 's option" where
  "transient_step fn wait d s = (case fn s of (e, s1) \<Rightarrow>
     if isRetryableError e then (case wait d s1 of (None, s2) \<Rightarrow> Some s2 | _ \<Rightarrow> None) else None)"

fun runs ::
    "('s \<Rightarrow> go_error option \<times> 's) \<Rightarrow> (int \<Rightarrow> 's \<Rightarrow> go_error option \<times> 's) \<Rightarrow>
     (nat \<Rightarrow> 'f::{zero,one,ord,plus,minus,times,size,scaleR}) \<Rightarrow> nat \<Rightarrow> nat \<Rightarrow> 's \<Rightarrow> 's option" where
  "runs fn wait jit attempt 0 s = Some s"
| "runs fn wait jit attempt (Suc n) s =
     (case transient_step fn wait (backoff_delay attempt (jit attempt)) s of
        None \<Rightarrow> None | Some s' \<Rightarrow> runs fn wait jit (Suc attempt) n s')"

lemma isRetryableError_None [simp]: "\<not> isRetryableError None"
  by (simp add: isRetryableError_def)

text \<open>
  The loop ends after some number of transient failures, at most the number of retries, with the
  outcome of one more call, or with the context's error after it.
\<close>

lemma retry_from_ends:
  "\<exists>n\<le>k. \<exists>sn. runs fn wait jit a n s = Some sn \<and>
     (retry_from fn wait jit k a s = fn sn \<and> (isRetryableError (fst (fn sn)) \<longrightarrow> n = k) \<or>
      (\<exists>c s'. n < k \<and> isRetryableError (fst (fn sn)) \<and>
        wait (backoff_delay (a + n) (jit (a + n))) (snd (fn sn)) = (Some c, s') \<and>
        retry_from fn wait jit k a s = (Some c, s')))"
proof (induction k arbitrary: a s)
  case 0
  show ?case by (cases "fn s") (auto simp: retry_from.simps split: option.split)
next
  case (Suc k)
  obtain e s1 where fn: "fn s = (e, s1)" by (cases "fn s")
  show ?case
  proof (cases "isRetryableError e")
    case False
    then have "retry_from fn wait jit (Suc k) a s = fn s"
      by (auto simp: retry_from.simps fn split: option.split)
    with False fn show ?thesis by (intro exI [of _ 0] conjI exI [of _ s]) auto
  next
    case True
    then obtain err where e: "e = Some err" by (cases e) auto
    obtain w s2 where wait: "wait (backoff_delay a (jit a)) s1 = (w, s2)"
      by (cases "wait (backoff_delay a (jit a)) s1")
    show ?thesis
    proof (cases w)
      case (Some c)
      with True e fn wait have "retry_from fn wait jit (Suc k) a s = (Some c, s2)"
        by (simp add: retry_from.simps)
      with True fn wait Some show ?thesis by (intro exI [of _ 0] conjI exI [of _ s]) auto
    next
      case None
      with True e fn wait have more: "retry_from fn wait jit (Suc k) a s = retry_from fn wait jit k (Suc a) s2"
        and step: "transient_step fn wait (backoff_delay a (jit a)) s = Some s2"
        by (simp_all add: retry_from.simps [of _ _ _ "Suc k"] transient_step_def)
      from Suc.IH [of "Suc a" s2] obtain n sn where
        "n \<le> k" "runs fn wait jit (Suc a) n s2 = Some sn"
        "retry_from fn wait jit k (Suc a) s2 = fn sn \<and> (isRetryableError (fst (fn sn)) \<longrightarrow> n = k) \<or>
         (\<exists>c s'. n < k \<and> isRetryableError (fst (fn sn)) \<and>
           wait (backoff_delay (Suc a + n) (jit (Suc a + n))) (snd (fn sn)) = (Some c, s') \<and>
           retry_from fn wait jit k (Suc a) s2 = (Some c, s'))" by blast
      then show ?thesis unfolding more by (intro exI [of _ "Suc n"] conjI exI [of _ sn]) (auto simp: step)
    qed
  qed
qed

text \<open>A counter that only the call raises, by one, counts the transient failures.\<close>

lemma runs_count:
  assumes "\<And>s. calls (snd (fn s)) = Suc (calls s)" "\<And>d s. calls (snd (wait d s)) = calls s"
  shows "runs fn wait jit a n s = Some s' \<Longrightarrow> calls s' = calls s + n"
proof (induction n arbitrary: a s)
  case (Suc n)
  from Suc.prems obtain s1 where step: "transient_step fn wait (backoff_delay a (jit a)) s = Some s1"
    "runs fn wait jit (Suc a) n s1 = Some s'" by (auto split: option.splits)
  then have "calls s1 = Suc (calls s)"
    using assms(1) [of s] assms(2) [of "backoff_delay a (jit a)" "snd (fn s)"]
    by (auto simp: transient_step_def split: prod.splits if_splits option.splits)
  with Suc.IH [OF step(2)] show ?case by simp
qed simp

section \<open>Jitter in floating point\<close>

text \<open>A delay of \<open>4 * q\<close> with a jitter of at most a quarter stays between \<open>3 * q\<close> and \<open>5 * q\<close>.\<close>

lemma jitter_between:
  fixes q :: int and u :: f64
  assumes q: "0 \<le> q" "\<And>k. \<bar>k\<bar> \<le> 8 \<Longrightarrow> exact64 (of_int (k * q))"
    and u: "is_fin u" "0 \<le> to_real u" "to_real u \<le> 1"
  defines "w \<equiv> mk (of_int (4 * q)) + (u * lit 2 - 1) * mk (of_int q)"
  shows "3 * q \<le> trunc w" "trunc w \<le> 5 * q"
proof -
  have fq: "exact64 (of_int q)" "exact64 (of_int (4 * q))" "exact64 (of_int (3 * q))" "exact64 (of_int (5 * q))"
    using q(2) [of 1] q(2) [of 4] q(2) [of 3] q(2) [of 5] by simp_all
  define x where "x = u * lit 2"
  define y where "y = x - 1"
  define z where "z = y * mk (of_int q)"
  have x: "is_fin x" "0 \<le> to_real x" "to_real x \<le> 2"
    using mk_between [of 0 "to_real u * 2" 2] u fin_ops(3) [OF u(1), of "mk 2"]
    by (simp_all add: x_def lit_f64)
  have y: "is_fin y" "- 1 \<le> to_real y" "to_real y \<le> 1"
    using mk_between [of "-1" "to_real x - 1" 1] x fin_ops(2) [OF x(1) ieee.fin_one] to_real_mk [of 1]
    by (simp_all add: y_def mk_1)
  have yq: "- of_int q \<le> to_real y * of_int q" "to_real y * of_int q \<le> of_int q"
    using y(2,3) q(1) mult_right_mono [of "-1" "to_real y" "of_int q"]
      mult_right_mono [of "to_real y" 1 "of_int q"] by simp_all
  have z: "is_fin z" "- of_int q \<le> to_real z" "to_real z \<le> of_int q"
    using mk_between [OF yq] fq(1) fin_ops(3) [OF y(1), of "mk (of_int q)"] by (simp_all add: z_def)
  have w: "w = mk (of_int (4 * q)) + z" by (simp add: w_def x_def y_def z_def)
  have bounds: "is_fin w" "of_int (3 * q) \<le> to_real w" "to_real w \<le> of_int (5 * q)"
    using mk_between [of "of_int (3 * q)" "of_int (4 * q) + to_real z" "of_int (5 * q)"] fq z
      fin_ops(1) [OF _ z(1), of "mk (of_int (4 * q))"] by (simp_all add: w)
  have "trunc w = \<lfloor>to_real w\<rfloor>"
    using bounds q(1) by (intro trunc_fin) (auto intro: order_trans [rotated])
  with bounds(2,3) show "3 * q \<le> trunc w" "trunc w \<le> 5 * q"
    by (simp_all add: le_floor_iff floor_le_iff del: of_int_mult)
qed

text \<open>The delays without jitter are exact: they are small integers.\<close>

lemma delay_exact: "\<bar>k\<bar> \<le> 2 ^ 20 * 1000000000 \<Longrightarrow> exact64 (of_int k)"
  by (rule exact64_of_int) simp

lemma delay_value:
  assumes "n \<le> 20"
  shows "trunc (of_count baseDelay * (lit (2 ^ n) :: f64)) = second * 2 ^ n"
proof -
  have "(2::int) ^ n \<le> 2 ^ 20" using assms by (intro power_increasing) auto
  then have ex: "exact64 (of_int second)" "exact64 (of_int (2 ^ n))" "exact64 (of_int (second * 2 ^ n))"
    by (intro delay_exact; simp add: time_units)+
  have "of_count baseDelay * (lit (2 ^ n) :: f64) = mk (of_int (second * 2 ^ n))"
    using ex(1,2) by (simp add: of_count_def lit_f64 baseDelay_def)
  with trunc_mk [OF ex(3)] show ?thesis by (simp add: time_units del: of_int_mult)
qed

section \<open>Properties\<close>

text \<open>C21: a retried call ends after some number of transient failures, at most the number of
  retries, with the outcome of one more call (an error that is still transient only when the
  retries are used up) or, when the context is done during the wait after that call, with the
  context's error.\<close>

theorem retry_outcome:
  assumes "0 \<le> maxRetries"
  shows "\<exists>n sn. int n \<le> maxRetries \<and> runs fn wait jit 0 n s = Some sn \<and>
     (retryWithBackoff fn wait jit maxRetries s = fn sn \<and>
        (isRetryableError (fst (fn sn)) \<longrightarrow> int n = maxRetries) \<or>
      (\<exists>c s'. int n < maxRetries \<and> isRetryableError (fst (fn sn)) \<and>
        wait (backoff_delay n (jit n)) (snd (fn sn)) = (Some c, s') \<and>
        retryWithBackoff fn wait jit maxRetries s = (Some c, s')))"
proof -
  from retry_from_ends [of "nat maxRetries" fn wait jit 0 s] obtain n sn where
    "n \<le> nat maxRetries" "runs fn wait jit 0 n s = Some sn"
    "retry_from fn wait jit (nat maxRetries) 0 s = fn sn \<and>
       (isRetryableError (fst (fn sn)) \<longrightarrow> n = nat maxRetries) \<or>
     (\<exists>c s'. n < nat maxRetries \<and> isRetryableError (fst (fn sn)) \<and>
        wait (backoff_delay n (jit n)) (snd (fn sn)) = (Some c, s') \<and>
        retry_from fn wait jit (nat maxRetries) 0 s = (Some c, s'))" by auto
  with assms show ?thesis
    by (intro exI [of _ n] exI [of _ sn]) (auto simp: retryWithBackoff_def)
qed

text \<open>The call is made at least once and at most \<^verbatim>\<open>maxRetries + 1\<close> times, whatever it answers
  (\<open>calls\<close> is any count that each call raises by one and no wait changes).\<close>

lemma retry_call_count:
  assumes "\<And>s. calls (snd (fn s)) = Suc (calls s)" "\<And>d s. calls (snd (wait d s)) = calls s"
    and "0 \<le> maxRetries" "retryWithBackoff fn wait jit maxRetries s = (r, s')"
  shows "calls s < calls s' \<and> int (calls s') \<le> int (calls s) + maxRetries + 1"
proof -
  from retry_from_ends [of "nat maxRetries" fn wait jit 0 s] obtain n sn c d where
    n: "n \<le> nat maxRetries" "runs fn wait jit 0 n s = Some sn"
    "(r, s') = fn sn \<or> wait d (snd (fn sn)) = (Some c, s')"
    using assms(3,4) by (auto simp: retryWithBackoff_def)
  then have "calls s' = Suc (calls sn)"
    using assms(1) [of sn] assms(2) [of d "snd (fn sn)"] by (metis snd_conv)
  with runs_count [OF assms(1,2) n(2)] n(1) assms(3) show ?thesis by simp
qed

text \<open>C34: the wait before attempt \<open>n + 1\<close> lies within a quarter of \<open>2 ^ n\<close> seconds, capped at 32
  seconds, in the code's floating point and for every value of the random generator.\<close>

theorem backoff_delay_range:
  assumes "n \<le> 20" "is_fin u" "0 \<le> u" "u \<le> 1"
    and "base = (if n < 5 then 2 ^ n * second else 32 * second)"
  shows "base - base div 4 \<le> backoff_delay n u \<and> backoff_delay n u \<le> base + base div 4"
proof -
  have small: "n < 5 \<Longrightarrow> (2::int) ^ n \<le> 2 ^ 4" by (intro power_increasing) auto
  have big: "\<not> n < 5 \<Longrightarrow> (2::int) ^ 5 \<le> 2 ^ n" by (intro power_increasing) auto
  define q where "q = (if n < 5 then 2 ^ n * 250000000 else 8 * second)"
  have q: "base = 4 * q" "0 \<le> q" "q \<le> 8 * second"
    using small by (auto simp: q_def assms(5) time_units)
  have cap: "(if maxDelay < second * 2 ^ n then maxDelay else second * 2 ^ n) = 4 * q"
    using small big q(1) assms(5) by (cases "n < 5") (auto simp: maxDelay_def time_units)
  have exq: "exact64 (of_int (k * q))" if "\<bar>k\<bar> \<le> 8" for k
    using q(2,3) that mult_mono [of "\<bar>k\<bar>" 8 "\<bar>q\<bar>" "8 * second"]
    by (intro delay_exact) (simp add: abs_mult time_units)
  have u: "0 \<le> to_real u" "to_real u \<le> 1"
    using assms(2-4) fin_order(2) [of 0 u] fin_order(2) [of u 1] ieee.fin_zero ieee.fin_one
      to_real_mk [of 1] by (simp_all add: mk_1)
  have quarter: "mk (of_int (4 * q)) * mk (1/4) = mk (of_int q)"
    using exq [of 4] exact64_dyadic [of 1 2] by simp
  have "backoff_delay n u =
      (let j = trunc (mk (of_int (4 * q)) + (u * lit 2 - 1) * mk (of_int q)) in if j < 0 then 0 else j)"
    unfolding backoff_delay_def delay_value [OF assms(1)] cap Let_def
    by (simp add: of_count_def lit_f64 quarter del: of_int_mult mk_mult)
  with jitter_between [OF q(2) exq assms(2) u] q show ?thesis by (simp add: Let_def)
qed

subsection \<open>The properties at work\<close>

text \<open>A service whose answers are a script, with a count of the calls.\<close>

definition scripted :: "go_error option list \<times> nat \<Rightarrow> go_error option \<times> (go_error option list \<times> nat)" where
  "scripted s = (case fst s of [] \<Rightarrow> (None, ([], Suc (snd s))) | e # es \<Rightarrow> (e, (es, Suc (snd s))))"

definition sleep_on :: "int \<Rightarrow> 's \<Rightarrow> go_error option \<times> 's" where
  "sleep_on d s = (None, s)"

definition throttled :: go_error where
  "throttled = \<lparr>ge_ErrorCode = Some ''ThrottlingException'', ge_HTTPStatusCode = Some 429, ge_Error = ''throttled''\<rparr>"

lemma retry_outcome_witness:
  "\<exists>n. int n \<le> 1 \<and> runs scripted sleep_on (\<lambda>_. mk 0) 0 n ([Some throttled, None], 0) \<noteq> None"
  using retry_outcome [of 1 scripted sleep_on "\<lambda>_. mk 0" "([Some throttled, None], 0)"] by auto

lemma retry_call_count_witness:
  "snd (snd (retryWithBackoff scripted sleep_on (\<lambda>_. mk 0) 5 (replicate 9 (Some throttled), 0))) \<le> 6"
proof -
  obtain r s' where run: "retryWithBackoff scripted sleep_on (\<lambda>_. mk 0) 5 (replicate 9 (Some throttled), 0) = (r, s')"
    by (metis surj_pair)
  have "snd (snd (scripted s)) = Suc (snd s)" "snd (snd (sleep_on d s)) = snd s" for s d
    by (simp_all add: scripted_def sleep_on_def split: list.split)
  from retry_call_count [of snd, OF this _ run] run show ?thesis by simp
qed

lemma backoff_delay_range_witness:
  "3 * second \<le> backoff_delay 2 (mk (1/2)) \<and> backoff_delay 2 (mk (1/2)) \<le> 5 * second"
  using backoff_delay_range [of 2 "mk (1/2)" "4 * second"] mk_between [of 0 "1/2" 1]
  by (simp add: time_units mk_0 [symmetric] mk_1 [symmetric])

end
