(* ===== verification/Calendar.thy ===== *)
theory Calendar
  imports Prelude
begin

text \<open>
  The calendar functions of \<^verbatim>\<open>time\<close> that the program calls, for instants read in UTC: the date
  of an instant in the proleptic Gregorian calendar, its weekday, the instant a date begins,
  and the layouts \<^verbatim>\<open>2006-01-02\<close> and RFC 3339. Years are counted from March in the computation,
  so that a leap day is the last day of its year.
\<close>

record date =
  d_Year :: int
  d_Month :: int
  d_Day :: int

definition days_of :: "time \<Rightarrow> int" where
  "days_of t = t div day"

text \<open>Days from the first of March of year 0 to the first of March of year \<open>y\<close>.\<close>

definition march :: "int \<Rightarrow> int" where
  "march y = 365 * y + y div 4 - y div 100 + y div 400"

definition march_year :: "int \<Rightarrow> int" where
  "march_year n = (let y = (400 * n) div 146097 in
     if n < march y then y - 1 else if march (y + 1) \<le> n then y + 1 else y)"

text \<open>The date of the day \<open>doy\<close> of the year from March \<open>y\<close>.\<close>

definition of_doy :: "int \<Rightarrow> int \<Rightarrow> date" where
  "of_doy y doy = (let mp = (5 * doy + 2) div 153 in
     \<lparr>d_Year = (if mp < 10 then y else y + 1), d_Month = (if mp < 10 then mp + 3 else mp - 9),
      d_Day = doy - (153 * mp + 2) div 5 + 1\<rparr>)"

definition Date :: "time \<Rightarrow> date" where
  "Date t = (let n = days_of t + 719468; y = march_year n in of_doy y (n - march y))"

text \<open>The midnight at which a date begins: \<^verbatim>\<open>time.Date(y, m, d, 0, 0, 0, 0, time.UTC)\<close>.\<close>

definition midnight :: "int \<Rightarrow> int \<Rightarrow> int \<Rightarrow> time" where
  "midnight y m d = (march (if m \<le> 2 then y - 1 else y) +
     (153 * (if m \<le> 2 then m + 9 else m - 3) + 2) div 5 + d - 1 - 719468) * day"

text \<open>0 is Sunday; the first of January 1970 was a Thursday.\<close>

definition Weekday :: "time \<Rightarrow> int" where
  "Weekday t = (days_of t + 4) mod 7"

definition pad2 :: "int \<Rightarrow> string" where
  "pad2 n = (if 0 \<le> n \<and> n < 10 then CHR ''0'' # itoa n else itoa n)"

definition pad4 :: "int \<Rightarrow> string" where
  "pad4 n = (if 0 \<le> n \<and> n < 1000 then replicate (4 - length (itoa n)) (CHR ''0'') @ itoa n else itoa n)"

definition format_date :: "time \<Rightarrow> string" where
  "format_date t = (let d = Date t in
     pad4 (d_Year d) @ ''-'' @ pad2 (d_Month d) @ ''-'' @ pad2 (d_Day d))"

definition format_RFC3339 :: "time \<Rightarrow> string" where
  "format_RFC3339 t = (let s = t div second - days_of t * 86400 in
     format_date t @ ''T'' @ pad2 (s div 3600) @ '':'' @ pad2 (s div 60 mod 60) @ '':'' @
     pad2 (s mod 60) @ ''Z'')"

section \<open>Facts\<close>

lemma div_bounds: "0 < k \<Longrightarrow> k * (y div k) \<le> y" "0 < k \<Longrightarrow> y < k * (y div k) + k" for y k :: int
  using mult_div_mod_eq [of k y] pos_mod_sign [of k y] pos_mod_bound [of k y] by linarith+

text \<open>A century begins only with a fourth year, a fourth century only with a century.\<close>

lemma century_step: "y div 4 - y div 100 \<le> (y + 1) div 4 - (y + 1) div 100" for y :: int
proof -
  define q r where "q = y div 100" and "r = y mod 100"
  have y: "y = 25 * (4 * q) + r" "0 \<le> r" "r < 100" by (auto simp: q_def r_def)
  have "y div 4 = 25 * q + r div 4" "(y + 1) div 4 = 25 * q + (r + 1) div 4"
    "(y + 1) div 100 = q + (r + 1) div 100" unfolding y(1) by linarith+
  then show ?thesis unfolding q_def [symmetric] using y(2,3) by (cases "r = 99") auto
qed

lemma cycle_step: "(y + 1) div 400 - (y + 1) div 100 \<le> y div 400 - y div 100" for y :: int
proof -
  define q r where "q = y div 400" and "r = y mod 400"
  have y: "y = 100 * (4 * q) + r" "0 \<le> r" "r < 400" by (auto simp: q_def r_def)
  have "y div 100 = 4 * q + r div 100" "(y + 1) div 100 = 4 * q + (r + 1) div 100"
    "(y + 1) div 400 = q + (r + 1) div 400" unfolding y(1) by linarith+
  then show ?thesis unfolding q_def [symmetric] using y(2,3) by (cases "r = 399") auto
qed

lemma march_step: "365 \<le> march (y + 1) - march y" "march (y + 1) - march y \<le> 366"
proof -
  have arith: "365 \<le> 365 * (y + 1) + A - B + C - (365 * y + a - b + c) \<and>
      365 * (y + 1) + A - B + C - (365 * y + a - b + c) \<le> 366"
    if "c \<le> C" "A \<le> a + 1" "a - b \<le> A - B" "C - B \<le> c - b" for A B C a b c :: int
    using that by auto
  have "y div 400 \<le> (y + 1) div 400" "(y + 1) div 4 \<le> y div 4 + 1" by linarith+
  from arith [OF this century_step cycle_step]
  show "365 \<le> march (y + 1) - march y" "march (y + 1) - march y \<le> 366"
    unfolding march_def by blast+
qed

lemma march_estimate: "146097 * y - 800 \<le> 400 * march y" "400 * march y \<le> 146097 * y + 400"
proof -
  have arith: "146097 * y - 800 \<le> 400 * (365 * y + a - b + c) \<and>
      400 * (365 * y + a - b + c) \<le> 146097 * y + 400"
    if "4 * a \<le> y" "y < 4 * a + 4" "100 * b \<le> y" "y < 100 * b + 100" "400 * c \<le> y" "y < 400 * c + 400"
    for a b c using that by auto
  from arith [OF div_bounds div_bounds div_bounds]
  show "146097 * y - 800 \<le> 400 * march y" "400 * march y \<le> 146097 * y + 400"
    unfolding march_def by simp_all
qed

text \<open>The year is the one whose days include the given one.\<close>

lemma march_year: "march (march_year n) \<le> n" "n < march (march_year n + 1)"
proof -
  define y where "y = (400 * n) div 146097"
  have est: "146097 * y \<le> 400 * n" "400 * n < 146097 * (y + 1)"
    unfolding y_def using div_bounds [of 146097 "400 * n"] by (simp_all only: distrib_left mult_1_right)
  note e = march_estimate [of "y - 1"] march_estimate [of "y + 2"] march_step [of "y - 1"] march_step [of "y + 1"]
  have "march (y - 1) \<le> n" using e est by simp
  moreover have "n < march (y + 2)" using e est by simp
  ultimately show "march (march_year n) \<le> n" "n < march (march_year n + 1)"
    unfolding march_year_def y_def [symmetric] by (auto simp: Let_def add.assoc)
qed

lemma day_pos [simp]: "0 < day"
  by (simp add: time_units)

lemma of_doy:
  assumes "0 \<le> doy" "doy \<le> 365"
  shows "midnight (d_Year (of_doy y doy)) (d_Month (of_doy y doy)) (d_Day (of_doy y doy)) =
      (march y + doy - 719468) * day"
    and "1 \<le> d_Month (of_doy y doy)" "d_Month (of_doy y doy) \<le> 12"
    and "1 \<le> d_Day (of_doy y doy)" "d_Day (of_doy y doy) \<le> 31"
proof -
  obtain mp where mp: "mp = (5 * doy + 2) div 153" by blast
  have "0 \<le> mp" "mp \<le> 11" unfolding mp using assms by linarith+
  moreover have "0 \<le> doy - (153 * mp + 2) div 5" "doy - (153 * mp + 2) div 5 \<le> 30"
    unfolding mp using assms by linarith+
  moreover have eq: "of_doy y doy = \<lparr>d_Year = (if mp < 10 then y else y + 1),
      d_Month = (if mp < 10 then mp + 3 else mp - 9), d_Day = doy - (153 * mp + 2) div 5 + 1\<rparr>"
    by (simp add: of_doy_def mp Let_def)
  ultimately show "midnight (d_Year (of_doy y doy)) (d_Month (of_doy y doy)) (d_Day (of_doy y doy)) =
      (march y + doy - 719468) * day"
    "1 \<le> d_Month (of_doy y doy)" "d_Month (of_doy y doy) \<le> 12"
    "1 \<le> d_Day (of_doy y doy)" "d_Day (of_doy y doy) \<le> 31"
    by (simp_all add: eq midnight_def add.commute)
qed

lemma Date_doy: "0 \<le> n - march (march_year n)" "n - march (march_year n) \<le> 365"
  using march_year [of n] march_step [of "march_year n"] by linarith+

lemma Date_midnight: "midnight (d_Year (Date t)) (d_Month (Date t)) (d_Day (Date t)) = days_of t * day"
  using of_doy(1) [OF Date_doy [of "days_of t + 719468"]] by (simp add: Date_def Let_def)

text \<open>Every instant lies within the day its date begins.\<close>

lemma Date_of_instant:
  "midnight (d_Year (Date t)) (d_Month (Date t)) (d_Day (Date t)) \<le> t"
  "t < midnight (d_Year (Date t)) (d_Month (Date t)) (d_Day (Date t)) + day"
  unfolding Date_midnight days_of_def using div_bounds [OF day_pos, of t] by (simp_all add: mult.commute)

lemma Date_range: "1 \<le> d_Month (Date t)" "d_Month (Date t) \<le> 12" "1 \<le> d_Day (Date t)" "d_Day (Date t) \<le> 31"
  using of_doy(2-) [OF Date_doy [of "days_of t + 719468"]] by (simp_all add: Date_def Let_def)

lemma midnight_shift: "midnight y m d = midnight y m 1 + (d - 1) * day"
  by (simp add: midnight_def algebra_simps)

text \<open>The first of the month is at most 31 days back.\<close>

definition month_start :: "time \<Rightarrow> time" where
  "month_start t = midnight (d_Year (Date t)) (d_Month (Date t)) 1"

lemma month_start: "month_start t \<le> t" "t < month_start t + 31 * day"
proof -
  have "midnight (d_Year (Date t)) (d_Month (Date t)) (d_Day (Date t)) =
      month_start t + (d_Day (Date t) - 1) * day"
    unfolding month_start_def by (rule midnight_shift)
  moreover have "0 \<le> (d_Day (Date t) - 1) * day" "(d_Day (Date t) - 1) * day \<le> 30 * day"
    using Date_range [of t] mult_right_mono [of "d_Day (Date t) - 1" 30 day] by (simp_all add: time_units)
  ultimately show "month_start t \<le> t" "t < month_start t + 31 * day"
    using Date_of_instant [of t] day_pos by linarith+
qed

lemma Weekday_range: "0 \<le> Weekday t" "Weekday t \<le> 6"
  unfolding Weekday_def by simp_all

end
