(* ===== verification/Aws_Fetch.thy ===== *)
theory Aws_Fetch
  imports Cost_Types Backoff Calendar
begin

text \<open>
  \<^verbatim>\<open>pkg/collector/aws.go\<close> and \<^verbatim>\<open>pkg/collector/cache.go\<close>: costs are read from the AWS Cost
  Explorer and from Cost and Usage Reports in S3. The AWS clients are parameters that act on a
  state \<open>'s\<close> of the outside world; what the code relies on of them is only the shape of their
  answers.
\<close>

section \<open>Reading numbers and names\<close>

definition is_digit :: "char \<Rightarrow> bool" where
  "is_digit c \<longleftrightarrow> c \<in> set ''0123456789''"

definition lower :: "char \<Rightarrow> char" where
  "lower c = (if c \<in> set ''INFTYAE'' then char_of (of_char c + 32 :: nat) else c)"

text \<open>The exponent part: a sign and at least one digit, or nothing.\<close>

definition parse_exponent :: "string \<Rightarrow> int option" where
  "parse_exponent s = (case s of [] \<Rightarrow> Some 0
     | c # r \<Rightarrow> if lower c \<noteq> CHR ''e'' then None
         else let (neg, ds) = (case r of [] \<Rightarrow> (False, []) | d # ds \<Rightarrow>
                  if d = CHR ''-'' then (True, ds) else if d = CHR ''+'' then (False, ds) else (False, r))
              in if ds = [] \<or> \<not> list_all is_digit ds then None
                 else Some (if neg then - int (of_digits ds) else int (of_digits ds)))"

definition parse_decimal :: "string \<Rightarrow> real option" where
  "parse_decimal s =
     (let whole = takeWhile is_digit s; rest = dropWhile is_digit s;
          (frac, rest') = (case rest of c # r \<Rightarrow>
             if c = CHR ''.'' then (takeWhile is_digit r, dropWhile is_digit r) else ([], rest) | [] \<Rightarrow> ([], []))
      in if whole = [] \<and> frac = [] then None
         else map_option (\<lambda>e. of_nat (of_digits (whole @ frac)) * 10 powi e / 10 ^ length frac)
                (parse_exponent rest'))"

text \<open>
  \<^verbatim>\<open>strconv.ParseFloat\<close> on decimal literals, with the spellings of infinity and NaN; a value out
  of range is an error. Hexadecimal literals, which no amount is written in, read as errors.
\<close>

definition ParseFloat :: "string \<Rightarrow> 'f::{zero,one,minus,inverse,scaleR} option" where
  "ParseFloat s =
     (let (neg, r) = (case s of [] \<Rightarrow> (False, []) | c # cs \<Rightarrow>
             if c = CHR ''-'' then (True, cs) else if c = CHR ''+'' then (False, cs) else (False, s));
          low = map lower r
      in if low = ''inf'' \<or> low = ''infinity'' then Some (lit (if neg then -1 else 1) / 0)
         else if map lower s = ''nan'' then Some (0 / 0)
         else (case parse_decimal r of None \<Rightarrow> None
           | Some v \<Rightarrow> let x = lit (if neg then - v else v) in if x - x = 0 then Some x else None))"

text \<open>\<^verbatim>\<open>strings.TrimSpace\<close>; the white space of a report is ASCII.\<close>

definition is_space :: "char \<Rightarrow> bool" where
  "is_space c \<longleftrightarrow> of_char c \<in> {9, 10, 11, 12, 13, 32 :: nat}"

definition TrimSpace :: "string \<Rightarrow> string" where
  "TrimSpace s = rev (dropWhile is_space (rev (dropWhile is_space s)))"

section \<open>The cache\<close>

definition defaultCacheTTL :: int where
  "defaultCacheTTL = 30 * minute"

text \<open>A cache and the time of its entry; the mutex makes each method one step.\<close>

record 'f CostCache =
  cc_data :: "'f AWSCostData option"
  cc_storedAt :: time
  cc_ttl :: int

definition NewCostCache :: "'f CostCache" where
  "NewCostCache = \<lparr>cc_data = None, cc_storedAt = zero_time, cc_ttl = defaultCacheTTL\<rparr>"

definition cache_Get :: "time \<Rightarrow> 'f CostCache \<Rightarrow> 'f AWSCostData option" where
  "cache_Get now c = (case cc_data c of None \<Rightarrow> None
     | Some d \<Rightarrow> if cc_ttl c < now - cc_storedAt c then None else Some d)"

definition cache_Set :: "time \<Rightarrow> 'f AWSCostData \<Rightarrow> 'f CostCache \<Rightarrow> 'f CostCache" where
  "cache_Set now d c = c\<lparr>cc_data := Some d, cc_storedAt := now\<rparr>"

section \<open>Retried calls\<close>

definition maxRetries :: int where
  "maxRetries = 5"

text \<open>How the loop waits and draws its random numbers.\<close>

record ('s, 'f) Env =
  env_wait :: "int \<Rightarrow> 's \<Rightarrow> go_error option \<times> 's"
  env_jitter :: "nat \<Rightarrow> 'f"

text \<open>
  A closure passed to the loop assigns the answer of its call to a variable of the caller, which
  is read only after the loop has returned nil: that is, after the assignment.
\<close>

definition retry_call ::
    "('s, 'f::{zero,one,ord,plus,minus,times,size,scaleR}) Env \<Rightarrow> ('s \<Rightarrow> (go_error + 'a) \<times> 's) \<Rightarrow> 's \<Rightarrow>
     (go_error + 'a) \<times> 's" where
  "retry_call env call s =
     (case retryWithBackoff
        (\<lambda>(s, output). case call s of
            (Inl e, s') \<Rightarrow> (Some e, (s', None)) | (Inr a, s') \<Rightarrow> (None, (s', Some a)))
        (\<lambda>d (s, output). case env_wait env d s of (e, s') \<Rightarrow> (e, (s', output)))
        (env_jitter env) maxRetries (s, None) of
      (Some e, (s', output)) \<Rightarrow> (Inl e, s')
    | (None, (s', output)) \<Rightarrow> (Inr (the output), s'))"

section \<open>Cost Explorer\<close>

record CostRequest =
  rq_Start :: string
  rq_End :: string
  rq_Granularity :: string
  rq_Metrics :: "string list"
  rq_GroupBy :: "(string \<times> string) list"

record CostGroup =
  cg_Keys :: "string list"
  cg_Metrics :: "string \<rightharpoonup> string option"

definition cost_request :: "time \<Rightarrow> time \<Rightarrow> CostRequest" where
  "cost_request start till =
     \<lparr>rq_Start = format_date start, rq_End = format_date till, rq_Granularity = ''HOURLY'',
      rq_Metrics = [''UnblendedCost''],
      rq_GroupBy = [(''DIMENSION'', ''SERVICE''), (''TAG'', ''kubernetes.io/namespace'')]\<rparr>"

definition tagKeyPrefix :: string where
  "tagKeyPrefix = ''tag$''"

definition group_amount :: "CostGroup \<Rightarrow> 'f::{zero,one,minus,inverse,scaleR}" where
  "group_amount g = (case cg_Metrics g ''UnblendedCost'' of
     Some (Some amount) \<Rightarrow> (case ParseFloat amount of Some parsed \<Rightarrow> parsed | None \<Rightarrow> 0)
   | _ \<Rightarrow> 0)"

definition add_group ::
    "CostGroup \<Rightarrow> 'f::{zero,one,plus,minus,inverse,scaleR} AWSCostData \<Rightarrow> 'f AWSCostData" where
  "add_group g data =
     (let amount = group_amount g;
          data1 = data\<lparr>aws_TotalCost := aws_TotalCost data + amount\<rparr>;
          data2 = (if 1 \<le> length (cg_Keys g)
                   then data1\<lparr>aws_ByService := add_at (cg_Keys g ! 0) amount (aws_ByService data1)\<rparr>
                   else data1)
      in if 2 \<le> length (cg_Keys g)
         then let tagValue = TrimPrefix (cg_Keys g ! 1) tagKeyPrefix in
              if tagValue \<noteq> [] then data2\<lparr>aws_ByTag := add_at tagValue amount (aws_ByTag data2)\<rparr> else data2
         else data2)"

definition parseCostExplorerOutput ::
    "CostGroup list list \<Rightarrow> time \<Rightarrow> time \<Rightarrow> 'f::{zero,one,plus,minus,inverse,scaleR} AWSCostData" where
  "parseCostExplorerOutput resultsByTime start till =
     fold (\<lambda>groups data. fold add_group groups data) resultsByTime
       \<lparr>aws_StartTime = start, aws_EndTime = till, aws_ByService = Map.empty, aws_ByTag = Map.empty,
        aws_TotalCost = 0, aws_IsApproximate = False\<rparr>"

definition FetchCosts ::
    "('s \<Rightarrow> CostRequest \<Rightarrow> (go_error + CostGroup list list) \<times> 's) \<Rightarrow>
     ('s, 'f::{zero,one,ord,plus,minus,times,inverse,size,scaleR}) Env \<Rightarrow> time \<Rightarrow> time \<Rightarrow> 's \<Rightarrow>
     (go_error + 'f AWSCostData) \<times> 's" where
  "FetchCosts getCostAndUsage env start till s =
     (case retry_call env (\<lambda>s. getCostAndUsage s (cost_request start till)) s of
        (Inl err, s') \<Rightarrow> (Inl err, s')
      | (Inr output, s') \<Rightarrow> (Inr (parseCostExplorerOutput output start till), s'))"

section \<open>Cost and Usage Reports\<close>

text \<open>A CSV reader is the list of what its \<^verbatim>\<open>Read\<close> calls return before the end of the file.\<close>

datatype csv_read = Record "string list" | Malformed

datatype csv_error = EHeader | ERecord

definition column_index :: "string list \<Rightarrow> (string \<rightharpoonup> nat)" where
  "column_index header =
     fold (\<lambda>(i, col) m. m(TrimSpace col \<mapsto> i)) (List.enumerate 0 header) Map.empty"

definition getCSVField :: "string list \<Rightarrow> (string \<rightharpoonup> nat) \<Rightarrow> string \<Rightarrow> string" where
  "getCSVField row colIndex column = (case colIndex column of None \<Rightarrow> []
     | Some idx \<Rightarrow> if length row \<le> idx then [] else TrimSpace (row ! idx))"

definition tag_prefix :: string where
  "tag_prefix = ''resourceTags/''"

text \<open>
  \<open>cols\<close> is the order of the loop over the column index; below it is a function of the header,
  since every file has its own. The result does not depend on it.
\<close>

definition collect_tags :: "string list \<Rightarrow> (string \<rightharpoonup> nat) \<Rightarrow> string list \<Rightarrow> (string \<rightharpoonup> string)" where
  "collect_tags cols colIndex row =
     fold (\<lambda>(col, idx) tags.
        if HasPrefix col tag_prefix \<and> idx < length row then
          (if row ! idx \<noteq> [] then tags(TrimPrefix col tag_prefix \<mapsto> row ! idx) else tags)
        else tags) (range_map cols colIndex) Map.empty"

definition has_tags :: "string list \<Rightarrow> (string \<rightharpoonup> nat) \<Rightarrow> string list \<Rightarrow> bool" where
  "has_tags cols colIndex row \<longleftrightarrow> list_ex (\<lambda>(col, idx).
     HasPrefix col tag_prefix \<and> idx < length row \<and> row ! idx \<noteq> []) (range_map cols colIndex)"

definition cur_item ::
    "string list \<Rightarrow> (string \<rightharpoonup> nat) \<Rightarrow> string list \<Rightarrow> 'f::{zero,one,minus,inverse,scaleR} CURLineItem" where
  "cur_item cols colIndex row =
     (let costStr = getCSVField row colIndex ''lineItem/UnblendedCost'' in
      \<lparr>li_ResourceID = getCSVField row colIndex ''lineItem/ResourceId'',
       li_ServiceCode = getCSVField row colIndex ''product/servicecode'',
       li_UsageType = getCSVField row colIndex ''lineItem/UsageType'',
       li_PurchaseOption = getCSVField row colIndex ''pricing/purchaseOption'',
       li_Cost = (if costStr \<noteq> [] then (case ParseFloat costStr of Some parsed \<Rightarrow> parsed | None \<Rightarrow> 0) else 0),
       li_Tags = (if has_tags cols colIndex row then Some (collect_tags cols colIndex row) else None)\<rparr>)"

fun read_records ::
    "string list \<Rightarrow> (string \<rightharpoonup> nat) \<Rightarrow> csv_read list \<Rightarrow>
     'f::{zero,one,minus,inverse,scaleR} CURLineItem list \<times> csv_error option" where
  "read_records cols colIndex [] = ([], None)"
| "read_records cols colIndex (Malformed # rs) = ([], Some ERecord)"
| "read_records cols colIndex (Record row # rs) =
     (case read_records cols colIndex rs of (items, err) \<Rightarrow> (cur_item cols colIndex row # items, err))"

definition parseCURCSV ::
    "(string list \<Rightarrow> string list) \<Rightarrow> csv_read list \<Rightarrow>
     'f::{zero,one,minus,inverse,scaleR} CURLineItem list \<times> csv_error option" where
  "parseCURCSV cols reads = (case reads of
     Record header # rs \<Rightarrow> read_records (cols header) (column_index header) rs
   | _ \<Rightarrow> ([], Some EHeader))"

datatype cur_error = EDownload go_error | EParse csv_error | EListObjects go_error

text \<open>Closing the body of an answer has no effect the code observes.\<close>

definition downloadAndParseCUR ::
    "('s \<Rightarrow> string \<Rightarrow> string \<Rightarrow> (go_error + csv_read list) \<times> 's) \<Rightarrow>
     ('s, 'f::{zero,one,ord,plus,minus,times,inverse,size,scaleR}) Env \<Rightarrow> (string list \<Rightarrow> string list) \<Rightarrow> string \<Rightarrow> string \<Rightarrow>
     's \<Rightarrow> (cur_error + 'f CURLineItem list) \<times> 's" where
  "downloadAndParseCUR getObject env cols bucket k s =
     (case retry_call env (\<lambda>s. getObject s bucket k) s of
        (Inl err, s') \<Rightarrow> (Inl (EDownload err), s')
      | (Inr body, s') \<Rightarrow> (case parseCURCSV cols body of
            (items, Some e) \<Rightarrow> (Inl (EParse e), s') | (items, None) \<Rightarrow> (Inr items, s')))"

definition csv_keys :: "string option list \<Rightarrow> string list" where
  "csv_keys contents = List.map_filter
     (\<lambda>k. case k of Some key \<Rightarrow> if HasSuffix key ''.csv'' then Some key else None | None \<Rightarrow> None) contents"

definition add_file ::
    "('s \<Rightarrow> string \<Rightarrow> string \<Rightarrow> (go_error + csv_read list) \<times> 's) \<Rightarrow>
     ('s, 'f::{zero,one,ord,plus,minus,times,inverse,size,scaleR}) Env \<Rightarrow> (string list \<Rightarrow> string list) \<Rightarrow> string \<Rightarrow> string \<Rightarrow>
     'f CURData \<times> 's \<Rightarrow> 'f CURData \<times> 's" where
  "add_file getObject env cols bucket k st =
     (case downloadAndParseCUR getObject env cols bucket k (snd st) of
        (Inl err, s') \<Rightarrow> (fst st, s')
      | (Inr lineItems, s') \<Rightarrow>
          let cur = (fst st)\<lparr>cur_TotalCost := fold (\<lambda>i s. s + li_Cost i) lineItems (cur_TotalCost (fst st))\<rparr>
          in (cur\<lparr>cur_LineItems := cur_LineItems cur @ lineItems\<rparr>, s'))"

definition FetchCUR ::
    "('s \<Rightarrow> string \<Rightarrow> string \<Rightarrow> (go_error + string option list) \<times> 's) \<Rightarrow>
     ('s \<Rightarrow> string \<Rightarrow> string \<Rightarrow> (go_error + csv_read list) \<times> 's) \<Rightarrow>
     ('s, 'f::{zero,one,ord,plus,minus,times,inverse,size,scaleR}) Env \<Rightarrow> (string list \<Rightarrow> string list) \<Rightarrow>
     time \<Rightarrow> time \<Rightarrow> string \<Rightarrow> string \<Rightarrow> 's \<Rightarrow> (cur_error + 'f CURData) \<times> 's" where
  "FetchCUR listObjects getObject env cols start till bucket pre s =
     (case retry_call env (\<lambda>s. listObjects s bucket pre) s of
        (Inl err, s') \<Rightarrow> (Inl (EListObjects err), s')
      | (Inr contents, s') \<Rightarrow>
          (case fold (add_file getObject env cols bucket) (csv_keys contents)
                  (\<lparr>cur_StartTime = start, cur_EndTime = till, cur_LineItems = [], cur_TotalCost = 0\<rparr>, s') of
             (cur, s'') \<Rightarrow> (Inr cur, s'')))"

section \<open>A cache with an expiry\<close>

text \<open>
  What the collector relies on: an entry is returned as it was stored until its time is over, and
  an empty cache returns nothing.
\<close>

locale expiring_cache =
  fixes get :: "time \<Rightarrow> 'c \<Rightarrow> 'd option"
    and set_entry :: "time \<Rightarrow> 'd \<Rightarrow> 'c \<Rightarrow> 'c"
    and ttl :: "'c \<Rightarrow> int"
  assumes get_set: "get t (set_entry t0 d c) = (if t - t0 \<le> ttl c then Some d else None)"
    and ttl_set: "ttl (set_entry t0 d c) = ttl c"
begin

lemma get_fresh: "t0 \<le> t \<Longrightarrow> t - t0 \<le> ttl c \<Longrightarrow> get t (set_entry t0 d c) = Some d"
  by (simp add: get_set)

lemma get_last: "t - t1 \<le> ttl c \<Longrightarrow> get t (set_entry t1 d1 (set_entry t0 d0 c)) = Some d1"
  by (simp add: get_set ttl_set)

lemma get_stale: "ttl c < t - t0 \<Longrightarrow> get t (set_entry t0 d c) = None"
  by (simp add: get_set)

end

interpretation cost_cache: expiring_cache cache_Get cache_Set cc_ttl
  by unfold_locales (simp_all add: cache_Get_def cache_Set_def)

section \<open>Retried calls\<close>

lemma retry_call_ok:
  assumes "retry_call env call s = (Inr a, s')"
  shows "\<exists>s0. call s0 = (Inr a, s')"
proof -
  let ?fn = "\<lambda>(s, output). case call s of
            (Inl e, s') \<Rightarrow> (Some e, (s', None)) | (Inr a, s') \<Rightarrow> (None, (s', Some a))"
  let ?wait = "\<lambda>d (s, output). case env_wait env d s of (e, s') \<Rightarrow> (e, (s', output))"
  from assms obtain out where run: "retryWithBackoff ?fn ?wait (env_jitter env) maxRetries (s, None) = (None, (s', out))"
    and a: "a = the out"
    by (auto simp: retry_call_def split: prod.splits option.splits)
  from retry_from_ends [of 5 ?fn ?wait "env_jitter env" 0 "(s, None)"] run
  obtain s0 o0 where "?fn (s0, o0) = (None, (s', out))"
    by (auto simp: retryWithBackoff_def maxRetries_def)
  then show ?thesis using a by (auto split: prod.splits sum.splits)
qed

section \<open>The answer of the Cost Explorer\<close>

definition g_service :: "CostGroup \<Rightarrow> string" where
  "g_service g = cg_Keys g ! 0"

definition g_tag :: "CostGroup \<Rightarrow> string" where
  "g_tag g = TrimPrefix (cg_Keys g ! 1) tagKeyPrefix"

lemma fold_concat: "fold (fold f) xss x = fold f (concat xss) x"
  by (induction xss arbitrary: x) auto

lemma parse_groups:
  "parseCostExplorerOutput results start till =
     \<lparr>aws_StartTime = start, aws_EndTime = till,
      aws_ByService = group_map g_service (\<lambda>g. 1 \<le> length (cg_Keys g)) group_amount (concat results),
      aws_ByTag = group_map g_tag (\<lambda>g. 2 \<le> length (cg_Keys g) \<and> g_tag g \<noteq> []) group_amount (concat results),
      aws_TotalCost = group_sum (\<lambda>_. True) group_amount (concat results), aws_IsApproximate = False\<rparr>"
proof -
  have "fold add_group gs \<lparr>aws_StartTime = start, aws_EndTime = till, aws_ByService = Map.empty,
      aws_ByTag = Map.empty, aws_TotalCost = 0, aws_IsApproximate = False\<rparr> =
    \<lparr>aws_StartTime = start, aws_EndTime = till,
      aws_ByService = group_map g_service (\<lambda>g. 1 \<le> length (cg_Keys g)) group_amount gs,
      aws_ByTag = group_map g_tag (\<lambda>g. 2 \<le> length (cg_Keys g) \<and> g_tag g \<noteq> []) group_amount gs,
      aws_TotalCost = group_sum (\<lambda>_. True) group_amount gs, aws_IsApproximate = False\<rparr>" for gs
    by (induction gs rule: rev_induct)
      (simp_all add: add_group_def Let_def group_map_snoc group_sum_snoc g_service_def g_tag_def)
  then show ?thesis by (simp add: parseCostExplorerOutput_def fold_concat)
qed

section \<open>The order of the columns does not matter\<close>

definition tags_spec :: "(string \<rightharpoonup> nat) \<Rightarrow> string list \<Rightarrow> (string \<rightharpoonup> string)" where
  "tags_spec colIndex row = (\<lambda>k. case colIndex (tag_prefix @ k) of None \<Rightarrow> None
     | Some idx \<Rightarrow> if idx < length row \<and> row ! idx \<noteq> [] then Some (row ! idx) else None)"

lemma tag_column: "HasPrefix col tag_prefix \<Longrightarrow> tag_prefix @ TrimPrefix col tag_prefix = col"
  by (auto simp: HasPrefix_def TrimPrefix_def prefix_def)

lemma collect_tags_step:
  assumes "\<And>k. tags k = (if tag_prefix @ k \<in> set seen then tags_spec colIndex row k else None)"
    and "colIndex col = Some idx"
  shows "(if HasPrefix col tag_prefix \<and> idx < length row then
       (if row ! idx \<noteq> [] then tags(TrimPrefix col tag_prefix \<mapsto> row ! idx) else tags) else tags) k =
     (if tag_prefix @ k \<in> set (col # seen) then tags_spec colIndex row k else None)"
proof (cases "tag_prefix @ k = col")
  case True
  then have "HasPrefix col tag_prefix" "TrimPrefix col tag_prefix = k"
    by (auto simp: HasPrefix_def TrimPrefix_def)
  then show ?thesis using assms True by (auto simp: tags_spec_def)
next
  case False
  then have "HasPrefix col tag_prefix \<Longrightarrow> TrimPrefix col tag_prefix \<noteq> k" using tag_column by blast
  then show ?thesis using assms(1) [of k] False by auto
qed

lemma collect_tags_spec:
  assumes "iterates cols colIndex"
  shows "collect_tags cols colIndex row = tags_spec colIndex row"
proof -
  have main: "fold (\<lambda>(col, idx) tags.
        if HasPrefix col tag_prefix \<and> idx < length row then
          (if row ! idx \<noteq> [] then tags(TrimPrefix col tag_prefix \<mapsto> row ! idx) else tags)
        else tags) (range_map cs colIndex) tags k =
      (if tag_prefix @ k \<in> set cs \<union> set seen then tags_spec colIndex row k else None)"
    if "set cs \<subseteq> dom colIndex"
      "\<And>k. tags k = (if tag_prefix @ k \<in> set seen then tags_spec colIndex row k else None)" for cs tags seen k
    using that
  proof (induction cs arbitrary: tags seen)
    case (Cons c cs)
    then obtain idx where idx: "colIndex c = Some idx" by auto
    from Cons.IH [OF _ collect_tags_step [OF Cons.prems(2) idx]] Cons.prems(1) idx show ?case by simp
  qed simp
  have "collect_tags cols colIndex row k = tags_spec colIndex row k" for k
    using main [of cols Map.empty "[]" k] assms
    by (auto simp: collect_tags_def iterates_def tags_spec_def dom_def split: option.splits)
  then show ?thesis by auto
qed

lemma has_tags_spec:
  assumes "iterates cols colIndex"
  shows "has_tags cols colIndex row \<longleftrightarrow> tags_spec colIndex row \<noteq> Map.empty"
proof
  assume "has_tags cols colIndex row"
  then obtain col idx where col: "colIndex col = Some idx" "HasPrefix col tag_prefix" "idx < length row" "row ! idx \<noteq> []"
    by (auto simp: has_tags_def list_ex_iff set_range_map)
  then have "tags_spec colIndex row (TrimPrefix col tag_prefix) = Some (row ! idx)"
    by (simp add: tags_spec_def tag_column)
  then show "tags_spec colIndex row \<noteq> Map.empty" by auto
next
  assume "tags_spec colIndex row \<noteq> Map.empty"
  then obtain k where "tags_spec colIndex row k \<noteq> None" by (auto simp: fun_eq_iff)
  then obtain idx where "colIndex (tag_prefix @ k) = Some idx" "idx < length row" "row ! idx \<noteq> []"
    by (auto simp: tags_spec_def split: option.splits if_splits)
  moreover from this(1) have "tag_prefix @ k \<in> set cols" using assms by (auto simp: iterates_def)
  moreover have "HasPrefix (tag_prefix @ k) tag_prefix" by (simp add: HasPrefix_def)
  ultimately show "has_tags cols colIndex row" by (force simp: has_tags_def list_ex_iff set_range_map)
qed

section \<open>The total of a report\<close>

definition items_sum :: "'f CURLineItem list \<Rightarrow> 'f::{zero,plus}" where
  "items_sum items = fold (\<lambda>i s. s + li_Cost i) items 0"

lemma add_file_total:
  "cur_TotalCost (fst st) = items_sum (cur_LineItems (fst st)) \<Longrightarrow>
   cur_TotalCost (fst (add_file getObject env cols bucket k st)) =
     items_sum (cur_LineItems (fst (add_file getObject env cols bucket k st)))"
  by (auto simp: add_file_def items_sum_def Let_def split: prod.splits sum.splits)

lemma add_files_total:
  "cur_TotalCost (fst st) = items_sum (cur_LineItems (fst st)) \<Longrightarrow>
   cur_TotalCost (fst (fold (add_file getObject env cols bucket) ks st)) =
     items_sum (cur_LineItems (fst (fold (add_file getObject env cols bucket) ks st)))"
  by (induction ks arbitrary: st) (simp_all add: add_file_total)

section \<open>Properties\<close>

text \<open>The parsed answer is the grouping of all its groups, over all periods, by service and by
  tag without its prefix: each entry is the sum of the amounts in order, the total that of all of
  them, and an amount that is missing or is no number counts as 0. It holds in floating point.\<close>

lemma cost_explorer_groups:
  fixes results :: "CostGroup list list"
  shows "parseCostExplorerOutput results start till =
    (\<lparr>aws_StartTime = start, aws_EndTime = till,
      aws_ByService = group_map (\<lambda>g. cg_Keys g ! 0) (\<lambda>g. 1 \<le> length (cg_Keys g)) group_amount (concat results),
      aws_ByTag = group_map (\<lambda>g. TrimPrefix (cg_Keys g ! 1) ''tag$'')
        (\<lambda>g. 2 \<le> length (cg_Keys g) \<and> TrimPrefix (cg_Keys g ! 1) ''tag$'' \<noteq> []) group_amount (concat results),
      aws_TotalCost = group_sum (\<lambda>_. True) group_amount (concat results),
      aws_IsApproximate = False\<rparr> :: f64 AWSCostData)"
  unfolding parse_groups g_service_def [abs_def] g_tag_def [abs_def] tagKeyPrefix_def ..

text \<open>In exact arithmetic the services of an answer whose groups all have a key add up to its
  total.\<close>

lemma cost_explorer_services_total:
  assumes "\<forall>g\<in>set (concat results). cg_Keys g \<noteq> []"
    and "d = parseCostExplorerOutput results start till"
  shows "(\<Sum>s\<in>dom (aws_ByService d). the (aws_ByService d s)) = (aws_TotalCost d :: real)"
proof -
  have "group_sum (\<lambda>g. 1 \<le> length (cg_Keys g)) group_amount (concat results) =
      group_sum (\<lambda>_. True) group_amount (concat results)"
    by (rule group_sum_cong) (use assms(1) in \<open>auto simp: Suc_le_eq\<close>)
  then show ?thesis by (simp add: assms(2) parse_groups sum_group_map)
qed

text \<open>The total of a usage report is the sum of the costs of the line items it returns, in their
  order and in floating point: a file that fails to download or parse contributes neither.\<close>

lemma report_total_matches_items:
  assumes "FetchCUR listObjects getObject env cols start till bucket pre s = (Inr cur, s')"
  shows "cur_TotalCost cur = fold (\<lambda>i t. t + li_Cost i) (cur_LineItems cur) (0::f64)"
proof -
  let ?init = "\<lambda>s. (\<lparr>cur_StartTime = start, cur_EndTime = till, cur_LineItems = [], cur_TotalCost = 0\<rparr> :: f64 CURData, s)"
  from assms obtain ks s0 where "fold (add_file getObject env cols bucket) ks (?init s0) = (cur, s')"
    by (auto simp: FetchCUR_def split: prod.splits sum.splits)
  with add_files_total [of "?init s0" getObject env cols bucket ks] show ?thesis
    by (simp add: items_sum_def)
qed

text \<open>The tags of a line item do not depend on the order in which the loop visits the columns:
  a tag has the value of its column unless that is empty or missing from the row, and an item
  without a tag has no map.\<close>

lemma tags_order_independent:
  assumes "iterates cols colIndex"
  shows "li_Tags (cur_item cols colIndex row) =
    (let tags = (\<lambda>k. case colIndex (''resourceTags/'' @ k) of None \<Rightarrow> None
       | Some idx \<Rightarrow> if idx < length row \<and> row ! idx \<noteq> [] then Some (row ! idx) else None)
     in if tags = Map.empty then None else Some tags)"
  using collect_tags_spec [OF assms] has_tags_spec [OF assms]
  by (simp add: cur_item_def Let_def tags_spec_def tag_prefix_def)

subsection \<open>The properties at work\<close>

definition demo_groups :: "CostGroup list list" where
  "demo_groups = [[\<lparr>cg_Keys = [''AmazonEC2'', ''tag$web''], cg_Metrics = [''UnblendedCost'' \<mapsto> Some ''1.50'']\<rparr>],
     [\<lparr>cg_Keys = [''AmazonEC2''], cg_Metrics = [''UnblendedCost'' \<mapsto> Some ''2'']\<rparr>]]"

lemma demo_amounts:
  "ParseFloat ''1.50'' = Some (3/2 :: real)" "ParseFloat ''2'' = Some (2::real)" "ParseFloat ''x'' = (None :: real option)"
  by (simp_all add: ParseFloat_def parse_decimal_def parse_exponent_def is_digit_def of_digits_def
      Let_def lower_def)

lemma cost_explorer_services_total_witness:
  "(\<Sum>s\<in>dom (aws_ByService (parseCostExplorerOutput demo_groups 0 1 :: real AWSCostData)).
     the (aws_ByService (parseCostExplorerOutput demo_groups 0 1) s)) = (7/2 :: real)"
proof -
  have "\<forall>g\<in>set (concat demo_groups). cg_Keys g \<noteq> []" by (simp add: demo_groups_def)
  note cost_explorer_services_total [OF this refl, of 0 1]
  also have "aws_TotalCost (parseCostExplorerOutput demo_groups 0 1) = (7/2 :: real)"
    by (simp add: parse_groups demo_groups_def group_sum_def group_amount_def demo_amounts)
  finally show ?thesis .
qed

definition demo_env :: "('s, f64) Env" where
  "demo_env = \<lparr>env_wait = (\<lambda>d s. (None, s)), env_jitter = (\<lambda>n. 0)\<rparr>"

lemma demo_retry: "retry_call demo_env (Pair (Inr x)) s = (Inr x, s)"
  by (simp add: retry_call_def retryWithBackoff_def maxRetries_def retry_from.simps)

lemma report_total_matches_items_witness:
  "\<exists>cur. FetchCUR (\<lambda>s b p. (Inr [Some ''a.csv'', Some ''b.txt''], s))
       (\<lambda>s b k. (Inr [Record [''lineItem/UnblendedCost''], Record [''1.50''], Record [''2'']], s))
       demo_env (\<lambda>header. header) 0 1 ''bucket'' [] () = (Inr cur, ()) \<and>
     cur_TotalCost cur = fold (\<lambda>i t. t + li_Cost i) (cur_LineItems cur) 0"
proof -
  let ?list = "\<lambda>(s::unit) (b::string) (p::string). (Inr [Some ''a.csv'', Some ''b.txt''], s)"
  let ?get = "\<lambda>(s::unit) (b::string) (k::string).
      (Inr [Record [''lineItem/UnblendedCost''], Record [''1.50''], Record [''2'']], s)"
  have "\<exists>cur. FetchCUR ?list ?get demo_env (\<lambda>header. header) 0 1 ''bucket'' [] () = (Inr cur, ())"
    by (simp add: FetchCUR_def split_beta demo_retry)
  then obtain cur where "FetchCUR ?list ?get demo_env (\<lambda>header. header) 0 1 ''bucket'' [] () = (Inr cur, ())" ..
  with report_total_matches_items [OF this] show ?thesis by blast
qed

lemma tags_order_independent_witness:
  "li_Tags (cur_item [''resourceTags/team'', ''cost''] [''cost'' \<mapsto> 0, ''resourceTags/team'' \<mapsto> 1] [''3'', ''red'']
     :: f64 CURLineItem) = Some [''team'' \<mapsto> ''red'']"
proof -
  let ?cols = "[''cost'' \<mapsto> 0, ''resourceTags/team'' \<mapsto> (1::nat)]"
  have "iterates [''resourceTags/team'', ''cost''] ?cols" by (auto simp: iterates_def)
  note tags = tags_order_independent [OF this, of "[''3'', ''red'']"]
  have "(\<lambda>k. case ?cols (''resourceTags/'' @ k) of None \<Rightarrow> None
       | Some idx \<Rightarrow> if idx < length [''3'', ''red''] \<and> [''3'', ''red''] ! idx \<noteq> []
           then Some ([''3'', ''red''] ! idx) else None) = [''team'' \<mapsto> ''red'']"
    by (auto simp: fun_eq_iff)
  with tags show ?thesis by (simp only: Let_def) simp
qed

end
