(* ===== verification/Correlate.thy ===== *)
theory Correlate
  imports Cost_Types
begin

text \<open>
  \<^verbatim>\<open>pkg/collector/correlate.go\<close>: the AWS cost is spread over the pods by their share of the
  CPU and memory usage and summed by namespace, service and team. The reference is a
  grouping of the pods (\<open>ns_spec\<close>, \<open>team_spec\<close>); it holds for every arithmetic. In exact
  arithmetic no cost is lost, and in floating point costs are never negative.
\<close>

section \<open>The code\<close>

definition podLabelOrDefault :: "labels \<Rightarrow> string \<Rightarrow> string list \<Rightarrow> string" where
  "podLabelOrDefault ls defaultVal keys =
     (case ls of None \<Rightarrow> defaultVal
      | Some m \<Rightarrow> (case find (\<lambda>key. \<exists>val. m key = Some val \<and> val \<noteq> []) keys of
          Some key \<Rightarrow> the (m key)
        | None \<Rightarrow> defaultVal))"

definition calculatePodWeight ::
    "'f \<Rightarrow> 'f \<Rightarrow> 'f \<Rightarrow> 'f \<Rightarrow> nat \<Rightarrow> 'f::{zero,one,plus,times,inverse,scaleR}" where
  "calculatePodWeight podCPU podMem totalCPU totalMem podCount =
     (if podCount = 0 then 0
      else let cpuZero = (totalCPU = 0); memZero = (totalMem = 0) in
        if cpuZero \<and> memZero then 1 / of_count (int podCount)
        else if cpuZero then podMem / totalMem
        else if memZero then podCPU / totalCPU
        else podCPU / totalCPU * lit (1/2) + podMem / totalMem * lit (1/2))"

definition pod_key :: "'f PodMetrics \<Rightarrow> string" where
  "pod_key pod = pm_Namespace pod @ ''/'' @ pm_Name pod"

definition service_of :: "'f PodMetrics \<Rightarrow> string" where
  "service_of pod = podLabelOrDefault (pm_Labels pod) ''unknown'' [''app'', ''service'']"

definition team_of :: "'f PodMetrics \<Rightarrow> string" where
  "team_of pod = podLabelOrDefault (pm_Labels pod) ''unknown'' [''team'']"

text \<open>The cost of one pod, the first loop's body.\<close>

definition pod_cost ::
    "'f PodMetrics list \<Rightarrow> 'f::{zero,one,plus,times,inverse,scaleR} \<Rightarrow> 'f PodMetrics \<Rightarrow> 'f" where
  "pod_cost pods totalAWSCost pod =
     (let totalCPU = fold (\<lambda>p s. s + pm_CPUUsage p) pods 0;
          totalMem = fold (\<lambda>p s. s + pm_MemUsage p) pods 0
      in calculatePodWeight (pm_CPUUsage pod) (pm_MemUsage pod) totalCPU totalMem (length pods)
           * totalAWSCost)"

definition pod_costs ::
    "'f PodMetrics list \<Rightarrow> 'f::{zero,one,plus,times,inverse,scaleR} \<Rightarrow> (string \<rightharpoonup> 'f)" where
  "pod_costs pods totalAWSCost =
     fold (\<lambda>pod m. m(pod_key pod \<mapsto> pod_cost pods totalAWSCost pod)) pods Map.empty"

definition new_namespace :: "bool \<Rightarrow> string \<Rightarrow> 'f::zero NamespaceCost" where
  "new_namespace approximate ns =
     \<lparr>nc_Namespace = ns, nc_Team = [], nc_DirectCost = 0, nc_SharedCost = 0, nc_TotalCost = 0,
      nc_ByService = Map.empty, nc_ByPod = Map.empty, nc_IsApproximate = approximate\<rparr>"

definition new_team :: "string \<Rightarrow> 'f::zero TeamCost" where
  "new_team team = \<lparr>tc_Team = team, tc_DirectCost = 0, tc_IndirectCost = 0, tc_TotalCost = 0,
                    tc_Namespaces = Map.empty\<rparr>"

text \<open>The body of the second loop: the entries of the pod's namespace and team.\<close>

definition add_to_namespace ::
    "'f PodMetrics \<Rightarrow> 'f \<Rightarrow> 'f::{zero,plus} NamespaceCost \<Rightarrow> 'f NamespaceCost" where
  "add_to_namespace pod podCost nsCost =
     nsCost\<lparr>nc_DirectCost := nc_DirectCost nsCost + podCost,
            nc_ByPod := (nc_ByPod nsCost)(pm_Name pod \<mapsto> podCost),
            nc_ByService := add_at (service_of pod) podCost (nc_ByService nsCost),
            nc_Team := (if nc_Team nsCost = [] then team_of pod else nc_Team nsCost)\<rparr>"

definition add_to_team ::
    "'f PodMetrics \<Rightarrow> 'f \<Rightarrow> 'f::{zero,plus} TeamCost \<Rightarrow> 'f TeamCost" where
  "add_to_team pod podCost tc =
     tc\<lparr>tc_DirectCost := tc_DirectCost tc + podCost,
        tc_Namespaces := add_at (pm_Namespace pod) podCost (tc_Namespaces tc)\<rparr>"

definition add_pod ::
    "bool \<Rightarrow> (string \<rightharpoonup> 'f) \<Rightarrow> 'f PodMetrics \<Rightarrow>
     (string \<rightharpoonup> 'f NamespaceCost) \<times> (string \<rightharpoonup> 'f TeamCost) \<Rightarrow>
     (string \<rightharpoonup> 'f::{zero,plus} NamespaceCost) \<times> (string \<rightharpoonup> 'f TeamCost)" where
  "add_pod approximate podCosts pod st =
     (let (byNamespace, byTeam) = st;
          podCost = at0 podCosts (pod_key pod);
          nsCost = (case byNamespace (pm_Namespace pod) of
                      None \<Rightarrow> new_namespace approximate (pm_Namespace pod) | Some nc \<Rightarrow> nc);
          team = team_of pod;
          tc = (case byTeam team of None \<Rightarrow> new_team team | Some t \<Rightarrow> t)
      in (byNamespace(pm_Namespace pod \<mapsto> add_to_namespace pod podCost nsCost),
          byTeam(team \<mapsto> add_to_team pod podCost tc)))"

definition finalize_namespace :: "'f NamespaceCost \<Rightarrow> 'f NamespaceCost" where
  "finalize_namespace nc = nc\<lparr>nc_TotalCost := nc_DirectCost nc\<rparr>"

definition finalize_team :: "'f TeamCost \<Rightarrow> 'f TeamCost" where
  "finalize_team tc = tc\<lparr>tc_TotalCost := tc_DirectCost tc\<rparr>"

text \<open>
  \<open>ks\<close> is the order in which the closing loop visits the namespaces; \<open>now\<close> is the time of
  the call. A nil argument reads as the zero struct.
\<close>

definition correlateAndAggregate ::
    "string list \<Rightarrow> time \<Rightarrow> 'f ClusterMetrics option \<Rightarrow>
     'f::{zero,one,plus,times,inverse,scaleR} AWSCostData option \<Rightarrow> 'f AggregatedCosts" where
  "correlateAndAggregate ks now metrics costs =
     (let pods = (case metrics of None \<Rightarrow> [] | Some m \<Rightarrow> cm_Pods m);
          totalAWSCost = (case costs of None \<Rightarrow> 0 | Some c \<Rightarrow> aws_TotalCost c);
          approximate = (case costs of None \<Rightarrow> False | Some c \<Rightarrow> aws_IsApproximate c);
          podCosts = pod_costs pods totalAWSCost;
          (bn, bt) = fold (add_pod approximate podCosts) pods (Map.empty, Map.empty);
          byNamespace = map_option finalize_namespace \<circ> bn;
          totalCost = fold (\<lambda>(k, nc) s. s + nc_TotalCost nc) (range_map ks byNamespace) 0
      in \<lparr>ag_Timestamp = now, ag_ByNamespace = byNamespace,
          ag_ByTeam = map_option finalize_team \<circ> bt, ag_TotalCost = totalCost\<rparr>)"

section \<open>The reference\<close>

definition in_ns :: "string \<Rightarrow> 'f PodMetrics \<Rightarrow> bool" where
  "in_ns ns pod \<longleftrightarrow> pm_Namespace pod = ns"

definition in_team :: "string \<Rightarrow> 'f PodMetrics \<Rightarrow> bool" where
  "in_team team pod \<longleftrightarrow> team_of pod = team"

text \<open>The last cost recorded under each name.\<close>

definition last_map :: "('p \<Rightarrow> 'k) \<Rightarrow> ('p \<Rightarrow> bool) \<Rightarrow> ('p \<Rightarrow> 'f) \<Rightarrow> 'p list \<Rightarrow> ('k \<rightharpoonup> 'f)" where
  "last_map k P cost ps = map_of (rev (map (\<lambda>p. (k p, cost p)) (filter P ps)))"

definition ns_spec ::
    "bool \<Rightarrow> ('f PodMetrics \<Rightarrow> 'f) \<Rightarrow> 'f PodMetrics list \<Rightarrow> string \<Rightarrow> 'f::{zero,plus} NamespaceCost" where
  "ns_spec approximate cost pods ns =
     \<lparr>nc_Namespace = ns, nc_Team = team_of (hd (filter (in_ns ns) pods)),
      nc_DirectCost = group_sum (in_ns ns) cost pods, nc_SharedCost = 0, nc_TotalCost = 0,
      nc_ByService = group_map service_of (in_ns ns) cost pods,
      nc_ByPod = last_map pm_Name (in_ns ns) cost pods, nc_IsApproximate = approximate\<rparr>"

definition team_spec ::
    "('f PodMetrics \<Rightarrow> 'f) \<Rightarrow> 'f PodMetrics list \<Rightarrow> string \<Rightarrow> 'f::{zero,plus} TeamCost" where
  "team_spec cost pods team =
     \<lparr>tc_Team = team, tc_DirectCost = group_sum (in_team team) cost pods, tc_IndirectCost = 0,
      tc_TotalCost = 0, tc_Namespaces = group_map pm_Namespace (in_team team) cost pods\<rparr>"

lemma podLabelOrDefault_nonempty: "d \<noteq> [] \<Longrightarrow> podLabelOrDefault ls d keys \<noteq> []"
  by (auto simp: podLabelOrDefault_def find_Some_iff split: option.splits)

lemma team_of_nonempty [simp]: "team_of pod \<noteq> []"
  by (simp add: team_of_def podLabelOrDefault_nonempty)

lemma filter_snoc: "filter P (ps @ [p]) = (if P p then filter P ps @ [p] else filter P ps)"
  by simp

lemma last_map_snoc: "last_map k P cost (ps @ [p]) =
    (if P p then (last_map k P cost ps)(k p \<mapsto> cost p) else last_map k P cost ps)"
  by (simp add: last_map_def)

text \<open>One step of the second loop adds the pod to its groups.\<close>

lemma ns_spec_snoc:
  "ns_spec a cost (ps @ [p]) ns =
     (if pm_Namespace p \<noteq> ns then ns_spec a cost ps ns
      else add_to_namespace p (cost p)
        (if \<exists>q\<in>set ps. pm_Namespace q = ns then ns_spec a cost ps ns else new_namespace a ns))"
proof (cases "\<exists>q\<in>set ps. pm_Namespace q = ns")
  case True
  then have "filter (in_ns ns) ps \<noteq> []" by (auto simp: filter_empty_conv in_ns_def)
  with True show ?thesis
    by (simp add: ns_spec_def add_to_namespace_def group_sum_snoc group_map_snoc last_map_snoc
        in_ns_def [of ns p] hd_append)
next
  case False
  then have "filter (in_ns ns) ps = []" "\<And>q. q \<in> set ps \<Longrightarrow> \<not> in_ns ns q"
    by (auto simp: filter_empty_conv in_ns_def)
  with False show ?thesis
    by (simp add: ns_spec_def add_to_namespace_def new_namespace_def group_sum_snoc group_map_snoc
        last_map_snoc last_map_def in_ns_def [of ns p] group_sum_none group_map_none)
qed

lemma team_spec_snoc:
  "team_spec cost (ps @ [p]) t =
     (if team_of p \<noteq> t then team_spec cost ps t
      else add_to_team p (cost p)
        (if \<exists>q\<in>set ps. team_of q = t then team_spec cost ps t else new_team t))"
proof (cases "\<exists>q\<in>set ps. team_of q = t")
  case True
  then show ?thesis
    by (simp add: team_spec_def add_to_team_def group_sum_snoc group_map_snoc in_team_def [of t p])
next
  case False
  then have "\<And>q. q \<in> set ps \<Longrightarrow> \<not> in_team t q" by (auto simp: in_team_def)
  with False show ?thesis
    by (simp add: team_spec_def add_to_team_def new_team_def group_sum_snoc group_map_snoc
        in_team_def [of t p] group_sum_none group_map_none)
qed

definition groups ::
    "bool \<Rightarrow> ('f PodMetrics \<Rightarrow> 'f) \<Rightarrow> 'f PodMetrics list \<Rightarrow>
     (string \<rightharpoonup> 'f::{zero,plus} NamespaceCost) \<times> (string \<rightharpoonup> 'f TeamCost)" where
  "groups a cost pods =
     ((\<lambda>ns. if \<exists>q\<in>set pods. pm_Namespace q = ns then Some (ns_spec a cost pods ns) else None),
      (\<lambda>t. if \<exists>q\<in>set pods. team_of q = t then Some (team_spec cost pods t) else None))"

lemma groups_Nil [simp]: "groups a cost [] = (Map.empty, Map.empty)"
  by (simp add: groups_def)

lemma add_pod_groups:
  assumes "at0 m (pod_key p) = cost p"
  shows "add_pod a m p (groups a cost ps) = groups a cost (ps @ [p])"
  by (auto simp: groups_def add_pod_def assms Let_def ns_spec_snoc team_spec_snoc fun_eq_iff)

lemma add_pods_groups:
  "fold (add_pod a m) ps (Map.empty, Map.empty) = groups a (\<lambda>p. at0 m (pod_key p)) ps"
  by (induction ps rule: rev_induct) (simp_all add: add_pod_groups)

lemma pod_costs_lookup:
  "pod_costs pods c = last_map pod_key (\<lambda>_. True) (pod_cost pods c) pods"
proof -
  have "fold (\<lambda>pod m. m(pod_key pod \<mapsto> f pod)) ps Map.empty = last_map pod_key (\<lambda>_. True) f ps"
    for f :: "'a PodMetrics \<Rightarrow> 'a" and ps
  proof (induction ps rule: rev_induct)
    case (snoc p ps)
    then show ?case by (simp only: fold_append fold_simps o_apply last_map_snoc if_True)
  qed (simp add: last_map_def)
  then show ?thesis by (simp add: pod_costs_def)
qed

lemma last_map_distinct:
  "distinct (map k (filter P ps)) \<Longrightarrow> p \<in> set ps \<Longrightarrow> P p \<Longrightarrow> last_map k P cost ps (k p) = Some (cost p)"
  by (simp add: last_map_def map_of_eq_Some_iff rev_map [symmetric] image_iff comp_def distinct_map)
    (auto simp: inj_on_def)

lemma pod_costs_distinct:
  "distinct (map pod_key pods) \<Longrightarrow> p \<in> set pods \<Longrightarrow>
   at0 (pod_costs pods c) (pod_key p) = pod_cost pods c p"
  using last_map_distinct [of pod_key "\<lambda>_. True" pods p "pod_cost pods c"]
  by (simp add: pod_costs_lookup at0_def)

lemma last_map_cong:
  "(\<And>p. p \<in> set ps \<Longrightarrow> f p = g p) \<Longrightarrow> last_map k P f ps = last_map k P g ps"
  unfolding last_map_def by (rule arg_cong [where f = "\<lambda>xs. map_of (rev xs)"]) simp

lemma ns_spec_cong:
  "(\<And>p. p \<in> set pods \<Longrightarrow> f p = g p) \<Longrightarrow> ns_spec a f pods ns = ns_spec a g pods ns"
  by (simp add: ns_spec_def cong: group_sum_cong group_map_cong last_map_cong)

lemma team_spec_cong:
  "(\<And>p. p \<in> set pods \<Longrightarrow> f p = g p) \<Longrightarrow> team_spec f pods t = team_spec g pods t"
  by (simp add: team_spec_def cong: group_sum_cong group_map_cong)

lemma correlate_groups:
  fixes c :: "'f::{zero,one,plus,times,inverse,scaleR} AWSCostData" and ks now
  assumes "distinct (map pod_key (cm_Pods m))"
  defines "r \<equiv> correlateAndAggregate ks now (Some m) (Some c)"
    and "cost \<equiv> pod_cost (cm_Pods m) (aws_TotalCost c)"
  shows "ag_ByNamespace r = (\<lambda>ns. if \<exists>p\<in>set (cm_Pods m). pm_Namespace p = ns
      then Some (finalize_namespace (ns_spec (aws_IsApproximate c) cost (cm_Pods m) ns)) else None)"
    and "ag_ByTeam r = (\<lambda>t. if \<exists>p\<in>set (cm_Pods m). team_of p = t
      then Some (finalize_team (team_spec cost (cm_Pods m) t)) else None)"
    and "ag_TotalCost r = fold (\<lambda>(k, nc) s. s + nc_TotalCost nc) (range_map ks (ag_ByNamespace r)) 0"
proof -
  let ?f = "\<lambda>p. at0 (pod_costs (cm_Pods m) (aws_TotalCost c)) (pod_key p)"
  have "p \<in> set (cm_Pods m) \<Longrightarrow> ?f p = cost p" for p
    using pod_costs_distinct [OF assms(1)] by (simp add: cost_def)
  then have eqs: "ns_spec a ?f (cm_Pods m) ns = ns_spec a cost (cm_Pods m) ns"
    "team_spec ?f (cm_Pods m) t = team_spec cost (cm_Pods m) t" for a ns t
    by (auto intro: ns_spec_cong team_spec_cong)
  show "ag_ByNamespace r = (\<lambda>ns. if \<exists>p\<in>set (cm_Pods m). pm_Namespace p = ns
      then Some (finalize_namespace (ns_spec (aws_IsApproximate c) cost (cm_Pods m) ns)) else None)"
    "ag_ByTeam r = (\<lambda>t. if \<exists>p\<in>set (cm_Pods m). team_of p = t
      then Some (finalize_team (team_spec cost (cm_Pods m) t)) else None)"
    "ag_TotalCost r = fold (\<lambda>(k, nc) s. s + nc_TotalCost nc) (range_map ks (ag_ByNamespace r)) 0"
    unfolding r_def correlateAndAggregate_def Let_def add_pods_groups
    by (simp_all add: groups_def eqs fun_eq_iff)
qed

section \<open>Exact arithmetic: nothing is lost\<close>

lemma weights_sum:
  fixes pods :: "real PodMetrics list"
  assumes "pods \<noteq> []"
  shows "(\<Sum>p\<leftarrow>pods. calculatePodWeight (pm_CPUUsage p) (pm_MemUsage p)
    (\<Sum>q\<leftarrow>pods. pm_CPUUsage q) (\<Sum>q\<leftarrow>pods. pm_MemUsage q) (length pods)) = 1"
proof -
  let ?c = "\<Sum>q\<leftarrow>pods. pm_CPUUsage q" and ?m = "\<Sum>q\<leftarrow>pods. pm_MemUsage q"
  have div: "(\<Sum>p\<leftarrow>pods. f p / k) = (\<Sum>p\<leftarrow>pods. f p) / k" for f :: "real PodMetrics \<Rightarrow> real" and k
    by (simp add: divide_inverse sum_list_mult_const)
  have half: "(\<Sum>p\<leftarrow>pods. f p / 2) = (\<Sum>p\<leftarrow>pods. f p) / 2" for f :: "real PodMetrics \<Rightarrow> real"
    by (rule div)
  show ?thesis
    using assms
    by (cases "?c = 0"; cases "?m = 0")
      (simp_all add: calculatePodWeight_def sum_list_addf div half sum_list_triv)
qed

lemma pod_costs_sum:
  fixes pods :: "real PodMetrics list"
  assumes "pods \<noteq> []"
  shows "(\<Sum>p\<leftarrow>pods. pod_cost pods c p) = c"
  using weights_sum [OF assms]
  by (simp add: pod_cost_def fold_add_real sum_list_mult_const Let_def)

lemma group_sum_all: "group_sum (\<lambda>_. True) cost pods = (\<Sum>p\<leftarrow>pods. cost p)"
  for cost :: "'p \<Rightarrow> real"
  by (simp add: group_sum_real)

text \<open>A sum over the entries of an aggregation is a sum over the keys of the members.\<close>

lemma sum_entries:
  fixes cost :: "'p \<Rightarrow> real"
  shows "(\<Sum>x\<in>k ` set ps. group_sum (\<lambda>p. k p = x) cost ps) = (\<Sum>p\<leftarrow>ps. cost p)"
  using group_sum_partition [of "k ` set ps" ps "\<lambda>_. True" k cost] by (simp add: group_sum_all)

section \<open>Floating point: no pod costs more than the bill\<close>

text \<open>Usage figures and the bill are finite and not negative.\<close>

definition plain :: "('f \<Rightarrow> bool) \<Rightarrow> 'f::{zero,ord} \<Rightarrow> bool" where
  "plain fin x \<longleftrightarrow> fin x \<and> 0 \<le> x"

definition plain_usage :: "('f \<Rightarrow> bool) \<Rightarrow> 'f::{zero,ord} PodMetrics list \<Rightarrow> bool" where
  "plain_usage fin pods \<longleftrightarrow> (\<forall>p\<in>set pods. plain fin (pm_CPUUsage p) \<and> plain fin (pm_MemUsage p))"

context ordered_arith
begin

lemma share_of_sum:
  assumes "\<And>q. q \<in> set ps \<Longrightarrow> 0 \<le> (g q :: 'f)" "p \<in> set ps" "fin (g p)"
    and "fold (\<lambda>q s. s + g q) ps 0 \<noteq> 0"
  shows "0 \<le> g p / fold (\<lambda>q s. s + g q) ps 0 \<and> g p / fold (\<lambda>q s. s + g q) ps 0 \<le> 1"
proof -
  have "0 \<le> fold (\<lambda>q s. s + g q) ps 0" using assms(1) by (intro fold_add_nonneg zero_le_zero)
  then have "0 < fold (\<lambda>q s. s + g q) ps 0" using assms(4) by (intro positive)
  moreover have "g p \<le> fold (\<lambda>q s. s + g q) ps 0"
    using assms(1,2) by (intro fold_add_member zero_le_zero)
  ultimately show ?thesis using assms by (intro share)
qed

lemma weight_unit:
  assumes "plain_usage fin pods" "p \<in> set pods"
  shows "0 \<le> calculatePodWeight (pm_CPUUsage p) (pm_MemUsage p) (fold (\<lambda>q s. s + pm_CPUUsage q) pods 0)
      (fold (\<lambda>q s. s + pm_MemUsage q) pods 0) (length pods) \<and>
    calculatePodWeight (pm_CPUUsage p) (pm_MemUsage p) (fold (\<lambda>q s. s + pm_CPUUsage q) pods 0)
      (fold (\<lambda>q s. s + pm_MemUsage q) pods 0) (length pods) \<le> (1::'f)"
proof -
  let ?c = "fold (\<lambda>q s. s + pm_CPUUsage q) pods 0" and ?m = "fold (\<lambda>q s. s + pm_MemUsage q) pods 0"
  have cpu: "?c \<noteq> 0 \<Longrightarrow> 0 \<le> pm_CPUUsage p / ?c \<and> pm_CPUUsage p / ?c \<le> 1"
    and mem: "?m \<noteq> 0 \<Longrightarrow> 0 \<le> pm_MemUsage p / ?m \<and> pm_MemUsage p / ?m \<le> 1"
    using assms by (intro share_of_sum; simp add: plain_usage_def plain_def)+
  have n: "pods \<noteq> []" "1 \<le> int (length pods)" using assms(2) by (cases pods; simp)+
  consider "?c = 0" "?m = 0" | "?c = 0" "?m \<noteq> 0" | "?c \<noteq> 0" "?m = 0" | "?c \<noteq> 0" "?m \<noteq> 0" by blast
  then show ?thesis
  proof cases
    case 1
    then show ?thesis using share_one [OF n(2)] n(1) by (simp add: calculatePodWeight_def)
  next
    case 2
    then show ?thesis using mem n(1) by (simp add: calculatePodWeight_def)
  next
    case 3
    then show ?thesis using cpu n(1) by (simp add: calculatePodWeight_def)
  next
    case 4
    then show ?thesis
      using average [of "pm_CPUUsage p / ?c" "pm_MemUsage p / ?m"] cpu mem n(1)
      by (simp add: calculatePodWeight_def)
  qed
qed

lemma pod_cost_within:
  assumes "plain_usage fin pods" "plain fin (bill::'f)" "p \<in> set pods"
  shows "0 \<le> pod_cost pods bill p \<and> pod_cost pods bill p \<le> bill"
  using weight_unit [OF assms(1,3)] assms(2) part unfolding pod_cost_def Let_def plain_def by blast

lemma group_sum_nonneg:
  "(\<And>p. p \<in> set ps \<Longrightarrow> 0 \<le> (cost p :: 'f)) \<Longrightarrow> 0 \<le> group_sum P cost ps"
  unfolding group_sum_def by (rule fold_add_nonneg) (auto intro: zero_le_zero)

lemma group_sum_member:
  "(\<And>p. p \<in> set ps \<Longrightarrow> 0 \<le> (cost p :: 'f)) \<Longrightarrow> p \<in> set ps \<Longrightarrow> P p \<Longrightarrow> cost p \<le> group_sum P cost ps"
  unfolding group_sum_def by (rule fold_add_member) (auto intro: zero_le_zero)

end

lemma dom_if_Some: "dom (\<lambda>x. if P x then Some (f x) else None) = {x. P x}"
  by (simp add: dom_def)

lemma last_map_group:
  fixes cost :: "'p \<Rightarrow> real"
  shows "distinct (map k (filter P ps)) \<Longrightarrow> last_map k P cost ps = group_map k P cost ps"
proof (induction ps rule: rev_induct)
  case (snoc p ps)
  have "P p \<Longrightarrow> k p \<notin> dom (group_map k P cost ps)"
    using snoc.prems by (auto simp: dom_group_map)
  then have "P p \<Longrightarrow> group_map k P cost ps (k p) = None" by auto
  with snoc show ?case by (auto simp: last_map_snoc group_map_snoc add_at_def)
qed (simp add: last_map_def)

lemma distinct_names:
  assumes "distinct (map pod_key pods)"
  shows "distinct (map pm_Name (filter (in_ns ns) pods))"
  using assms by (auto simp: distinct_map inj_on_def pod_key_def in_ns_def)

lemma pods_total:
  fixes c :: "real AWSCostData" and ks now
  assumes "cm_Pods m \<noteq> []" "distinct (map pod_key (cm_Pods m))"
  defines "r \<equiv> correlateAndAggregate ks now (Some m) (Some c)"
  assumes "iterates ks (ag_ByNamespace r)"
  shows "ag_TotalCost r = aws_TotalCost c"
    and "(\<Sum>ns\<in>dom (ag_ByNamespace r). nc_DirectCost (the (ag_ByNamespace r ns))) = aws_TotalCost c"
    and "(\<Sum>t\<in>dom (ag_ByTeam r). tc_TotalCost (the (ag_ByTeam r t))) = aws_TotalCost c"
proof -
  let ?pods = "cm_Pods m"
  let ?cost = "pod_cost ?pods (aws_TotalCost c)"
  note groups = correlate_groups [OF assms(2), of ks now c, folded r_def]
  have sum: "(\<Sum>x\<in>k ` set ?pods. group_sum (\<lambda>p. k p = x) ?cost ?pods) = aws_TotalCost c"
    for k :: "real PodMetrics \<Rightarrow> string" by (simp only: sum_entries pod_costs_sum [OF assms(1)])
  have dom: "dom (ag_ByNamespace r) = pm_Namespace ` set ?pods" "dom (ag_ByTeam r) = team_of ` set ?pods"
    unfolding groups(1,2) dom_if_Some by auto
  show ns: "(\<Sum>ns\<in>dom (ag_ByNamespace r). nc_DirectCost (the (ag_ByNamespace r ns))) = aws_TotalCost c"
    unfolding dom unfolding groups(1) by (rule trans [OF sum.cong sum [of pm_Namespace]]) 
      (auto simp: finalize_namespace_def ns_spec_def in_ns_def intro: group_sum_cong)
  show "(\<Sum>t\<in>dom (ag_ByTeam r). tc_TotalCost (the (ag_ByTeam r t))) = aws_TotalCost c"
    unfolding dom unfolding groups(2) by (rule trans [OF sum.cong sum [of team_of]]) 
      (auto simp: finalize_team_def team_spec_def in_team_def intro: group_sum_cong)
  have "ag_TotalCost r = (\<Sum>(k, nc)\<leftarrow>range_map ks (ag_ByNamespace r). nc_TotalCost nc)"
    unfolding groups(3) by (simp add: fold_add_real case_prod_unfold)
  also have "\<dots> = (\<Sum>ns\<in>dom (ag_ByNamespace r). nc_TotalCost (the (ag_ByNamespace r ns)))"
    by (rule sum_range_map [OF assms(4)])
  also have "\<dots> = (\<Sum>ns\<in>dom (ag_ByNamespace r). nc_DirectCost (the (ag_ByNamespace r ns)))"
    by (rule sum.cong) (auto simp: groups(1) finalize_namespace_def split: if_splits)
  finally show "ag_TotalCost r = aws_TotalCost c" using ns by simp
qed

section \<open>Properties\<close>

text \<open>C15: when no two pods have the same key, the aggregation is the grouping of the pods by
  namespace and by team: the direct cost of a group is the sum of its pods' costs in the
  order of the pods, with one entry per service, pod and namespace that occurs, and the team
  of a namespace is the one of its first pod. It holds for the code's floating point.\<close>

theorem aggregation_groups_pods:
  fixes c :: "f64 AWSCostData"
  assumes "distinct (map pod_key (cm_Pods m))"
    and "r = correlateAndAggregate ks now (Some m) (Some c)"
    and "cost = pod_cost (cm_Pods m) (aws_TotalCost c)"
  shows "ag_ByNamespace r = (\<lambda>ns. if \<exists>p\<in>set (cm_Pods m). pm_Namespace p = ns
      then Some \<lparr>nc_Namespace = ns, nc_Team = team_of (hd (filter (in_ns ns) (cm_Pods m))),
        nc_DirectCost = group_sum (in_ns ns) cost (cm_Pods m), nc_SharedCost = 0,
        nc_TotalCost = group_sum (in_ns ns) cost (cm_Pods m),
        nc_ByService = group_map service_of (in_ns ns) cost (cm_Pods m),
        nc_ByPod = last_map pm_Name (in_ns ns) cost (cm_Pods m),
        nc_IsApproximate = aws_IsApproximate c\<rparr> else None) \<and>
    ag_ByTeam r = (\<lambda>t. if \<exists>p\<in>set (cm_Pods m). team_of p = t
      then Some \<lparr>tc_Team = t, tc_DirectCost = group_sum (in_team t) cost (cm_Pods m),
        tc_IndirectCost = 0, tc_TotalCost = group_sum (in_team t) cost (cm_Pods m),
        tc_Namespaces = group_map pm_Namespace (in_team t) cost (cm_Pods m)\<rparr> else None)"
  unfolding assms(2,3) correlate_groups(1,2) [OF assms(1)]
  by (simp add: finalize_namespace_def finalize_team_def ns_spec_def team_spec_def cong: if_cong)

text \<open>C32: in exact arithmetic, if there is a pod and no two pods have the same key, the total, the
  sum over the namespaces and the sum over the teams are all the AWS bill, and the services and
  the pods of a namespace and the namespaces of a team add up to its direct cost.\<close>

theorem aggregation_conserves_bill:
  fixes c :: "real AWSCostData"
  assumes "cm_Pods m \<noteq> []" "distinct (map pod_key (cm_Pods m))"
    and "r = correlateAndAggregate ks now (Some m) (Some c)" "iterates ks (ag_ByNamespace r)"
  shows "ag_TotalCost r = aws_TotalCost c \<and>
    (\<Sum>ns\<in>dom (ag_ByNamespace r). nc_DirectCost (the (ag_ByNamespace r ns))) = aws_TotalCost c \<and>
    (\<Sum>t\<in>dom (ag_ByTeam r). tc_TotalCost (the (ag_ByTeam r t))) = aws_TotalCost c \<and>
    (\<forall>ns nc. ag_ByNamespace r ns = Some nc \<longrightarrow>
      (\<Sum>s\<in>dom (nc_ByService nc). the (nc_ByService nc s)) = nc_DirectCost nc \<and>
      (\<Sum>q\<in>dom (nc_ByPod nc). the (nc_ByPod nc q)) = nc_DirectCost nc) \<and>
    (\<forall>t tc. ag_ByTeam r t = Some tc \<longrightarrow>
      (\<Sum>ns\<in>dom (tc_Namespaces tc). the (tc_Namespaces tc ns)) = tc_DirectCost tc)"
  using pods_total [OF assms(1,2), of ks now c] assms(3,4) correlate_groups [OF assms(2), of ks now c]
    last_map_group [OF distinct_names [OF assms(2)]]
  by (auto simp: finalize_namespace_def finalize_team_def ns_spec_def team_spec_def sum_group_map
      split: if_splits)

text \<open>C33: in floating point, with finite non-negative usage and bill, every pod's cost lies between
  0 and the bill, and the direct cost of every namespace and team is non-negative and at least
  that of each of its pods, whatever rounding and overflow do.\<close>

theorem pod_costs_bounded:
  fixes c :: "f64 AWSCostData"
  assumes "plain_usage is_fin (cm_Pods m)" "plain is_fin (aws_TotalCost c)"
    and "distinct (map pod_key (cm_Pods m))"
    and "r = correlateAndAggregate ks now (Some m) (Some c)" "p \<in> set (cm_Pods m)"
    and "cost = pod_cost (cm_Pods m) (aws_TotalCost c)"
  shows "0 \<le> cost p \<and> cost p \<le> aws_TotalCost c \<and>
    (\<exists>nc. ag_ByNamespace r (pm_Namespace p) = Some nc \<and> cost p \<le> nc_DirectCost nc \<and>
      nc_ByPod nc (pm_Name p) = Some (cost p)) \<and>
    (\<exists>tc. ag_ByTeam r (team_of p) = Some tc \<and> cost p \<le> tc_DirectCost tc)"
proof -
  have nonneg: "q \<in> set (cm_Pods m) \<Longrightarrow> 0 \<le> cost q \<and> cost q \<le> aws_TotalCost c" for q
    using ieee.pod_cost_within [OF assms(1,2)] by (simp add: assms(6))
  then have "cost p \<le> group_sum P cost (cm_Pods m)" if "P p" for P
    using that assms(5) by (intro ieee.group_sum_member) auto
  moreover have "last_map pm_Name (in_ns (pm_Namespace p)) cost (cm_Pods m) (pm_Name p) = Some (cost p)"
    by (rule last_map_distinct [OF distinct_names [OF assms(3)] assms(5)]) (simp add: in_ns_def)
  ultimately show ?thesis
    using nonneg [OF assms(5)] correlate_groups(1,2) [OF assms(3), of ks now c] assms(4-6)
    by (auto simp: finalize_namespace_def finalize_team_def ns_spec_def team_spec_def in_ns_def in_team_def)
qed

subsection \<open>The properties at work\<close>

definition demo_pod :: "string \<Rightarrow> string \<Rightarrow> 'f \<Rightarrow> 'f \<Rightarrow> string \<Rightarrow> 'f::zero PodMetrics" where
  "demo_pod ns name cpu mem team =
     \<lparr>pm_Name = name, pm_Namespace = ns, pm_NodeName = ''node'', pm_CPUUsage = cpu, pm_MemUsage = mem,
      pm_NetUsage = 0, pm_Storage = 0, pm_Labels = Some [''team'' \<mapsto> team]\<rparr>"

definition demo_metrics :: "'f::{zero,one,scaleR} ClusterMetrics" where
  "demo_metrics = \<lparr>cm_Timestamp = 0, cm_Pods = [demo_pod ''a'' ''x'' (lit 1) (lit 2) ''red'',
     demo_pod ''b'' ''y'' (lit 3) (lit 2) ''blue''], cm_Nodes = []\<rparr>"

definition demo_bill :: "'f::{zero,one,scaleR} AWSCostData" where
  "demo_bill = \<lparr>aws_StartTime = 0, aws_EndTime = 0, aws_ByService = Map.empty, aws_ByTag = Map.empty,
     aws_TotalCost = lit 80, aws_IsApproximate = False\<rparr>"

lemma demo_keys: "distinct (map pod_key (cm_Pods demo_metrics))"
  by (simp add: demo_metrics_def demo_pod_def pod_key_def)

lemma demo_namespaces:
  "dom (ag_ByNamespace (correlateAndAggregate ks now (Some demo_metrics) (Some c))) = {''a'', ''b''}"
  unfolding correlate_groups(1) [OF demo_keys] dom_if_Some
  by (auto simp: demo_metrics_def demo_pod_def)

lemma demo_teams:
  "team_of (demo_pod ns n c m t) = (if t = [] then ''unknown'' else t)"
  by (simp add: team_of_def podLabelOrDefault_def demo_pod_def)

lemma aggregation_groups_pods_witness:
  "\<exists>nc. ag_ByNamespace (correlateAndAggregate [] 0 (Some demo_metrics) (Some demo_bill)) ''a'' = Some nc \<and>
     nc_Team nc = ''red'' \<and> nc_DirectCost nc = mk 30"
proof -
  have cost: "pod_cost (cm_Pods demo_metrics) (aws_TotalCost demo_bill) (demo_pod ''a'' ''x'' (lit 1) (lit 2) ''red'')
      = mk 30"
    by (simp add: demo_metrics_def demo_bill_def pod_cost_def calculatePodWeight_def Let_def demo_pod_def
        lit_f64 mk_0 [symmetric] exact64_dyadic [of 1 2, simplified] exact64_dyadic [of 3 3, simplified]
        exact64_dyadic [of 1 3, simplified])
  have "group_sum (in_ns ''a'') f (cm_Pods demo_metrics) =
      0 + f (demo_pod ''a'' ''x'' (lit 1) (lit 2) ''red'')" for f :: "f64 PodMetrics \<Rightarrow> f64"
    by (simp add: group_sum_def demo_metrics_def in_ns_def, simp add: demo_pod_def)
  moreover have "team_of (hd (filter (in_ns ''a'') (cm_Pods (demo_metrics :: f64 ClusterMetrics)))) = ''red''"
    "\<exists>p\<in>set (cm_Pods (demo_metrics :: f64 ClusterMetrics)). pm_Namespace p = ''a''"
    by (simp_all add: demo_metrics_def in_ns_def demo_teams, simp_all add: demo_pod_def)
  ultimately show ?thesis
    using aggregation_groups_pods [OF demo_keys refl refl, of "[]" 0 demo_bill] cost
    by (simp add: mk_0 [symmetric])
qed

lemma demo_iterates:
  "iterates [''a'', ''b''] (ag_ByNamespace (correlateAndAggregate ks now (Some demo_metrics) (Some c)))"
  by (simp add: iterates_def demo_namespaces)

lemma demo_pods: "cm_Pods demo_metrics \<noteq> []"
  by (simp add: demo_metrics_def)

lemma aggregation_conserves_bill_witness:
  "ag_TotalCost (correlateAndAggregate [''a'', ''b''] 0 (Some demo_metrics) (Some demo_bill)) = (80::real)"
proof -
  have "ag_TotalCost (correlateAndAggregate [''a'', ''b''] 0 (Some demo_metrics) (Some demo_bill)) =
      (aws_TotalCost demo_bill :: real)"
    using aggregation_conserves_bill [OF demo_pods demo_keys refl demo_iterates] by blast
  then show ?thesis by (simp only: demo_bill_def AWSCostData.select_convs lit_real)
qed

lemma pod_costs_bounded_witness:
  "pod_cost (cm_Pods demo_metrics) (aws_TotalCost demo_bill) (hd (cm_Pods demo_metrics)) \<le> mk 80"
proof -
  have "plain_usage is_fin (cm_Pods demo_metrics)" "plain is_fin (aws_TotalCost demo_bill)"
    by (simp_all add: plain_usage_def plain_def demo_metrics_def demo_pod_def demo_bill_def lit_f64
        mk_0 [symmetric])
  from pod_costs_bounded [OF this demo_keys refl _ refl, of "hd (cm_Pods demo_metrics)" "[]" 0]
  show ?thesis by (simp add: demo_metrics_def demo_bill_def lit_f64)
qed

end
