(* ===== verification/Shared_Costs.thy ===== *)
theory Shared_Costs
  imports Correlate
begin

text \<open>
  \<^verbatim>\<open>pkg/collector/shared_costs.go\<close>: the direct costs of the system namespaces are spread over
  the other namespaces. The code updates the structs its argument points to; the model
  returns them updated, and the caller's object is the result.
\<close>

section \<open>The code\<close>

definition NamespaceKubeSystem :: string where "NamespaceKubeSystem = ''kube-system''"

definition NamespaceKubePublic :: string where "NamespaceKubePublic = ''kube-public''"

definition NamespaceKubeNodeLease :: string where "NamespaceKubeNodeLease = ''kube-node-lease''"

definition SharedLabelKey :: string where "SharedLabelKey = ''finops.eks.io/shared''"

definition UnallocatedTeam :: string where "UnallocatedTeam = ''unallocated''"

definition systemNamespaces :: "string list" where
  "systemNamespaces = [NamespaceKubeSystem, NamespaceKubePublic, NamespaceKubeNodeLease]"

definition isSystemNamespace :: "string \<Rightarrow> labels \<Rightarrow> bool" where
  "isSystemNamespace namespace ls \<longleftrightarrow>
     namespace \<in> set systemNamespaces \<or> label ls SharedLabelKey = Some ''true''"

text \<open>The two sums and the share of a recipient with direct cost \<open>d\<close>.\<close>

definition direct_sum :: "(string \<rightharpoonup> 'f NamespaceCost) \<Rightarrow> string list \<Rightarrow> 'f::{zero,plus}" where
  "direct_sum m ns = fold (\<lambda>n s. s + nc_DirectCost (the (m n))) ns 0"

definition share_of ::
    "'f \<Rightarrow> 'f \<Rightarrow> nat \<Rightarrow> 'f \<Rightarrow> 'f::{zero,one,times,inverse,scaleR}" where
  "share_of totalSharedCost totalNonSystemDirect recipients d =
     (if totalNonSystemDirect = 0 then totalSharedCost / of_count (int recipients)
      else totalSharedCost * (d / totalNonSystemDirect))"

definition receive :: "('f \<Rightarrow> 'f) \<Rightarrow> 'f::plus NamespaceCost \<Rightarrow> 'f NamespaceCost" where
  "receive share nc = (let shared = nc_SharedCost nc + share (nc_DirectCost nc) in
     nc\<lparr>nc_SharedCost := shared, nc_TotalCost := nc_DirectCost nc + shared\<rparr>)"

definition redistributed :: "'f::zero NamespaceCost \<Rightarrow> 'f NamespaceCost" where
  "redistributed nc = nc\<lparr>nc_TotalCost := 0\<rparr>"

text \<open>A loop over keys that updates the entry each key has.\<close>

definition update_entries :: "('v \<Rightarrow> 'v) \<Rightarrow> 'k list \<Rightarrow> ('k \<rightharpoonup> 'v) \<Rightarrow> ('k \<rightharpoonup> 'v)" where
  "update_entries f ks m = fold (\<lambda>k m. m(k \<mapsto> f (the (m k)))) ks m"

definition team_name :: "'f NamespaceCost \<Rightarrow> string" where
  "team_name nc = (if nc_Team nc = [] then UnallocatedTeam else nc_Team nc)"

definition add_namespace ::
    "(string \<rightharpoonup> 'f NamespaceCost) \<Rightarrow> string \<Rightarrow> (string \<rightharpoonup> 'f::{zero,plus} TeamCost) \<Rightarrow>
     (string \<rightharpoonup> 'f TeamCost)" where
  "add_namespace m nsName newByTeam =
     (let nc = the (m nsName); team = team_name nc;
          tc = (case newByTeam team of None \<Rightarrow> new_team team | Some t \<Rightarrow> t);
          direct = tc_DirectCost tc + nc_DirectCost nc;
          indirect = tc_IndirectCost tc + nc_SharedCost nc
      in newByTeam(team \<mapsto> tc\<lparr>tc_DirectCost := direct, tc_IndirectCost := indirect,
           tc_TotalCost := direct + indirect,
           tc_Namespaces := (tc_Namespaces tc)(nsName \<mapsto> nc_TotalCost nc)\<rparr>))"

text \<open>\<open>ks\<close> is the order of the loop over \<open>ByNamespace\<close>; the map is empty when \<open>ks\<close> is.\<close>

definition allocateSharedCostsWithLabels ::
    "string list \<Rightarrow> 'f::{zero,one,plus,times,inverse,scaleR} AggregatedCosts option \<Rightarrow>
     (string \<rightharpoonup> (string \<rightharpoonup> string)) \<Rightarrow> 'f AggregatedCosts option" where
  "allocateSharedCostsWithLabels ks costs nsLabels =
     (case costs of None \<Rightarrow> None | Some c \<Rightarrow>
      if length ks = 0 then Some c
      else let m = ag_ByNamespace c;
               systemNS = filter (\<lambda>n. isSystemNamespace n (nsLabels n)) ks;
               nonSystemNS = filter (\<lambda>n. \<not> isSystemNamespace n (nsLabels n)) ks;
               totalSharedCost = direct_sum m systemNS
           in if totalSharedCost = 0 then Some c
              else if length nonSystemNS = 0 then Some c
              else let totalNonSystemDirect = direct_sum m nonSystemNS;
                       share = share_of totalSharedCost totalNonSystemDirect (length nonSystemNS);
                       m1 = update_entries (receive share) nonSystemNS m;
                       m2 = update_entries redistributed systemNS m1;
                       newByTeam = fold (add_namespace m2) nonSystemNS Map.empty;
                       newTotal = fold (\<lambda>n s. s + nc_TotalCost (the (m2 n))) nonSystemNS 0
                   in Some (c\<lparr>ag_ByNamespace := m2, ag_ByTeam := newByTeam, ag_TotalCost := newTotal\<rparr>))"

definition allocateSharedCosts ::
    "string list \<Rightarrow> 'f::{zero,one,plus,times,inverse,scaleR} AggregatedCosts option \<Rightarrow>
     'f AggregatedCosts option" where
  "allocateSharedCosts ks costs = allocateSharedCostsWithLabels ks costs Map.empty"

section \<open>The entries afterwards\<close>

lemma update_entries_lookup:
  "distinct ks \<Longrightarrow> update_entries f ks m x = (if x \<in> set ks then Some (f (the (m x))) else m x)"
  unfolding update_entries_def by (induction ks arbitrary: m) auto

text \<open>The namespaces that pay and those that receive.\<close>

definition system_ns :: "(string \<rightharpoonup> (string \<rightharpoonup> string)) \<Rightarrow> string list \<Rightarrow> string list" where
  "system_ns nsLabels ks = filter (\<lambda>n. isSystemNamespace n (nsLabels n)) ks"

definition tenant_ns :: "(string \<rightharpoonup> (string \<rightharpoonup> string)) \<Rightarrow> string list \<Rightarrow> string list" where
  "tenant_ns nsLabels ks = filter (\<lambda>n. \<not> isSystemNamespace n (nsLabels n)) ks"

definition redistributes ::
    "string list \<Rightarrow> 'f::{zero,plus} AggregatedCosts \<Rightarrow> (string \<rightharpoonup> (string \<rightharpoonup> string)) \<Rightarrow> bool" where
  "redistributes ks c nsLabels \<longleftrightarrow>
     direct_sum (ag_ByNamespace c) (system_ns nsLabels ks) \<noteq> 0 \<and> tenant_ns nsLabels ks \<noteq> []"

definition entry_share ::
    "string list \<Rightarrow> 'f::{zero,one,plus,times,inverse,scaleR} AggregatedCosts \<Rightarrow>
     (string \<rightharpoonup> (string \<rightharpoonup> string)) \<Rightarrow> 'f \<Rightarrow> 'f" where
  "entry_share ks c nsLabels =
     share_of (direct_sum (ag_ByNamespace c) (system_ns nsLabels ks))
       (direct_sum (ag_ByNamespace c) (tenant_ns nsLabels ks)) (length (tenant_ns nsLabels ks))"

lemma allocate_unchanged:
  "\<not> redistributes ks c nsLabels \<Longrightarrow> allocateSharedCostsWithLabels ks (Some c) nsLabels = Some c"
  by (auto simp: allocateSharedCostsWithLabels_def redistributes_def system_ns_def tenant_ns_def Let_def)

text \<open>The reference for the rebuilt teams.\<close>

definition tenant_team_spec ::
    "(string \<rightharpoonup> 'f NamespaceCost) \<Rightarrow> string list \<Rightarrow> string \<Rightarrow> 'f::{zero,plus} TeamCost" where
  "tenant_team_spec m ns t =
     (let P = (\<lambda>n. team_name (the (m n)) = t);
          direct = group_sum P (\<lambda>n. nc_DirectCost (the (m n))) ns;
          indirect = group_sum P (\<lambda>n. nc_SharedCost (the (m n))) ns
      in \<lparr>tc_Team = t, tc_DirectCost = direct, tc_IndirectCost = indirect, tc_TotalCost = direct + indirect,
          tc_Namespaces = last_map (\<lambda>n. n) P (\<lambda>n. nc_TotalCost (the (m n))) ns\<rparr>)"

definition tenant_teams ::
    "(string \<rightharpoonup> 'f NamespaceCost) \<Rightarrow> string list \<Rightarrow> (string \<rightharpoonup> 'f::{zero,plus} TeamCost)" where
  "tenant_teams m ns = (\<lambda>t. if \<exists>n\<in>set ns. team_name (the (m n)) = t
     then Some (tenant_team_spec m ns t) else None)"

lemma add_namespace_teams: "add_namespace m n (tenant_teams m ns) = tenant_teams m (ns @ [n])"
proof
  fix t
  show "add_namespace m n (tenant_teams m ns) t = tenant_teams m (ns @ [n]) t"
  proof (cases "team_name (the (m n)) = t")
    case True
    show ?thesis
    proof (cases "\<exists>q\<in>set ns. team_name (the (m q)) = t")
      case False
      then have "filter (\<lambda>n. team_name (the (m n)) = t) ns = []" by (auto simp: filter_empty_conv)
      with False True show ?thesis
        by (simp add: add_namespace_def tenant_teams_def tenant_team_spec_def new_team_def Let_def
            group_sum_def last_map_def)
    qed (use True in \<open>simp add: add_namespace_def tenant_teams_def tenant_team_spec_def Let_def
          group_sum_snoc last_map_snoc\<close>)
  qed (simp add: add_namespace_def tenant_teams_def tenant_team_spec_def Let_def group_sum_snoc
      last_map_snoc)
qed

lemma add_namespaces_teams: "fold (add_namespace m) ns Map.empty = tenant_teams m ns"
  by (induction ns rule: rev_induct) (simp_all add: add_namespace_teams, simp add: tenant_teams_def)

lemma allocate_entries:
  fixes c :: "'f::{zero,one,plus,times,inverse,scaleR} AggregatedCosts"
  assumes "iterates ks (ag_ByNamespace c)" "redistributes ks c nsLabels"
    and run: "allocateSharedCostsWithLabels ks (Some c) nsLabels = Some r"
  shows "ag_ByNamespace r n = (case ag_ByNamespace c n of None \<Rightarrow> None
       | Some nc \<Rightarrow> Some (if isSystemNamespace n (nsLabels n) then redistributed nc
                           else receive (entry_share ks c nsLabels) nc))"
    and "ag_ByTeam r = tenant_teams (ag_ByNamespace r) (tenant_ns nsLabels ks)"
    and "ag_TotalCost r = fold (\<lambda>n s. s + nc_TotalCost (the (ag_ByNamespace r n))) (tenant_ns nsLabels ks) 0"
proof -
  let ?m1 = "update_entries (receive (entry_share ks c nsLabels)) (tenant_ns nsLabels ks) (ag_ByNamespace c)"
  let ?m2 = "update_entries redistributed (system_ns nsLabels ks) ?m1"
  have ks: "distinct ks" "set ks = dom (ag_ByNamespace c)" using assms(1) by (auto simp: iterates_def)
  have "ks \<noteq> []" using assms(2) by (auto simp: redistributes_def tenant_ns_def)
  then have r: "r = c\<lparr>ag_ByNamespace := ?m2, ag_ByTeam := tenant_teams ?m2 (tenant_ns nsLabels ks),
      ag_TotalCost := fold (\<lambda>n s. s + nc_TotalCost (the (?m2 n))) (tenant_ns nsLabels ks) 0\<rparr>"
    using assms(2) run
    by (simp add: allocateSharedCostsWithLabels_def redistributes_def entry_share_def Let_def
        add_namespaces_teams flip: system_ns_def tenant_ns_def)
  show "ag_ByNamespace r n = (case ag_ByNamespace c n of None \<Rightarrow> None
     | Some nc \<Rightarrow> Some (if isSystemNamespace n (nsLabels n) then redistributed nc
                         else receive (entry_share ks c nsLabels) nc))"
    using ks by (auto simp: r update_entries_lookup system_ns_def tenant_ns_def dom_def split: option.split)
  show "ag_ByTeam r = tenant_teams (ag_ByNamespace r) (tenant_ns nsLabels ks)"
    "ag_TotalCost r = fold (\<lambda>n s. s + nc_TotalCost (the (ag_ByNamespace r n))) (tenant_ns nsLabels ks) 0"
    by (simp_all add: r)
qed

text \<open>The loop visits all namespaces, so the two groups split them.\<close>

lemma ns_groups:
  assumes "iterates ks m"
  shows "distinct ks" "set ks = dom m"
    and "n \<in> set (system_ns l ks) \<longleftrightarrow> n \<in> dom m \<and> isSystemNamespace n (l n)"
    and "n \<in> set (tenant_ns l ks) \<longleftrightarrow> n \<in> dom m \<and> \<not> isSystemNamespace n (l n)"
  using assms by (auto simp: iterates_def system_ns_def tenant_ns_def)

section \<open>Exact arithmetic: the total is kept\<close>

text \<open>Costs as the correlation leaves them: nothing allocated yet, totals equal to direct costs.\<close>

definition unallocated :: "real AggregatedCosts \<Rightarrow> bool" where
  "unallocated c \<longleftrightarrow>
     (\<forall>n nc. ag_ByNamespace c n = Some nc \<longrightarrow> nc_SharedCost nc = 0 \<and> nc_TotalCost nc = nc_DirectCost nc) \<and>
     ag_TotalCost c = (\<Sum>n\<in>dom (ag_ByNamespace c). nc_DirectCost (the (ag_ByNamespace c n)))"

lemma shares_sum:
  fixes d :: "'n \<Rightarrow> real"
  assumes "ns \<noteq> []"
  shows "(\<Sum>n\<leftarrow>ns. share_of S (\<Sum>n\<leftarrow>ns. d n) (length ns) (d n)) = S"
proof -
  let ?D = "\<Sum>n\<leftarrow>ns. d n"
  have "?D \<noteq> 0 \<Longrightarrow> (\<Sum>n\<leftarrow>ns. S * (d n / ?D)) = S * ((\<Sum>n\<leftarrow>ns. d n) / ?D)"
    by (simp only: divide_inverse sum_list_const_mult sum_list_mult_const)
  then show ?thesis using assms by (cases "?D = 0") (simp_all add: share_of_def sum_list_triv)
qed

lemma direct_sum_real: "direct_sum m ns = (\<Sum>n\<leftarrow>ns. nc_DirectCost (the (m n)))"
  for m :: "string \<rightharpoonup> real NamespaceCost"
  by (simp add: direct_sum_def fold_add_real)

lemma split_sum:
  fixes g :: "string \<Rightarrow> real"
  shows "(\<Sum>n\<leftarrow>ks. g n) = (\<Sum>n\<leftarrow>system_ns l ks. g n) + (\<Sum>n\<leftarrow>tenant_ns l ks. g n)"
  unfolding system_ns_def tenant_ns_def by (induction ks) auto

lemma allocate_dom:
  assumes "allocateSharedCostsWithLabels ks (Some c) nsLabels = Some r" "iterates ks (ag_ByNamespace c)"
  shows "dom (ag_ByNamespace r) = dom (ag_ByNamespace c)"
proof (cases "redistributes ks c nsLabels")
  case True
  show ?thesis
    by (auto simp: allocate_entries(1) [OF assms(2) True assms(1)] dom_def split: option.splits)
qed (use assms in \<open>simp add: allocate_unchanged\<close>)

text \<open>What the recipients and the payers have afterwards.\<close>

lemma recipient_entry:
  fixes c :: "real AggregatedCosts"
  assumes "iterates ks (ag_ByNamespace c)" "unallocated c" "redistributes ks c l"
    and "allocateSharedCostsWithLabels ks (Some c) l = Some r" "n \<in> set (tenant_ns l ks)"
  shows "nc_TotalCost (the (ag_ByNamespace r n)) = nc_DirectCost (the (ag_ByNamespace c n)) +
      entry_share ks c l (nc_DirectCost (the (ag_ByNamespace c n)))"
    and "nc_DirectCost (the (ag_ByNamespace r n)) + nc_SharedCost (the (ag_ByNamespace r n)) =
      nc_TotalCost (the (ag_ByNamespace r n))"
proof -
  from assms(5) ns_groups(4) [OF assms(1)] obtain nc where nc: "ag_ByNamespace c n = Some nc"
    "\<not> isSystemNamespace n (l n)" by auto
  with assms(2) have "nc_SharedCost nc = 0" by (auto simp: unallocated_def)
  with nc allocate_entries(1) [OF assms(1,3,4), of n]
  show "nc_TotalCost (the (ag_ByNamespace r n)) = nc_DirectCost (the (ag_ByNamespace c n)) +
      entry_share ks c l (nc_DirectCost (the (ag_ByNamespace c n)))"
    "nc_DirectCost (the (ag_ByNamespace r n)) + nc_SharedCost (the (ag_ByNamespace r n)) =
      nc_TotalCost (the (ag_ByNamespace r n))"
    by (simp_all add: receive_def Let_def)
qed

lemma payer_entry:
  assumes "iterates ks (ag_ByNamespace c)" "redistributes ks c l"
    and "allocateSharedCostsWithLabels ks (Some c) l = Some r" "n \<in> set (system_ns l ks)"
  shows "nc_TotalCost (the (ag_ByNamespace r n)) = 0"
  using assms(4) ns_groups(3) [OF assms(1)] allocate_entries(1) [OF assms(1-3), of n]
  by (auto simp: redistributed_def)

lemma recipients_total:
  fixes c :: "real AggregatedCosts"
  assumes "iterates ks (ag_ByNamespace c)" "unallocated c" "redistributes ks c l"
    and "allocateSharedCostsWithLabels ks (Some c) l = Some r"
  shows "(\<Sum>n\<leftarrow>tenant_ns l ks. nc_TotalCost (the (ag_ByNamespace r n))) = ag_TotalCost c"
proof -
  let ?ten = "tenant_ns l ks" and ?d = "\<lambda>n. nc_DirectCost (the (ag_ByNamespace c n))"
  have "(\<Sum>n\<leftarrow>?ten. nc_TotalCost (the (ag_ByNamespace r n))) = (\<Sum>n\<leftarrow>?ten. ?d n + entry_share ks c l (?d n))"
    using recipient_entry(1) [OF assms] by (intro arg_cong [where f = sum_list] map_cong) auto
  also have "\<dots> = (\<Sum>n\<leftarrow>?ten. ?d n) + (\<Sum>n\<leftarrow>system_ns l ks. ?d n)"
    using shares_sum [of ?ten "\<Sum>n\<leftarrow>system_ns l ks. ?d n" ?d] assms(3)
    by (simp add: sum_list_addf entry_share_def direct_sum_real redistributes_def)
  also have "\<dots> = ag_TotalCost c"
    using split_sum [of ?d ks l] assms(2) ns_groups(1,2) [OF assms(1)]
    by (simp add: unallocated_def sum_list_distinct)
  finally show ?thesis .
qed

lemma teams_total:
  fixes m :: "string \<rightharpoonup> real NamespaceCost"
  assumes "\<And>n. n \<in> set ns \<Longrightarrow>
    nc_DirectCost (the (m n)) + nc_SharedCost (the (m n)) = nc_TotalCost (the (m n))"
  shows "(\<Sum>t\<in>dom (tenant_teams m ns). tc_TotalCost (the (tenant_teams m ns t))) =
    (\<Sum>n\<leftarrow>ns. nc_TotalCost (the (m n)))"
proof -
  let ?key = "\<lambda>n. team_name (the (m n))" and ?t = "\<lambda>n. nc_TotalCost (the (m n))"
  have teams: "dom (tenant_teams m ns) = ?key ` set ns"
    unfolding tenant_teams_def dom_if_Some by auto
  have "tc_TotalCost (tenant_team_spec m ns t) = group_sum (\<lambda>n. ?key n = t) ?t ns" for t
    using assms by (auto simp: tenant_team_spec_def Let_def group_sum_real sum_list_addf [symmetric]
        intro!: arg_cong [where f = sum_list] map_cong)
  then have "(\<Sum>t\<in>dom (tenant_teams m ns). tc_TotalCost (the (tenant_teams m ns t))) =
      (\<Sum>t\<in>?key ` set ns. group_sum (\<lambda>n. ?key n = t) ?t ns)"
    unfolding teams by (intro sum.cong) (auto simp: tenant_teams_def)
  then show ?thesis by (simp only: sum_entries)
qed

lemma allocate_exact:
  fixes c :: "real AggregatedCosts"
  assumes "iterates ks (ag_ByNamespace c)" "unallocated c"
    and "allocateSharedCostsWithLabels ks (Some c) l = Some r"
  shows "ag_TotalCost r = ag_TotalCost c"
    and "(\<Sum>n\<in>dom (ag_ByNamespace r). nc_TotalCost (the (ag_ByNamespace r n))) = ag_TotalCost c"
    and "redistributes ks c l \<Longrightarrow>
      (\<Sum>t\<in>dom (ag_ByTeam r). tc_TotalCost (the (ag_ByTeam r t))) = ag_TotalCost c"
proof -
  let ?t = "\<lambda>n. nc_TotalCost (the (ag_ByNamespace r n))"
  note ks = ns_groups(1,2) [OF assms(1)]
  have all: "ag_TotalCost r = ag_TotalCost c \<and> (\<Sum>n\<in>dom (ag_ByNamespace r). ?t n) = ag_TotalCost c"
  proof (cases "redistributes ks c l")
    case False
    then have "r = c" using assms(3) by (simp add: allocate_unchanged)
    then show ?thesis
      using assms(2) by (auto simp: unallocated_def intro!: sum.cong)
  next
    case True
    note total = recipients_total [OF assms(1,2) True assms(3)]
    have "(\<Sum>n\<leftarrow>system_ns l ks. ?t n) = 0"
      using payer_entry [OF assms(1) True assms(3)] by (simp cong: map_cong)
    then have "(\<Sum>n\<in>dom (ag_ByNamespace r). ?t n) = ag_TotalCost c"
      using total split_sum [of ?t ks l] allocate_dom [OF assms(3,1)] ks
      by (simp add: sum_list_distinct)
    then show ?thesis
      using total allocate_entries(3) [OF assms(1) True assms(3)] by (simp add: fold_add_real)
  qed
  then show "ag_TotalCost r = ag_TotalCost c" "(\<Sum>n\<in>dom (ag_ByNamespace r). ?t n) = ag_TotalCost c"
    by blast+
  assume True: "redistributes ks c l"
  show "(\<Sum>t\<in>dom (ag_ByTeam r). tc_TotalCost (the (ag_ByTeam r t))) = ag_TotalCost c"
    unfolding allocate_entries(2) [OF assms(1) True assms(3)]
    using teams_total [of "tenant_ns l ks" "ag_ByNamespace r"]
      recipient_entry(2) [OF assms(1,2) True assms(3)] recipients_total [OF assms(1,2) True assms(3)]
    by simp
qed

section \<open>Any arithmetic with an order: shares are bounded by what is shared\<close>

context ordered_arith
begin

lemma direct_sum_nonneg:
  "(\<And>n. n \<in> set ns \<Longrightarrow> 0 \<le> (nc_DirectCost (the (m n)) :: 'f)) \<Longrightarrow> 0 \<le> direct_sum m ns"
  unfolding direct_sum_def by (rule fold_add_nonneg) (auto intro: zero_le_zero)

lemma share_bounded:
  assumes "\<And>n. n \<in> set ns \<Longrightarrow> plain fin (nc_DirectCost (the (m n)) :: 'f)" "n \<in> set ns"
    and "plain fin (S :: 'f)"
  shows "0 \<le> share_of S (direct_sum m ns) (length ns) (nc_DirectCost (the (m n))) \<and>
    share_of S (direct_sum m ns) (length ns) (nc_DirectCost (the (m n))) \<le> S"
proof (cases "direct_sum m ns = 0")
  case True
  have "1 \<le> int (length ns)" using assms(2) by (cases ns) auto
  with True thin [of S] one_le_count [of "int (length ns)"] assms(3) show ?thesis
    by (simp add: share_of_def plain_def)
next
  case False
  have "0 \<le> nc_DirectCost (the (m n)) / direct_sum m ns \<and> nc_DirectCost (the (m n)) / direct_sum m ns \<le> 1"
    using assms(1,2) False unfolding direct_sum_def by (intro share_of_sum) (auto simp: plain_def)
  with False part [of S] assms(3) mult_comm [of S] show ?thesis
    by (simp add: share_of_def plain_def)
qed

end

section \<open>Properties\<close>

text \<open>C16: when there is a shared cost and a recipient, every system namespace keeps its direct cost
  and has total 0, every other namespace gets the shared cost in the ratio of its direct cost (an
  equal part if no recipient has one), and the teams are rebuilt from the recipients; otherwise
  the costs are returned as they are. It holds for the code's floating point.\<close>

theorem allocation_rule:
  fixes c :: "f64 AggregatedCosts"
  assumes "iterates ks (ag_ByNamespace c)"
    and "allocateSharedCostsWithLabels ks (Some c) l = Some r"
    and "S = direct_sum (ag_ByNamespace c) (system_ns l ks)"
    and "D = direct_sum (ag_ByNamespace c) (tenant_ns l ks)"
  shows "if S \<noteq> 0 \<and> tenant_ns l ks \<noteq> [] then
      (\<forall>n. ag_ByNamespace r n = map_option (\<lambda>nc.
         if isSystemNamespace n (l n) then nc\<lparr>nc_TotalCost := 0\<rparr>
         else let shared = nc_SharedCost nc +
                    (if D = 0 then S / of_count (int (length (tenant_ns l ks)))
                     else S * (nc_DirectCost nc / D))
              in nc\<lparr>nc_SharedCost := shared, nc_TotalCost := nc_DirectCost nc + shared\<rparr>)
         (ag_ByNamespace c n)) \<and>
      ag_ByTeam r = tenant_teams (ag_ByNamespace r) (tenant_ns l ks)
    else r = c"
  using allocate_entries(1,2) [OF assms(1) _ assms(2)] allocate_unchanged [of ks c l] assms(2)
  by (auto simp: redistributes_def receive_def redistributed_def entry_share_def share_of_def assms(3,4)
      Let_def split: option.split)

text \<open>C17: in exact arithmetic the allocation keeps the bill: aggregating a bill over the pods and then
  allocating the shared costs gives a total, a sum over the namespaces and a sum over the teams
  that are all equal to the bill, whatever the labels and the visiting orders.\<close>

theorem pipeline_conserves_bill:
  fixes c :: "real AWSCostData"
  assumes "cm_Pods m \<noteq> []" "distinct (map pod_key (cm_Pods m))"
    and "a = correlateAndAggregate ks now (Some m) (Some c)" "iterates ks (ag_ByNamespace a)"
    and "iterates ks' (ag_ByNamespace a)" "allocateSharedCostsWithLabels ks' (Some a) l = Some r"
  shows "ag_TotalCost r = aws_TotalCost c \<and>
    (\<Sum>n\<in>dom (ag_ByNamespace r). nc_TotalCost (the (ag_ByNamespace r n))) = aws_TotalCost c \<and>
    (\<Sum>t\<in>dom (ag_ByTeam r). tc_TotalCost (the (ag_ByTeam r t))) = aws_TotalCost c"
proof -
  note total = pods_total [OF assms(1,2) assms(4) [unfolded assms(3)], folded assms(3)]
  have fresh: "ag_ByNamespace a n = Some nc \<Longrightarrow> nc_SharedCost nc = 0 \<and> nc_TotalCost nc = nc_DirectCost nc" for n nc
    using correlate_groups(1) [OF assms(2), of ks now c] assms(3)
    by (auto simp: finalize_namespace_def ns_spec_def split: if_splits)
  with total have "unallocated a" by (auto simp: unallocated_def)
  from allocate_exact [OF assms(5) this assms(6)] total allocate_unchanged [of ks' a l] assms(6)
  show ?thesis by (cases "redistributes ks' a l") auto
qed

text \<open>In floating point, with finite non-negative direct costs and a finite sum to share, every
  recipient's share lies between 0 and that sum, and a recipient without an earlier share pays at
  least its direct cost.\<close>

lemma shares_bounded:
  fixes c :: "f64 AggregatedCosts"
  assumes "iterates ks (ag_ByNamespace c)" "redistributes ks c l"
    and "allocateSharedCostsWithLabels ks (Some c) l = Some r"
    and "\<forall>n nc. ag_ByNamespace c n = Some nc \<longrightarrow> plain is_fin (nc_DirectCost nc)"
    and "is_fin (direct_sum (ag_ByNamespace c) (system_ns l ks))"
    and "n \<in> set (tenant_ns l ks)" "ag_ByNamespace c n = Some nc" "nc_SharedCost nc = 0"
  shows "\<exists>nc'. ag_ByNamespace r n = Some nc' \<and> 0 \<le> nc_SharedCost nc' \<and>
    nc_SharedCost nc' \<le> direct_sum (ag_ByNamespace c) (system_ns l ks) \<and>
    nc_DirectCost nc' = nc_DirectCost nc \<and> nc_DirectCost nc \<le> nc_TotalCost nc'"
proof -
  let ?S = "direct_sum (ag_ByNamespace c) (system_ns l ks)"
  have direct: "k \<in> dom (ag_ByNamespace c) \<Longrightarrow> plain is_fin (nc_DirectCost (the (ag_ByNamespace c k)))" for k
    using assms(4) by auto
  have "plain is_fin ?S"
    using assms(5) direct ns_groups(3) [OF assms(1)]
    by (auto simp: plain_def intro!: ieee.direct_sum_nonneg)
  with ieee.share_bounded [of "tenant_ns l ks" "ag_ByNamespace c" n ?S] direct ns_groups(4) [OF assms(1)] assms(6,7)
  have share: "0 \<le> entry_share ks c l (nc_DirectCost nc)" "entry_share ks c l (nc_DirectCost nc) \<le> ?S"
    by (fastforce simp: entry_share_def)+
  then have fin: "is_fin (entry_share ks c l (nc_DirectCost nc))" using ieee.fin_between assms(5) by blast
  have zero: "0 + x = x" if "0 \<le> x" for x :: f64
    using that by transfer (simp add: fadd_zero)
  have "ag_ByNamespace r n = Some (receive (entry_share ks c l) nc)"
    using allocate_entries(1) [OF assms(1-3), of n] assms(7) ns_groups(4) [OF assms(1), of n l] assms(6) by simp
  moreover have "nc_DirectCost nc \<le> nc_DirectCost nc + entry_share ks c l (nc_DirectCost nc)"
    using assms(4,7) share(1) ieee.add_ge unfolding plain_def by blast
  ultimately show ?thesis
    using share zero ieee.le_trans [OF share] by (simp add: receive_def Let_def assms(8))
qed

subsection \<open>The properties at work\<close>

definition demo_costs :: "'f::{zero,one,scaleR} AggregatedCosts" where
  "demo_costs = \<lparr>ag_Timestamp = 0,
     ag_ByNamespace = [''kube-system'' \<mapsto> (new_namespace False ''kube-system'')\<lparr>nc_DirectCost := lit 10, nc_TotalCost := lit 10\<rparr>,
       ''a'' \<mapsto> (new_namespace False ''a'')\<lparr>nc_DirectCost := lit 30, nc_TotalCost := lit 30, nc_Team := ''red''\<rparr>,
       ''b'' \<mapsto> (new_namespace False ''b'')\<lparr>nc_DirectCost := lit 10, nc_TotalCost := lit 10\<rparr>],
     ag_ByTeam = Map.empty, ag_TotalCost = lit 50\<rparr>"

definition demo_order :: "string list" where
  "demo_order = [''b'', ''kube-system'', ''a'']"

lemma demo_split:
  "system_ns Map.empty demo_order = [''kube-system'']" "tenant_ns Map.empty demo_order = [''b'', ''a'']"
  by (simp_all add: system_ns_def tenant_ns_def demo_order_def isSystemNamespace_def systemNamespaces_def
      NamespaceKubeSystem_def NamespaceKubePublic_def NamespaceKubeNodeLease_def)

lemma demo_order_iterates: "iterates demo_order (ag_ByNamespace demo_costs)"
  by (auto simp: iterates_def demo_order_def demo_costs_def)

lemma demo_sums:
  "direct_sum (ag_ByNamespace demo_costs) [''kube-system''] = mk 10"
  "direct_sum (ag_ByNamespace demo_costs) [''b'', ''a''] = mk 40"
  by (simp_all add: direct_sum_def demo_costs_def lit_f64 mk_0 [symmetric])

lemma demo_redistributes: "redistributes demo_order (demo_costs :: f64 AggregatedCosts) Map.empty"
  by (simp add: redistributes_def demo_split demo_sums)

lemma allocates: "\<exists>r. allocateSharedCostsWithLabels ks (Some c) l = Some r"
  by (simp add: allocateSharedCostsWithLabels_def Let_def)

lemma exact_quarter: "exact64 (3/4)" "exact64 (15/2)" "exact64 (75/2)"
  using exact64_dyadic [of 3 2] exact64_dyadic [of 15 1] exact64_dyadic [of 75 1] by simp_all

lemma allocation_rule_witness:
  "\<exists>r nc. allocateSharedCostsWithLabels demo_order (Some demo_costs) Map.empty = Some r \<and>
     ag_ByNamespace r ''a'' = Some nc \<and> nc_SharedCost nc = mk (15/2) \<and> nc_TotalCost nc = mk (75/2)"
proof -
  obtain r where run: "allocateSharedCostsWithLabels demo_order (Some (demo_costs :: f64 AggregatedCosts)) Map.empty
      = Some r" using allocates by blast
  have "\<not> isSystemNamespace ''a'' None"
    by (simp add: isSystemNamespace_def systemNamespaces_def NamespaceKubeSystem_def
        NamespaceKubePublic_def NamespaceKubeNodeLease_def)
  with allocation_rule [OF demo_order_iterates run refl refl]
  have "ag_ByNamespace r ''a'' = map_option (\<lambda>nc. let shared = nc_SharedCost nc + mk 10 * (nc_DirectCost nc / mk 40)
      in nc\<lparr>nc_SharedCost := shared, nc_TotalCost := nc_DirectCost nc + shared\<rparr>) (ag_ByNamespace demo_costs ''a'')"
    by (simp add: demo_split demo_sums)
  then show ?thesis
    using run exact_quarter
    by (simp add: demo_costs_def new_namespace_def Let_def lit_f64 mk_0 [symmetric])
qed

lemma shares_bounded_witness:
  "\<exists>r nc. allocateSharedCostsWithLabels demo_order (Some demo_costs) Map.empty = Some r \<and>
     ag_ByNamespace r ''b'' = Some nc \<and> nc_SharedCost nc \<le> mk 10 \<and> mk 10 \<le> nc_TotalCost nc"
proof -
  obtain r where run: "allocateSharedCostsWithLabels demo_order (Some (demo_costs :: f64 AggregatedCosts)) Map.empty
      = Some r" using allocates by blast
  have direct: "\<forall>n nc. ag_ByNamespace (demo_costs :: f64 AggregatedCosts) n = Some nc \<longrightarrow>
      plain is_fin (nc_DirectCost nc)"
    by (auto simp: plain_def demo_costs_def lit_f64 mk_0 [symmetric] split: if_splits)
  obtain nc where nc: "ag_ByNamespace (demo_costs :: f64 AggregatedCosts) ''b'' = Some nc"
    "nc_SharedCost nc = 0" "nc_DirectCost nc = mk 10"
    by (simp add: demo_costs_def new_namespace_def lit_f64)
  have "is_fin (direct_sum (ag_ByNamespace demo_costs) (system_ns Map.empty demo_order))"
    "''b'' \<in> set (tenant_ns Map.empty demo_order)" by (simp_all add: demo_split demo_sums)
  from shares_bounded [OF demo_order_iterates demo_redistributes run direct this nc(1,2)] run nc(3)
  show ?thesis by (auto simp: demo_split demo_sums)
qed

lemma pipeline_conserves_bill_witness:
  "\<exists>r. allocateSharedCostsWithLabels [''b'', ''a'']
       (Some (correlateAndAggregate [''a'', ''b''] 0 (Some demo_metrics) (Some demo_bill)))
       [''b'' \<mapsto> [SharedLabelKey \<mapsto> ''true'']] = Some r \<and> ag_TotalCost r = (80::real)"
proof -
  let ?a = "correlateAndAggregate [''a'', ''b''] 0 (Some demo_metrics) (Some demo_bill) :: real AggregatedCosts"
  obtain r where run: "allocateSharedCostsWithLabels [''b'', ''a''] (Some ?a)
      [''b'' \<mapsto> [SharedLabelKey \<mapsto> ''true'']] = Some r" using allocates by blast
  have "iterates [''b'', ''a''] (ag_ByNamespace ?a)" by (auto simp: iterates_def demo_namespaces)
  from pipeline_conserves_bill [OF demo_pods demo_keys refl demo_iterates this run]
  have "ag_TotalCost r = aws_TotalCost demo_bill" by blast
  with run show ?thesis by (simp only: demo_bill_def AWSCostData.select_convs lit_real) blast
qed

end
