(* ===== verification/Cost_Collector.thy ===== *)
theory Cost_Collector
  imports Aws_Fetch Shared_Costs
begin

text \<open>
  \<^verbatim>\<open>pkg/collector/collector.go\<close>, \<^verbatim>\<open>store.go\<close> and \<^verbatim>\<open>scheduler.go\<close>: the metrics of the cluster are
  read from the Kubernetes APIs, costs from AWS with a cache to fall back on, and one cycle of
  the scheduler collects, correlates, allocates and stores. The Kubernetes lists, the AWS fetcher
  and the database are parameters that act on a state \<open>'s\<close>.
\<close>

section \<open>Metrics of the cluster\<close>

text \<open>
  Of the Kubernetes objects only what the code reads: names, labels, annotations, and of a
  quantity its \<^verbatim>\<open>MilliValue\<close> (CPU) or \<^verbatim>\<open>Value\<close> (memory).
\<close>

record KubePodMetrics =
  kpm_Name :: string
  kpm_Namespace :: string
  kpm_Containers :: "(int \<times> int) list"

record KubePod =
  kp_Name :: string
  kp_Namespace :: string
  kp_NodeName :: string
  kp_Labels :: labels

record KubeNodeMetrics =
  knm_Name :: string
  knm_Cpu :: int
  knm_Memory :: int

record KubeNode =
  kn_Name :: string
  kn_Labels :: labels
  kn_Annotations :: labels
  kn_CpuCapacity :: int
  kn_MemCapacity :: int

definition quantityToFloat64Cores :: "int \<Rightarrow> 'f::{one,inverse,scaleR}" where
  "quantityToFloat64Cores milli = of_count milli / lit 1000"

definition quantityToFloat64Bytes :: "int \<Rightarrow> 'f::{one,scaleR}" where
  "quantityToFloat64Bytes v = of_count v"

text \<open>The values of the two capacity labels that name an option; others fall through.\<close>

definition karpenter_option :: "string \<Rightarrow> string option" where
  "karpenter_option capacityType =
     (if capacityType = ''spot'' then Some ''spot''
      else if capacityType = ''on-demand'' then Some ''on_demand'' else None)"

definition eks_option :: "string \<Rightarrow> string option" where
  "eks_option capacityType =
     (if capacityType = ''SPOT'' then Some ''spot''
      else if capacityType = ''ON_DEMAND'' then Some ''on_demand'' else None)"

definition detectPurchaseOption :: "KubeNode \<Rightarrow> string" where
  "detectPurchaseOption node =
     (case label (kn_Labels node) ''finops.eks.io/purchase-option'' of Some opt \<Rightarrow> opt
      | None \<Rightarrow>
     (case label (kn_Annotations node) ''finops.eks.io/purchase-option'' of Some opt \<Rightarrow> opt
      | None \<Rightarrow>
     (case Option.bind (label (kn_Labels node) ''karpenter.sh/capacity-type'') karpenter_option of
        Some opt \<Rightarrow> opt
      | None \<Rightarrow>
     (case Option.bind (label (kn_Labels node) ''eks.amazonaws.com/capacityType'') eks_option of
        Some opt \<Rightarrow> opt
      | None \<Rightarrow> ''on_demand''))))"

definition pod_lookup :: "KubePod list \<Rightarrow> (string \<rightharpoonup> KubePod)" where
  "pod_lookup pods = fold (\<lambda>p m. m(kp_Namespace p @ ''/'' @ kp_Name p \<mapsto> p)) pods Map.empty"

definition pod_metrics :: "(string \<rightharpoonup> KubePod) \<Rightarrow> KubePodMetrics \<Rightarrow> 'f::{zero,one,plus,inverse,scaleR} PodMetrics" where
  "pod_metrics lookup pm =
     (let found = lookup (kpm_Namespace pm @ ''/'' @ kpm_Name pm) in
      \<lparr>pm_Name = kpm_Name pm, pm_Namespace = kpm_Namespace pm,
       pm_NodeName = (case found of Some pod \<Rightarrow> kp_NodeName pod | None \<Rightarrow> []),
       pm_CPUUsage = fold (\<lambda>(cpu, mem) s. s + quantityToFloat64Cores cpu) (kpm_Containers pm) 0,
       pm_MemUsage = fold (\<lambda>(cpu, mem) s. s + quantityToFloat64Bytes mem) (kpm_Containers pm) 0,
       pm_NetUsage = 0, pm_Storage = 0,
       pm_Labels = (case found of Some pod \<Rightarrow> kp_Labels pod | None \<Rightarrow> None)\<rparr>)"

definition node_lookup :: "KubeNode list \<Rightarrow> (string \<rightharpoonup> KubeNode)" where
  "node_lookup nodes = fold (\<lambda>n m. m(kn_Name n \<mapsto> n)) nodes Map.empty"

definition node_metrics :: "(string \<rightharpoonup> KubeNode) \<Rightarrow> KubeNodeMetrics \<Rightarrow> 'f::{zero,one,inverse,scaleR} NodeMetrics" where
  "node_metrics lookup nm =
     (let found = lookup (knm_Name nm);
          read = (\<lambda>d g. case found of Some node \<Rightarrow> g node | None \<Rightarrow> d) in
      \<lparr>nm_Name = knm_Name nm,
       nm_InstanceType = (case found of None \<Rightarrow> [] | Some node \<Rightarrow>
         (case label (kn_Labels node) ''node.kubernetes.io/instance-type'' of Some t \<Rightarrow> t | None \<Rightarrow> [])),
       nm_PurchaseOption = (case found of None \<Rightarrow> [] | Some node \<Rightarrow> detectPurchaseOption node),
       nm_CPUCapacity = read 0 (\<lambda>node. quantityToFloat64Cores (kn_CpuCapacity node)),
       nm_CPUUsage = quantityToFloat64Cores (knm_Cpu nm),
       nm_MemCapacity = read 0 (\<lambda>node. quantityToFloat64Bytes (kn_MemCapacity node)),
       nm_MemUsage = quantityToFloat64Bytes (knm_Memory nm),
       nm_NetUsage = 0, nm_Storage = 0,
       nm_Labels = (case found of None \<Rightarrow> None | Some node \<Rightarrow> kn_Labels node)\<rparr>)"

datatype collect_error = EPodMetricsList go_error | EPodList go_error | ENodeMetricsList go_error | ENodeList go_error

record 's Cluster =
  cl_PodMetrics :: "'s \<Rightarrow> go_error + KubePodMetrics list"
  cl_Pods :: "'s \<Rightarrow> go_error + KubePod list"
  cl_NodeMetrics :: "'s \<Rightarrow> go_error + KubeNodeMetrics list"
  cl_Nodes :: "'s \<Rightarrow> go_error + KubeNode list"

definition collectPodMetrics ::
    "'s Cluster \<Rightarrow> 's \<Rightarrow> collect_error + 'f::{zero,one,plus,inverse,scaleR} PodMetrics list" where
  "collectPodMetrics k s =
     (case cl_PodMetrics k s of Inl e \<Rightarrow> Inl (EPodMetricsList e)
      | Inr pms \<Rightarrow> (case cl_Pods k s of Inl e \<Rightarrow> Inl (EPodList e)
          | Inr pods \<Rightarrow> Inr (map (pod_metrics (pod_lookup pods)) pms)))"

definition collectNodeMetrics ::
    "'s Cluster \<Rightarrow> 's \<Rightarrow> collect_error + 'f::{zero,one,inverse,scaleR} NodeMetrics list" where
  "collectNodeMetrics k s =
     (case cl_NodeMetrics k s of Inl e \<Rightarrow> Inl (ENodeMetricsList e)
      | Inr nms \<Rightarrow> (case cl_Nodes k s of Inl e \<Rightarrow> Inl (ENodeList e)
          | Inr nodes \<Rightarrow> Inr (map (node_metrics (node_lookup nodes)) nms)))"

definition CollectClusterMetrics ::
    "'s Cluster \<Rightarrow> time \<Rightarrow> 's \<Rightarrow> collect_error + 'f::{zero,one,plus,inverse,scaleR} ClusterMetrics" where
  "CollectClusterMetrics k now s =
     (case collectPodMetrics k s of Inl e \<Rightarrow> Inl e
      | Inr pods \<Rightarrow> (case collectNodeMetrics k s of Inl e \<Rightarrow> Inl e
          | Inr nodes \<Rightarrow> Inr \<lparr>cm_Timestamp = now, cm_Pods = pods, cm_Nodes = nodes\<rparr>))"

section \<open>AWS costs with a fallback\<close>

datatype fetch_error = EFetcherMissing | EFetch go_error | EBucketMissing | ECur cur_error

text \<open>
  \<open>now\<close> is the time the call of the fetcher has returned. A nil fetcher or cache is \<open>None\<close>. The
  cached value is copied, so that marking it as approximate leaves the cache alone.
\<close>

definition FetchAWSCosts ::
    "('s \<Rightarrow> (go_error + 'f AWSCostData) \<times> 's) option \<Rightarrow> time \<Rightarrow> 'f CostCache option \<Rightarrow> 's \<Rightarrow>
     (fetch_error + 'f AWSCostData) \<times> 'f CostCache option \<times> 's" where
  "FetchAWSCosts awsFetcher now cache s =
     (case awsFetcher of None \<Rightarrow> (Inl EFetcherMissing, cache, s)
      | Some fetch \<Rightarrow>
          (case fetch s of
             (Inl err, s') \<Rightarrow>
               (case cache of None \<Rightarrow> (Inl (EFetch err), cache, s')
                | Some c \<Rightarrow> (case cache_Get now c of
                      Some cached \<Rightarrow> (Inr (cached\<lparr>aws_IsApproximate := True\<rparr>), cache, s')
                    | None \<Rightarrow> (Inl (EFetch err), cache, s')))
           | (Inr data, s') \<Rightarrow>
               (Inr data, map_option (cache_Set now data) cache, s')))"

definition FetchCURData ::
    "(string \<Rightarrow> string \<Rightarrow> 's \<Rightarrow> (cur_error + 'f CURData) \<times> 's) option \<Rightarrow> string \<Rightarrow> string \<Rightarrow> 's \<Rightarrow>
     (fetch_error + 'f CURData) \<times> 's" where
  "FetchCURData fetchCUR curBucket curPrefix s =
     (case fetchCUR of None \<Rightarrow> (Inl EFetcherMissing, s)
      | Some fetch \<Rightarrow> if curBucket = [] then (Inl EBucketMissing, s)
          else (case fetch curBucket curPrefix s of
             (Inl e, s') \<Rightarrow> (Inl (ECur e), s') | (Inr d, s') \<Rightarrow> (Inr d, s')))"

section \<open>Correlation and allocation\<close>

text \<open>
  \<^verbatim>\<open>CorrelateAndAggregate\<close> adds only logging to \<open>correlateAndAggregate\<close>, which never fails.
  \<open>namespaces\<close> is the list of the namespaces with their labels, \<open>None\<close> without a client; if it
  cannot be read, only the well-known names are shared.
\<close>

definition namespace_labels :: "(go_error + (string \<times> labels) list) option \<Rightarrow> (string \<rightharpoonup> (string \<rightharpoonup> string))" where
  "namespace_labels namespaces =
     (case namespaces of
        Some (Inr items) \<Rightarrow> fold (\<lambda>(name, ls) m. m(name := ls)) items Map.empty
      | _ \<Rightarrow> Map.empty)"

definition AllocateSharedCosts ::
    "(go_error + (string \<times> labels) list) option \<Rightarrow> string list \<Rightarrow>
     'f::{zero,one,plus,times,inverse,scaleR} AggregatedCosts option \<Rightarrow> 'f AggregatedCosts option" where
  "AllocateSharedCosts namespaces ks costs =
     (case costs of None \<Rightarrow> None
      | Some c \<Rightarrow> allocateSharedCostsWithLabels ks (Some c) (namespace_labels namespaces))"

section \<open>The store\<close>

record 'f CostRow =
  cr_Time :: time
  cr_Namespace :: string
  cr_Service :: string
  cr_Team :: string
  cr_PodName :: string
  cr_NodeName :: string
  cr_InstanceType :: string
  cr_PurchaseOption :: string
  cr_CPUCost :: 'f
  cr_MemoryCost :: 'f
  cr_NetworkCost :: 'f
  cr_StorageCost :: 'f
  cr_TotalCost :: 'f
  cr_IsApproximate :: bool

definition cost_row :: "time \<Rightarrow> string \<Rightarrow> 'f NamespaceCost \<Rightarrow> string \<Rightarrow> 'f::zero \<Rightarrow> 'f CostRow" where
  "cost_row ts nsName nsCost podName cost =
     \<lparr>cr_Time = ts, cr_Namespace = nsName, cr_Service = [], cr_Team = nc_Team nsCost, cr_PodName = podName,
      cr_NodeName = [], cr_InstanceType = [], cr_PurchaseOption = [], cr_CPUCost = 0, cr_MemoryCost = 0,
      cr_NetworkCost = 0, cr_StorageCost = 0, cr_TotalCost = cost,
      cr_IsApproximate = nc_IsApproximate nsCost\<rparr>"

text \<open>\<open>nsOrder\<close> and \<open>podOrder n\<close> are the orders of the loops over the namespaces and the pods of one.\<close>

definition namespace_rows :: "time \<Rightarrow> string list \<Rightarrow> string \<Rightarrow> 'f::zero NamespaceCost \<Rightarrow> 'f CostRow list" where
  "namespace_rows ts pods nsName nsCost =
     (if 0 < length pods then map (\<lambda>(podName, podCost). cost_row ts nsName nsCost podName podCost)
        (range_map pods (nc_ByPod nsCost))
      else [cost_row ts nsName nsCost [] (nc_TotalCost nsCost)])"

definition store_batch ::
    "string list \<Rightarrow> (string \<Rightarrow> string list) \<Rightarrow> 'f::zero AggregatedCosts \<Rightarrow> 'f CostRow list" where
  "store_batch nsOrder podOrder costs =
     concat (map (\<lambda>(nsName, nsCost). namespace_rows (ag_Timestamp costs) (podOrder nsName) nsName nsCost)
       (range_map nsOrder (ag_ByNamespace costs)))"

datatype store_error = ECostsNil | EInsertRow nat go_error | EQuery go_error | EScan | EIterate go_error

text \<open>The results of a batch are read in order up to the first error.\<close>

fun first_error :: "nat \<Rightarrow> go_error option list \<Rightarrow> (nat \<times> go_error) option" where
  "first_error i [] = None"
| "first_error i (Some e # rs) = Some (i, e)"
| "first_error i (None # rs) = first_error (Suc i) rs"

definition StoreCostRecords ::
    "('f CostRow list \<Rightarrow> 's \<Rightarrow> go_error option list \<times> 's) \<Rightarrow> string list \<Rightarrow> (string \<Rightarrow> string list) \<Rightarrow>
     'f::zero AggregatedCosts option \<Rightarrow> 's \<Rightarrow> store_error option \<times> 's" where
  "StoreCostRecords sendBatch nsOrder podOrder costs s =
     (case costs of None \<Rightarrow> (Some ECostsNil, s)
      | Some c \<Rightarrow> let batch = store_batch nsOrder podOrder c in
          if length batch = 0 then (None, s)
          else (case sendBatch batch s of
             (results, s') \<Rightarrow> (case first_error 0 results of
                Some (i, err) \<Rightarrow> (Some (EInsertRow i err), s') | None \<Rightarrow> (None, s'))))"

text \<open>
  A query returns the rows it could scan or not, and the error its iteration ended with. The
  weekday and the day of the month are those of the row's instant in UTC.
\<close>

definition daily_record :: "time \<times> string \<times> 'f \<Rightarrow> 'f DailyCostRecord" where
  "daily_record r = (case r of (date, ns, cost) \<Rightarrow>
     \<lparr>dr_Date = date, dr_Namespace = ns, dr_TotalCost = cost, dr_DayOfWeek = Weekday date,
      dr_DayOfMonth = d_Day (Date date)\<rparr>)"

definition QueryCostRecords ::
    "(time \<Rightarrow> time \<Rightarrow> string option \<Rightarrow> 's \<Rightarrow> go_error + (time \<times> string \<times> 'f) option list \<times> go_error option) \<Rightarrow>
     time \<Rightarrow> time \<Rightarrow> string \<Rightarrow> 's \<Rightarrow> store_error + 'f DailyCostRecord list" where
  "QueryCostRecords query start till namespace s =
     (case query start till (if namespace \<noteq> [] then Some namespace else None) s of
        Inl e \<Rightarrow> Inl (EQuery e)
      | Inr (rows, err) \<Rightarrow>
          if list_ex (\<lambda>r. r = None) rows then Inl EScan
          else (case err of Some e \<Rightarrow> Inl (EIterate e)
                | None \<Rightarrow> Inr (map (daily_record \<circ> the) rows)))"

section \<open>One cycle\<close>

text \<open>The interfaces \<^verbatim>\<open>CostCollector\<close> and \<^verbatim>\<open>CostStore\<close>, as far as the scheduler calls them.\<close>

record ('s, 'f, 'e) Collector =
  co_CollectClusterMetrics :: "'s \<Rightarrow> ('e + 'f ClusterMetrics) \<times> 's"
  co_FetchAWSCosts :: "time \<Rightarrow> time \<Rightarrow> 's \<Rightarrow> ('e + 'f AWSCostData) \<times> 's"
  co_CorrelateAndAggregate :: "'f ClusterMetrics \<Rightarrow> 'f AWSCostData \<Rightarrow> 's \<Rightarrow> ('e + 'f AggregatedCosts) \<times> 's"
  co_AllocateSharedCosts :: "'f AggregatedCosts \<Rightarrow> 's \<Rightarrow> ('e + 'f AggregatedCosts) \<times> 's"

datatype ('e, 'g) cycle_error = ECollecting 'e | EFetching 'e | ECorrelating 'e | EAllocating 'e | EStoring 'g

definition CycleOnce ::
    "('s, 'f, 'e) Collector \<Rightarrow> ('f AggregatedCosts \<Rightarrow> 's \<Rightarrow> 'g option \<times> 's) \<Rightarrow> time \<Rightarrow> 's \<Rightarrow>
     ('e, 'g) cycle_error option \<times> 's" where
  "CycleOnce c store now s =
     (case co_CollectClusterMetrics c s of (Inl err, s1) \<Rightarrow> (Some (ECollecting err), s1) | (Inr metrics, s1) \<Rightarrow>
      let awsStart = now - 24 * hour in
     (case co_FetchAWSCosts c awsStart now s1 of (Inl err, s2) \<Rightarrow> (Some (EFetching err), s2) | (Inr costs, s2) \<Rightarrow>
     (case co_CorrelateAndAggregate c metrics costs s2 of (Inl err, s3) \<Rightarrow> (Some (ECorrelating err), s3)
      | (Inr aggregated, s3) \<Rightarrow>
     (case co_AllocateSharedCosts c aggregated s3 of (Inl err, s4) \<Rightarrow> (Some (EAllocating err), s4)
      | (Inr allocated, s4) \<Rightarrow>
     (case store allocated s4 of (Some err, s5) \<Rightarrow> (Some (EStoring err), s5) | (None, s5) \<Rightarrow> (None, s5))))))"

text \<open>
  \<^verbatim>\<open>Start\<close> runs a cycle at once and one per tick, whatever they return, until the context is done:
  \<open>ticks\<close> are the times of the ticks before that.
\<close>

definition StartCycles ::
    "('s, 'f, 'e) Collector \<Rightarrow> ('f AggregatedCosts \<Rightarrow> 's \<Rightarrow> 'g option \<times> 's) \<Rightarrow> time \<Rightarrow> time list \<Rightarrow> 's \<Rightarrow> 's" where
  "StartCycles c store now ticks s =
     fold (\<lambda>t s. snd (CycleOnce c store t s)) ticks (snd (CycleOnce c store now s))"

definition DefaultCollectionInterval :: int where
  "DefaultCollectionInterval = 5 * minute"

text \<open>
  The default collector: the state is the world's and the cache; \<open>ks\<close> and \<open>ks'\<close> are the orders in
  which the two loops over the namespaces visit them. Its allocation fails only on nil.
\<close>

datatype collector_error = CMetrics collect_error | CFetch fetch_error | CNil

definition DefaultCollector ::
    "'w Cluster \<Rightarrow> (time \<Rightarrow> time \<Rightarrow> 'w \<Rightarrow> (go_error + 'f AWSCostData) \<times> 'w) option \<Rightarrow>
     ('w \<Rightarrow> (go_error + (string \<times> labels) list) option) \<Rightarrow> string list \<Rightarrow> string list \<Rightarrow> time \<Rightarrow>
     ('w \<times> 'f CostCache option, 'f::{zero,one,plus,times,inverse,scaleR}, collector_error) Collector" where
  "DefaultCollector cluster fetcher namespaces ks ks' now =
     \<lparr>co_CollectClusterMetrics = (\<lambda>(w, cache).
        (case CollectClusterMetrics cluster now w of
           Inl e \<Rightarrow> (Inl (CMetrics e), (w, cache)) | Inr m \<Rightarrow> (Inr m, (w, cache)))),
      co_FetchAWSCosts = (\<lambda>start till (w, cache).
        (case FetchAWSCosts (map_option (\<lambda>f. f start till) fetcher) now cache w of
           (Inl e, cache', w') \<Rightarrow> (Inl (CFetch e), (w', cache')) | (Inr d, cache', w') \<Rightarrow> (Inr d, (w', cache')))),
      co_CorrelateAndAggregate = (\<lambda>m d st. (Inr (correlateAndAggregate ks now (Some m) (Some d)), st)),
      co_AllocateSharedCosts = (\<lambda>a (w, cache).
        (case AllocateSharedCosts (namespaces w) ks' (Some a) of
           None \<Rightarrow> (Inl CNil, (w, cache)) | Some r \<Rightarrow> (Inr r, (w, cache))))\<rparr>"

section \<open>What a cycle stores\<close>

lemma rows_sum:
  fixes nc :: "real NamespaceCost"
  assumes "iterates pods (nc_ByPod nc)" "pods \<noteq> []"
  shows "(\<Sum>row\<leftarrow>namespace_rows ts pods n nc. cr_TotalCost row) =
    (\<Sum>p\<in>dom (nc_ByPod nc). the (nc_ByPod nc p))"
proof -
  have "(\<Sum>row\<leftarrow>namespace_rows ts pods n nc. cr_TotalCost row) = (\<Sum>(p, c)\<leftarrow>range_map pods (nc_ByPod nc). c)"
    using assms(2) by (simp add: namespace_rows_def cost_row_def comp_def case_prod_unfold)
  then show ?thesis using sum_range_map [OF assms(1), of "\<lambda>p c. c"] by simp
qed

text \<open>The allocation changes totals and shares only.\<close>

lemma allocate_keeps:
  assumes "iterates ks (ag_ByNamespace c)" "allocateSharedCostsWithLabels ks (Some c) l = Some r"
    and "ag_ByNamespace c n = Some nc"
  shows "\<exists>nc'. ag_ByNamespace r n = Some nc' \<and> nc_DirectCost nc' = nc_DirectCost nc \<and>
    nc_ByPod nc' = nc_ByPod nc"
proof (cases "redistributes ks c l")
  case True
  with allocate_entries(1) [OF assms(1) True assms(2), of n] assms(3) show ?thesis
    by (simp add: redistributed_def receive_def Let_def)
qed (use assms in \<open>simp add: allocate_unchanged\<close>)

lemma pipeline_rows:
  fixes c :: "real AWSCostData"
  assumes "cm_Pods m \<noteq> []" "distinct (map pod_key (cm_Pods m))"
    and a: "a = correlateAndAggregate ks now (Some m) (Some c)" and it: "iterates ks (ag_ByNamespace a)"
    and r: "allocateSharedCostsWithLabels ks (Some a) l = Some r" and n: "ag_ByNamespace r n = Some nc"
    and pods: "iterates pods (nc_ByPod nc)"
  shows "(\<Sum>row\<leftarrow>namespace_rows ts pods n nc. cr_TotalCost row) = nc_DirectCost nc"
proof -
  from n allocate_dom [OF r it] obtain nc0 where n0: "ag_ByNamespace a n = Some nc0" by fastforce
  from allocate_keeps [OF it r n0] n
  have keep: "nc_DirectCost nc = nc_DirectCost nc0" "nc_ByPod nc = nc_ByPod nc0" by auto
  let ?cost = "pod_cost (cm_Pods m) (aws_TotalCost c)"
  from n0 have member: "\<exists>p\<in>set (cm_Pods m). pm_Namespace p = n"
    and nc0: "nc0 = finalize_namespace (ns_spec (aws_IsApproximate c) ?cost (cm_Pods m) n)"
    using correlate_groups(1) [OF assms(2), of ks now c] a by (auto split: if_splits)
  have by_pod: "nc_ByPod nc0 = group_map pm_Name (in_ns n) ?cost (cm_Pods m)"
    using last_map_group [OF distinct_names [OF assms(2)]] nc0 by (simp add: finalize_namespace_def ns_spec_def)
  then have "dom (nc_ByPod nc) \<noteq> {}" using member keep by (auto simp: dom_group_map in_ns_def)
  then have "nc_ByPod nc \<noteq> Map.empty" by auto
  then have "pods \<noteq> []" using iterates_Nil_iff [OF pods] by simp
  from rows_sum [OF pods this] keep by_pod nc0 show ?thesis
    by (simp add: sum_group_map finalize_namespace_def ns_spec_def)
qed

section \<open>Properties\<close>

text \<open>C35: when a fetch fails, the collector answers with the last successful answer, marked as
  approximate, for thirty minutes after it was stored, then with the error; the cache itself is
  not marked and not renewed.\<close>

theorem fetch_falls_back:
  assumes "cc_ttl c = 30 * minute" "fetch s = (Inl err, s')"
    and "FetchAWSCosts (Some (\<lambda>s. (Inr d, s))) t1 (Some c) s0 = (Inr d, cache, s0)"
  shows "FetchAWSCosts (Some fetch) t2 cache s =
    (if t2 - t1 \<le> 30 * minute then Inr (d\<lparr>aws_IsApproximate := True\<rparr>) else Inl (EFetch err), cache, s')"
proof -
  from assms(3) have cache: "cache = Some (cache_Set t1 d c)" by (simp add: FetchAWSCosts_def)
  show ?thesis
    using cost_cache.get_set [of t2 t1 d c] assms(1,2) by (simp add: FetchAWSCosts_def cache)
qed

text \<open>The rows a cycle stores for a namespace with pods add up to its direct cost, in exact
  arithmetic: what the allocation of shared costs added to the namespace is never stored.\<close>

lemma stored_rows_are_direct_costs:
  fixes c :: "real AWSCostData"
  assumes "cm_Pods m \<noteq> []" "distinct (map pod_key (cm_Pods m))"
    and "a = correlateAndAggregate ks now (Some m) (Some c)" "iterates ks (ag_ByNamespace a)"
    and "allocateSharedCostsWithLabels ks (Some a) l = Some r" "ag_ByNamespace r n = Some nc"
    and "iterates pods (nc_ByPod nc)"
  shows "(\<Sum>row\<leftarrow>namespace_rows (ag_Timestamp r) pods n nc. cr_TotalCost row) = nc_DirectCost nc"
  by (rule pipeline_rows [OF assms])

text \<open>A cycle touches the database only by storing: if the collector's calls leave it alone, then
  a cycle that fails before the store leaves it alone, and otherwise the database is what storing
  the allocated costs made of it.\<close>

lemma cycle_stores_last:
  assumes "\<And>s. db (snd (co_CollectClusterMetrics c s)) = db s" "\<And>a b s. db (snd (co_FetchAWSCosts c a b s)) = db s"
    and "\<And>m d s. db (snd (co_CorrelateAndAggregate c m d s)) = db s"
    and "\<And>a s. db (snd (co_AllocateSharedCosts c a s)) = db s"
    and "CycleOnce c store now s = (r, s')"
  shows "(\<exists>allocated s4 e. db s4 = db s \<and> store allocated s4 = (e, s') \<and> r = map_option EStoring e) \<or>
    db s' = db s \<and> (\<exists>e. r \<in> {Some (ECollecting e), Some (EFetching e), Some (ECorrelating e), Some (EAllocating e)})"
proof -
  obtain r1 s1 where 1: "co_CollectClusterMetrics c s = (r1, s1)" by fastforce
  show ?thesis
  proof (cases r1)
    case (Inl e)
    with assms(5) 1 assms(1) [of s] show ?thesis by (auto simp: CycleOnce_def)
  next
    case m: (Inr m)
    obtain r2 s2 where 2: "co_FetchAWSCosts c (now - 24 * hour) now s1 = (r2, s2)" by fastforce
    have db2: "db s2 = db s" using assms(1) [of s] assms(2) [of "now - 24 * hour" now s1] 1 2 by simp
    show ?thesis
    proof (cases r2)
      case (Inl e)
      with assms(5) 1 m 2 db2 show ?thesis by (auto simp: CycleOnce_def Let_def)
    next
      case d: (Inr d)
      obtain r3 s3 where 3: "co_CorrelateAndAggregate c m d s2 = (r3, s3)" by fastforce
      have db3: "db s3 = db s" using db2 assms(3) [of m d s2] 3 by simp
      show ?thesis
      proof (cases r3)
        case (Inl e)
        with assms(5) 1 m 2 d 3 db3 show ?thesis by (auto simp: CycleOnce_def Let_def)
      next
        case a: (Inr a)
        obtain r4 s4 where 4: "co_AllocateSharedCosts c a s3 = (r4, s4)" by fastforce
        have db4: "db s4 = db s" using db3 assms(4) [of a s3] 4 by simp
        show ?thesis
        proof (cases r4)
          case (Inl e)
          with assms(5) 1 m 2 d 3 a 4 db4 show ?thesis by (auto simp: CycleOnce_def Let_def)
        next
          case b: (Inr b)
          obtain e s5 where "store b s4 = (e, s5)" by fastforce
          with assms(5) 1 m 2 d 3 a 4 b have "store b s4 = (e, s')" "r = map_option EStoring e"
            by (auto simp: CycleOnce_def Let_def split: option.splits)
          with db4 show ?thesis by blast
        qed
      qed
    qed
  qed
qed

text \<open>A node's own label decides its purchase option, then its annotation; without them the
  answer is spot exactly when Karpenter's label says so, or says nothing valid and EKS's does.\<close>

lemma purchase_option_decided:
  "detectPurchaseOption node =
    (case label (kn_Labels node) ''finops.eks.io/purchase-option'' of Some opt \<Rightarrow> opt
     | None \<Rightarrow> (case label (kn_Annotations node) ''finops.eks.io/purchase-option'' of Some opt \<Rightarrow> opt
       | None \<Rightarrow> if label (kn_Labels node) ''karpenter.sh/capacity-type'' = Some ''spot'' \<or>
           label (kn_Labels node) ''karpenter.sh/capacity-type'' \<noteq> Some ''on-demand'' \<and>
           label (kn_Labels node) ''eks.amazonaws.com/capacityType'' = Some ''SPOT''
         then ''spot'' else ''on_demand''))"
  by (auto simp: detectPurchaseOption_def karpenter_option_def eks_option_def
      split: option.split bind_split)

subsection \<open>The properties at work\<close>

definition demo_error :: go_error where
  "demo_error = \<lparr>ge_ErrorCode = None, ge_HTTPStatusCode = None, ge_Error = ''timeout''\<rparr>"

lemma fetch_falls_back_witness:
  "FetchAWSCosts (Some (\<lambda>s. (Inl demo_error, s))) (20 * minute)
     (Some (cache_Set 0 demo_bill (NewCostCache :: f64 CostCache))) () =
   (Inr (demo_bill\<lparr>aws_IsApproximate := True\<rparr>), Some (cache_Set 0 demo_bill NewCostCache), ())"
proof -
  have "cc_ttl (NewCostCache :: f64 CostCache) = 30 * minute"
    by (simp add: NewCostCache_def defaultCacheTTL_def)
  from fetch_falls_back [OF this, of "\<lambda>s. (Inl demo_error, s)" "()" demo_error "()" demo_bill 0 "()"
      "Some (cache_Set 0 demo_bill NewCostCache)" "20 * minute"]
  show ?thesis by (simp add: FetchAWSCosts_def time_units)
qed

lemma stored_rows_are_direct_costs_witness:
  "\<exists>r nc. allocateSharedCostsWithLabels [''a'', ''b'']
       (Some (correlateAndAggregate [''a'', ''b''] 0 (Some demo_metrics) (Some demo_bill)))
       [''b'' \<mapsto> [SharedLabelKey \<mapsto> ''true'']] = Some r \<and> ag_ByNamespace r ''a'' = Some nc \<and>
     (\<Sum>row\<leftarrow>namespace_rows (ag_Timestamp r) [''x''] ''a'' nc. cr_TotalCost row) = (nc_DirectCost nc :: real)"
proof -
  let ?a = "correlateAndAggregate [''a'', ''b''] 0 (Some demo_metrics) (Some demo_bill) :: real AggregatedCosts"
  obtain r where run: "allocateSharedCostsWithLabels [''a'', ''b''] (Some ?a)
      [''b'' \<mapsto> [SharedLabelKey \<mapsto> ''true'']] = Some r" using allocates by blast
  have it: "iterates [''a'', ''b''] (ag_ByNamespace ?a)" by (rule demo_iterates)
  have "''a'' \<in> dom (ag_ByNamespace ?a)" by (simp only: demo_namespaces) simp
  then obtain nc0 where nc0: "ag_ByNamespace ?a ''a'' = Some nc0" by auto
  from allocate_keeps [OF it run nc0] obtain nc where nc: "ag_ByNamespace r ''a'' = Some nc"
    "nc_ByPod nc = nc_ByPod nc0" by auto
  have "filter (in_ns ''a'') (cm_Pods demo_metrics) = [demo_pod ''a'' ''x'' (1::real) 2 ''red'']"
    by (simp add: demo_metrics_def in_ns_def, simp add: demo_pod_def)
  then have "dom (nc_ByPod nc) = {''x''}"
    using nc0 unfolding nc(2) correlate_groups(1) [OF demo_keys]
    by (auto simp: finalize_namespace_def ns_spec_def last_map_def demo_pod_def split: if_splits)
  then have "iterates [''x''] (nc_ByPod nc)" by (simp add: iterates_def)
  from stored_rows_are_direct_costs [OF demo_pods demo_keys refl it run nc(1) this] run nc(1)
  show ?thesis by blast
qed

definition demo_collector :: "(nat, f64, unit) Collector" where
  "demo_collector = \<lparr>co_CollectClusterMetrics = (\<lambda>s. (Inr demo_metrics, s)),
     co_FetchAWSCosts = (\<lambda>a b s. (Inl (), s)),
     co_CorrelateAndAggregate = (\<lambda>m d s. (Inr (correlateAndAggregate [] 0 (Some m) (Some d)), s)),
     co_AllocateSharedCosts = (\<lambda>a s. (Inr a, s))\<rparr>"

lemma cycle_stores_last_witness:
  "snd (CycleOnce demo_collector (\<lambda>a s. (None :: unit option, Suc s)) 0 7) = 7"
proof -
  let ?store = "\<lambda>a s. (None :: unit option, Suc s)"
  have run: "CycleOnce demo_collector ?store 0 7 = (Some (EFetching ()), snd (CycleOnce demo_collector ?store 0 7))"
    by (simp add: CycleOnce_def demo_collector_def Let_def)
  from cycle_stores_last [of id, OF _ _ _ _ run] show ?thesis by (simp add: demo_collector_def)
qed

end
