(* ===== verification/Audit_Log.thy ===== *)
theory Audit_Log
  imports Backoff "HOL-Library.Monad_Syntax"
begin

text \<open>
  \<^verbatim>\<open>pkg/audit\<close>: entries are written to the table \<^verbatim>\<open>audit_log\<close> and read back through a query that
  is built from the filters given. The pool of the database is a parameter that acts on a state
  \<open>'s\<close>. The locale \<open>audit_writer\<close> is what the callers rely on of a writer.
\<close>

section \<open>Entries\<close>

text \<open>
  A detail of an entry is one of the values the program puts there; a map of numbers is kept as
  its entries. A number that is not finite has no rendering in JSON.
\<close>

datatype 'f detail = DText string | DNum 'f | DFlag bool | DTexts "string list" | DNums "(string \<times> 'f) list"

type_synonym 'f details = "(string \<times> 'f detail) list"

record 'f AuditLogEntry =
  al_ID :: string
  al_Timestamp :: time
  al_Actor :: string
  al_Action :: string
  al_ResourceType :: string
  al_ResourceName :: string
  al_Namespace :: string
  al_Details :: "'f details"
  al_Reason :: "'f gotext"
  al_ExpectedSavings :: 'f
  al_Result :: string

record AuditQueryFilters =
  qf_Actor :: string
  qf_Action :: string
  qf_ResourceType :: string
  qf_Namespace :: string
  qf_StartTime :: time
  qf_EndTime :: time
  qf_Limit :: int

section \<open>Writing\<close>

definition encodable_num :: "'f::{zero,minus} \<Rightarrow> bool" where
  "encodable_num x \<longleftrightarrow> x - x = 0"

fun encodable :: "'f::{zero,minus} detail \<Rightarrow> bool" where
  "encodable (DText s) = True"
| "encodable (DNum x) = encodable_num x"
| "encodable (DFlag b) = True"
| "encodable (DTexts ss) = True"
| "encodable (DNums kvs) = list_all (\<lambda>(k, x). encodable_num x) kvs"

text \<open>
  \<^verbatim>\<open>json.Marshal(entry.Details)\<close>: a text of JSON is represented by what it renders, \<open>None\<close> is the
  error. The column stays empty then.
\<close>

definition marshal_details :: "'f::{zero,minus} details \<Rightarrow> 'f details option" where
  "marshal_details ds = (if list_all (\<lambda>(k, d). encodable d) ds then Some ds else None)"

text \<open>The arguments of the insert statement, in the order of its columns.\<close>

record 'f AuditRow =
  ar_timestamp :: time
  ar_actor :: string
  ar_action :: string
  ar_resource_type :: string
  ar_resource_name :: string
  ar_namespace :: string
  ar_details :: "'f details option"
  ar_reason :: "'f gotext"
  ar_expected_savings :: 'f
  ar_result :: string

definition audit_row :: "time \<Rightarrow> 'f::{zero,minus} AuditLogEntry \<Rightarrow> 'f AuditRow" where
  "audit_row now entry =
     (let detailsJSON = marshal_details (al_Details entry);
          ts = (if al_Timestamp entry = zero_time then now else al_Timestamp entry)
      in \<lparr>ar_timestamp = ts, ar_actor = al_Actor entry, ar_action = al_Action entry,
          ar_resource_type = al_ResourceType entry, ar_resource_name = al_ResourceName entry,
          ar_namespace = al_Namespace entry, ar_details = detailsJSON, ar_reason = al_Reason entry,
          ar_expected_savings = al_ExpectedSavings entry, ar_result = al_Result entry\<rparr>)"

definition WriteEntry ::
    "('f AuditRow \<Rightarrow> 's \<Rightarrow> go_error option \<times> 's) \<Rightarrow> time \<Rightarrow> 'f::{zero,minus} AuditLogEntry \<Rightarrow> 's \<Rightarrow>
     go_error option \<times> 's" where
  "WriteEntry exec now entry s =
     (case exec (audit_row now entry) s of
        (Some dbErr, s') \<Rightarrow> (None, s')
      | (None, s') \<Rightarrow> (None, s'))"

text \<open>
  The lines for the central log: a line for the entry before anything else, with all of its fields, and
  a line for a failure of the encoding and one for what became of the row. \<open>log_line\<close> adds a line to the log in the state.
\<close>

datatype 'f log_value = LText string | LTime time | LDetails "'f details" | LMessage "'f gotext" | LNum 'f

type_synonym 'f log_fields = "(string \<times> 'f log_value) list"

definition emitStructuredLog :: "'f AuditLogEntry \<Rightarrow> string \<times> 'f log_fields" where
  "emitStructuredLog entry = (''AuditEvent'',
     [(''audit_id'', LText (al_ID entry)), (''timestamp'', LTime (al_Timestamp entry)),
      (''actor'', LText (al_Actor entry)), (''action'', LText (al_Action entry)),
      (''resource_type'', LText (al_ResourceType entry)), (''resource_name'', LText (al_ResourceName entry)),
      (''namespace'', LText (al_Namespace entry)), (''details'', LDetails (al_Details entry)),
      (''reason'', LMessage (al_Reason entry)), (''expected_savings'', LNum (al_ExpectedSavings entry)),
      (''result'', LText (al_Result entry))])"

definition WriteEntry_logged ::
    "(string \<times> 'f log_fields \<Rightarrow> 's \<Rightarrow> 's) \<Rightarrow> ('f AuditRow \<Rightarrow> 's \<Rightarrow> go_error option \<times> 's) \<Rightarrow> time \<Rightarrow>
     'f::{zero,minus} AuditLogEntry \<Rightarrow> 's \<Rightarrow> go_error option \<times> 's" where
  "WriteEntry_logged log_line exec now entry s =
     (let s = log_line (emitStructuredLog entry) s;
          s = (if marshal_details (al_Details entry) = None
               then log_line (''Failed to marshal audit entry details'',
                 [(''action'', LText (al_Action entry)), (''resource'', LText (al_ResourceName entry))]) s
               else s)
      in (case exec (audit_row now entry) s of
            (Some dbErr, s) \<Rightarrow> (None, log_line (''Failed to write audit log entry to database'',
               [(''actor'', LText (al_Actor entry)), (''action'', LText (al_Action entry)),
                (''resource_type'', LText (al_ResourceType entry)),
                (''resource_name'', LText (al_ResourceName entry))]) s)
          | (None, s) \<Rightarrow> (None, log_line (''Audit log entry written'',
               [(''actor'', LText (al_Actor entry)), (''action'', LText (al_Action entry)),
                (''resource'', LText (al_ResourceName entry))]) s)))"

section \<open>Querying\<close>

datatype sql_arg = AText string | ATime time | AInt int

text \<open>One filter: without a value it adds nothing, with one a condition and its argument.\<close>

definition add_filter ::
    "bool \<Rightarrow> string \<Rightarrow> sql_arg \<Rightarrow> string list \<times> sql_arg list \<times> nat \<Rightarrow> string list \<times> sql_arg list \<times> nat" where
  "add_filter active cond arg st =
     (case st of (conditions, args, argIdx) \<Rightarrow>
        if active then (conditions @ [cond @ '' $'' @ itoa (int argIdx)], args @ [arg], argIdx + 1)
        else st)"

definition filter_conditions :: "AuditQueryFilters \<Rightarrow> string list \<times> sql_arg list \<times> nat" where
  "filter_conditions f =
     (add_filter (qf_EndTime f \<noteq> zero_time) ''timestamp <='' (ATime (qf_EndTime f)) \<circ>
      add_filter (qf_StartTime f \<noteq> zero_time) ''timestamp >='' (ATime (qf_StartTime f)) \<circ>
      add_filter (qf_Namespace f \<noteq> []) ''namespace ='' (AText (qf_Namespace f)) \<circ>
      add_filter (qf_ResourceType f \<noteq> []) ''resource_type ='' (AText (qf_ResourceType f)) \<circ>
      add_filter (qf_Action f \<noteq> []) ''action ='' (AText (qf_Action f)) \<circ>
      add_filter (qf_Actor f \<noteq> []) ''actor ='' (AText (qf_Actor f))) ([], [], 1)"

definition select_audit :: string where
  "select_audit = ''SELECT id, timestamp, actor, action, resource_type, resource_name, namespace, details, reason, expected_savings, result FROM audit_log''"

definition audit_query :: "AuditQueryFilters \<Rightarrow> string \<times> sql_arg list" where
  "audit_query f =
     (case filter_conditions f of (conditions, args, argIdx) \<Rightarrow>
      let query1 = (if 0 < length conditions
                    then select_audit @ '' WHERE '' @ join_strings '' AND '' conditions else select_audit);
          query2 = query1 @ '' ORDER BY timestamp DESC'';
          limit = (if qf_Limit f \<le> 0 then 100 else qf_Limit f)
      in (query2 @ '' LIMIT $'' @ itoa (int argIdx), args @ [AInt limit]))"

text \<open>
  The values of a row, in the order of the selected columns, and the conversions of \<^verbatim>\<open>Scan\<close> to the types
  of its targets: an integer can be read as a text, a null only as bytes. A message is kept as what
  it is made of; a JSON text is represented by the details it decodes to, \<open>None\<close> if it does not decode.
\<close>

datatype 'f column =
    CInt int
  | CTime time
  | CText string
  | CMessage "'f gotext"
  | CNum 'f
  | CJson "'f details option"
  | CNull

fun as_text :: "'f column \<Rightarrow> string option" where
  "as_text (CText s) = Some s"
| "as_text (CInt i) = Some (itoa i)"
| "as_text _ = None"

fun as_message :: "'f column \<Rightarrow> 'f gotext option" where
  "as_message (CMessage t) = Some t"
| "as_message (CText s) = Some [Txt s]"
| "as_message _ = None"

fun as_time :: "'f column \<Rightarrow> time option" where
  "as_time (CTime t) = Some t"
| "as_time _ = None"

fun as_number :: "'f column \<Rightarrow> 'f option" where
  "as_number (CNum x) = Some x"
| "as_number _ = None"

text \<open>Bytes: \<open>Some None\<close> for a null.\<close>

fun as_bytes :: "'f column \<Rightarrow> 'f details option option option" where
  "as_bytes (CJson ds) = Some (Some ds)"
| "as_bytes CNull = Some None"
| "as_bytes _ = None"

text \<open>\<^verbatim>\<open>rows.Scan\<close>: the entry without its details, and the bytes of the details; \<open>None\<close> is its error.\<close>

definition scan_row :: "'f column list \<Rightarrow> ('f AuditLogEntry \<times> 'f details option option) option" where
  "scan_row row = (case row of
     [c1, c2, c3, c4, c5, c6, c7, c8, c9, c10, c11] \<Rightarrow> do {
       i \<leftarrow> as_text c1;
       ts \<leftarrow> as_time c2;
       actor \<leftarrow> as_text c3;
       action \<leftarrow> as_text c4;
       ty \<leftarrow> as_text c5;
       name \<leftarrow> as_text c6;
       ns \<leftarrow> as_text c7;
       detailsJSON \<leftarrow> as_bytes c8;
       reason \<leftarrow> as_message c9;
       savings \<leftarrow> as_number c10;
       res \<leftarrow> as_text c11;
       Some (\<lparr>al_ID = i, al_Timestamp = ts, al_Actor = actor, al_Action = action, al_ResourceType = ty,
         al_ResourceName = name, al_Namespace = ns, al_Details = [], al_Reason = reason,
         al_ExpectedSavings = savings, al_Result = res\<rparr>, detailsJSON)
     }
   | _ \<Rightarrow> None)"

definition scan_entry :: "'f AuditLogEntry \<times> 'f details option option \<Rightarrow> 'f AuditLogEntry" where
  "scan_entry r = (case r of (e, detailsJSON) \<Rightarrow>
     (case detailsJSON of Some (Some ds) \<Rightarrow> e\<lparr>al_Details := ds\<rparr> | _ \<Rightarrow> e))"

datatype audit_error = EQueryAudit go_error | EScanAudit | EIterateAudit go_error

fun scan_entries :: "'f column list list \<Rightarrow> 'f AuditLogEntry list option" where
  "scan_entries [] = Some []"
| "scan_entries (row # rows) = (case scan_row row of None \<Rightarrow> None
     | Some r \<Rightarrow> map_option ((#) (scan_entry r)) (scan_entries rows))"

definition QueryEntries ::
    "(string \<times> sql_arg list \<Rightarrow> 's \<Rightarrow> go_error + 'f column list list \<times> go_error option) \<Rightarrow>
     AuditQueryFilters \<Rightarrow> 's \<Rightarrow> audit_error + 'f AuditLogEntry list" where
  "QueryEntries query filters s =
     (case query (audit_query filters) s of
        Inl err \<Rightarrow> Inl (EQueryAudit err)
      | Inr (rows, err) \<Rightarrow> (case scan_entries rows of
            None \<Rightarrow> Inl EScanAudit
          | Some entries \<Rightarrow> (case err of Some e \<Rightarrow> Inl (EIterateAudit e) | None \<Rightarrow> Inr entries)))"

text \<open>The writer without a database.\<close>

definition NoopWriteEntry :: "'f AuditLogEntry \<Rightarrow> 's \<Rightarrow> go_error option \<times> 's" where
  "NoopWriteEntry entry s = (None, s)"

definition NoopQueryEntries :: "AuditQueryFilters \<Rightarrow> 's \<Rightarrow> audit_error + 'f AuditLogEntry list" where
  "NoopQueryEntries filters s = Inr []"

section \<open>The contract of a writer\<close>

text \<open>
  The callers write and go on: an entry that could not be written must not be an error of theirs,
  and writing changes nothing but the log. \<open>view\<close> is the part of the state the callers work on.
\<close>

locale audit_writer =
  fixes log_entry :: "'f AuditLogEntry \<Rightarrow> 's \<Rightarrow> go_error option \<times> 's"
    and view :: "'s \<Rightarrow> 'v"
  assumes never_fails: "fst (log_entry e s) = None"
    and keeps_view: "view (snd (log_entry e s)) = view s"
begin

lemma write_result: "\<exists>s'. log_entry e s = (None, s') \<and> view s' = view s"
  using never_fails [of e s] keeps_view [of e s] by (metis prod.collapse)

lemma writes_keep_view: "view (fold (\<lambda>e s. snd (log_entry e s)) es s) = view s"
  by (induction es arbitrary: s) (simp_all add: keeps_view)

end

lemma WriteEntry_result: "WriteEntry exec now e s = (None, snd (exec (audit_row now e) s))"
  by (simp add: WriteEntry_def split: prod.split option.split)

text \<open>The database writer of a database that keeps the log apart from the rest of the state.\<close>

definition exec_apart ::
    "('f AuditRow \<Rightarrow> 'l \<Rightarrow> go_error option \<times> 'l) \<Rightarrow> 'f AuditRow \<Rightarrow> 'l \<times> 'v \<Rightarrow> go_error option \<times> 'l \<times> 'v" where
  "exec_apart exec row s = (case exec row (fst s) of (e, l) \<Rightarrow> (e, (l, snd s)))"

interpretation default_writer: audit_writer "WriteEntry (exec_apart exec) now" snd for exec now
  by unfold_locales (simp_all add: WriteEntry_result exec_apart_def split: prod.split)

interpretation noop_writer: audit_writer NoopWriteEntry view for view
  by unfold_locales (simp_all add: NoopWriteEntry_def)

text \<open>
  The line of an entry has the whole entry, and it is in the log whatever the database does with the
  row: what reads the line back, with the log a list beside the state of the database.
\<close>

definition read_line :: "string \<times> 'f log_fields \<Rightarrow> 'f AuditLogEntry option" where
  "read_line line = (if fst line \<noteq> ''AuditEvent'' then None else
     (case map (map_of (snd line)) [''audit_id'', ''timestamp'', ''actor'', ''action'', ''resource_type'',
          ''resource_name'', ''namespace'', ''details'', ''reason'', ''expected_savings'', ''result''] of
        [Some (LText i), Some (LTime t), Some (LText actor), Some (LText action), Some (LText ty), Some (LText name),
         Some (LText ns), Some (LDetails ds), Some (LMessage reason), Some (LNum savings), Some (LText res)] \<Rightarrow>
          Some \<lparr>al_ID = i, al_Timestamp = t, al_Actor = actor, al_Action = action, al_ResourceType = ty,
            al_ResourceName = name, al_Namespace = ns, al_Details = ds, al_Reason = reason,
            al_ExpectedSavings = savings, al_Result = res\<rparr>
      | _ \<Rightarrow> None))"

lemma read_line_entry: "read_line (emitStructuredLog entry) = Some entry"
  by (simp add: read_line_def emitStructuredLog_def)

lemma entry_always_logged:
  fixes entry :: "'f::{zero,minus} AuditLogEntry"
  assumes "\<And>row l db. exec row (l, db) = (fst (run row db), l, snd (run row db))"
  shows "\<exists>failures. WriteEntry_logged (\<lambda>line (l, db). (l @ [line], db)) exec now entry (lines, db) =
    (None, (lines @ [emitStructuredLog entry] @ failures, snd (run (audit_row now entry) db))) \<and>
    (\<forall>line\<in>set failures. read_line line = None)"
  using assms [of "audit_row now entry" _ db]
  by (auto simp: WriteEntry_logged_def Let_def read_line_def split: option.split prod.split)

section \<open>What a query asks for\<close>

text \<open>The reference: the columns that can be filtered, each with whether it is and by what.\<close>

definition audit_columns :: "AuditQueryFilters \<Rightarrow> (bool \<times> string \<times> sql_arg) list" where
  "audit_columns f =
     [(qf_Actor f \<noteq> [], ''actor ='', AText (qf_Actor f)),
      (qf_Action f \<noteq> [], ''action ='', AText (qf_Action f)),
      (qf_ResourceType f \<noteq> [], ''resource_type ='', AText (qf_ResourceType f)),
      (qf_Namespace f \<noteq> [], ''namespace ='', AText (qf_Namespace f)),
      (qf_StartTime f \<noteq> zero_time, ''timestamp >='', ATime (qf_StartTime f)),
      (qf_EndTime f \<noteq> zero_time, ''timestamp <='', ATime (qf_EndTime f))]"

definition wanted :: "AuditQueryFilters \<Rightarrow> (string \<times> sql_arg) list" where
  "wanted f = map snd (filter fst (audit_columns f))"

definition placed :: "nat \<Rightarrow> (string \<times> sql_arg) list \<Rightarrow> string list" where
  "placed n ws = map (\<lambda>(i, c, a). c @ '' $'' @ itoa (int i)) (List.enumerate n ws)"

lemma fold_add_filter:
  "fold (\<lambda>(active, c, a). add_filter active c a) cols (conditions, args, n) =
     (let ws = map snd (filter fst cols)
      in (conditions @ placed n ws, args @ map snd ws, n + length ws))"
proof (induction cols arbitrary: conditions args n)
  case (Cons col cols)
  obtain b c a where "col = (b, c, a)" by (cases col)
  then show ?case using Cons by (cases b) (simp_all add: add_filter_def placed_def Let_def)
qed (simp add: placed_def)

lemma filter_conditions_wanted:
  "filter_conditions f = (placed 1 (wanted f), map snd (wanted f), 1 + length (wanted f))"
proof -
  have "filter_conditions f = fold (\<lambda>(active, c, a). add_filter active c a) (audit_columns f) ([], [], 1)"
    by (simp add: filter_conditions_def audit_columns_def)
  then show ?thesis by (simp only: fold_add_filter Let_def wanted_def append_Nil)
qed

text \<open>The query asks for the conjunction of the filters that are set, newest first and with the
  given limit or 100: its \<open>i\<close>-th placeholder stands for the argument of the \<open>i\<close>-th condition, the
  last one for the limit. No value is part of the text of the statement.\<close>

lemma query_matches_filters:
  "audit_query f =
     (select_audit @ (if wanted f = [] then [] else '' WHERE '' @ join_strings '' AND ''
        (map (\<lambda>i. fst (wanted f ! i) @ '' $'' @ itoa (int (i + 1))) [0..<length (wanted f)])) @
      '' ORDER BY timestamp DESC'' @ '' LIMIT $'' @ itoa (int (length (wanted f) + 1)),
      map snd (wanted f) @ [AInt (if qf_Limit f \<le> 0 then 100 else qf_Limit f)])"
proof -
  have "placed 1 ws = map (\<lambda>i. fst (ws ! i) @ '' $'' @ itoa (int (i + 1))) [0..<length ws]" for ws
    by (rule nth_equalityI) (auto simp: placed_def nth_enumerate_eq split: prod.split)
  then show ?thesis
    by (simp add: audit_query_def filter_conditions_wanted Let_def)
qed

end
