(* ===== verification/Instance.thy ===== *)
theory Instance
  imports Cost_Collector Policy_Types Audit_Log
begin

text \<open>
  \<^verbatim>\<open>pkg/instance\<close>: the mix of Spot, On-Demand and reserved nodes is analysed, a mix that respects
  the policies is recommended and applied (as a simulation that leaves a trace in the audit log),
  pods are moved away from interrupted nodes and savings plans are evaluated. The Kubernetes
  client, the reader of the costs and the audit writer are parameters; \<open>now\<close> is the instant a call
  reads from the clock.
\<close>

section \<open>Data\<close>

record 'f PurchaseOptionStats =
  po_Count :: int
  po_Percentage :: 'f
  po_Cost :: 'f

record 'f InstanceMixAnalysis =
  ia_Timestamp :: time
  ia_TotalNodes :: int
  ia_ByPurchaseOption :: "string \<rightharpoonup> 'f PurchaseOptionStats"
  ia_CurrentCost :: 'f
  ia_OptimalCost :: 'f
  ia_PotentialSavings :: 'f

record 'f OptimizationRecommendation =
  or_ID :: string
  or_Timestamp :: time
  or_CurrentMix :: "string \<rightharpoonup> 'f"
  or_RecommendedMix :: "string \<rightharpoonup> 'f"
  or_ExpectedSavings :: 'f
  or_Reason :: "'f gotext"
  or_AffectedNodes :: "string list"
  or_PolicyCompliant :: bool

record 'f OptimizationResult =
  ot_RecommendationID :: string
  ot_Applied :: bool
  ot_Timestamp :: time
  ot_ActualSavings :: 'f
  ot_Message :: string

record 'f SavingsPlanRecommendation =
  sv_Timestamp :: time
  sv_AnalysisPeriodDays :: int
  sv_CurrentMonthlyCost :: 'f
  sv_EstimatedSavings :: 'f
  sv_RecommendedPlan :: string
  sv_CommitmentAmount :: 'f
  sv_CoveragePercent :: 'f

text \<open>The package has a record of its own for the costs of a day.\<close>

record 'f InstanceDailyCost =
  id_Date :: time
  id_TotalCost :: 'f

datatype instance_error = EListNodes go_error | EAnalysisNil | ERecommendationNil | EReadCosts go_error

section \<open>Classifying nodes\<close>

definition estimatedHourlyCost :: "string \<rightharpoonup> 'f::{one,scaleR}" where
  "estimatedHourlyCost =
     [''on_demand'' \<mapsto> lit (192/1000), ''spot'' \<mapsto> lit (70/1000), ''reserved'' \<mapsto> lit (120/1000)]"

text \<open>The hourly cost of an option, that of On-Demand when it is not in the table.\<close>

definition hourly_cost :: "string \<Rightarrow> 'f::{one,scaleR}" where
  "hourly_cost opt = (case estimatedHourlyCost opt of Some hourly \<Rightarrow> hourly
     | None \<Rightarrow> the (estimatedHourlyCost ''on_demand''))"

definition purchaseOptionLabels :: "string list" where
  "purchaseOptionLabels =
     [''eks.amazonaws.com/capacityType'', ''karpenter.sh/capacity-type'', ''finops.eks.io/purchase-option'']"

definition normalizePurchaseOption :: "string \<Rightarrow> string" where
  "normalizePurchaseOption raw =
     (if raw \<in> set [''ON_DEMAND'', ''on-demand'', ''ondemand'', ''OnDemand''] then ''on_demand''
      else if raw \<in> set [''SPOT'', ''Spot''] then ''spot''
      else if raw \<in> set [''RESERVED'', ''Reserved''] then ''reserved''
      else if raw = [] then ''on_demand''
      else raw)"

fun classify_labels :: "labels \<Rightarrow> string list \<Rightarrow> string" where
  "classify_labels ls [] = ''on_demand''"
| "classify_labels ls (l # rest) = (case label ls l of
     Some v \<Rightarrow> if v \<noteq> [] then normalizePurchaseOption v else classify_labels ls rest
   | None \<Rightarrow> classify_labels ls rest)"

definition classifyNode :: "KubeNode \<Rightarrow> string" where
  "classifyNode node = classify_labels (kn_Labels node) purchaseOptionLabels"

section \<open>The analysis\<close>

definition no_stats :: "'f::zero PurchaseOptionStats" where
  "no_stats = \<lparr>po_Count = 0, po_Percentage = 0, po_Cost = 0\<rparr>"

definition count_node ::
    "KubeNode \<Rightarrow> (string \<rightharpoonup> 'f PurchaseOptionStats) \<Rightarrow> (string \<rightharpoonup> 'f::zero PurchaseOptionStats)" where
  "count_node node m =
     (let opt = classifyNode node;
          stats = (case m opt of Some st \<Rightarrow> st | None \<Rightarrow> no_stats)
      in m(opt \<mapsto> stats\<lparr>po_Count := po_Count stats + 1\<rparr>))"

definition option_stats ::
    "int \<Rightarrow> string \<Rightarrow> 'f PurchaseOptionStats \<Rightarrow> 'f::{one,times,inverse,scaleR} PurchaseOptionStats" where
  "option_stats total_nodes opt stats =
     (let st = (if 0 < total_nodes
                then stats\<lparr>po_Percentage := of_count (po_Count stats) / of_count total_nodes * lit 100\<rparr>
                else stats)
      in st\<lparr>po_Cost := of_count (po_Count stats) * hourly_cost opt * lit 730\<rparr>)"

text \<open>\<open>ks\<close> is the order of the loop over the options.\<close>

definition analyze ::
    "string list \<Rightarrow> time \<Rightarrow> KubeNode list \<Rightarrow>
     'f::{zero,one,plus,minus,times,inverse,ord,size,scaleR} InstanceMixAnalysis" where
  "analyze ks now items =
     (let total_nodes = int (length items);
          counts = fold count_node items Map.empty;
          current = fold (\<lambda>(opt, stats) c. c + po_Cost (option_stats total_nodes opt stats)) (range_map ks counts) 0;
          onDemandMin = lit (20/100);
          spotNodes = trunc (of_count total_nodes * (1 - onDemandMin) :: 'f);
          odNodes = total_nodes - spotNodes;
          optimal = of_count odNodes * the (estimatedHourlyCost ''on_demand'') * lit 730 +
                    of_count spotNodes * the (estimatedHourlyCost ''spot'') * lit 730;
          savings = current - optimal
      in \<lparr>ia_Timestamp = now, ia_TotalNodes = total_nodes,
          ia_ByPurchaseOption = (\<lambda>opt. map_option (option_stats total_nodes opt) (counts opt)),
          ia_CurrentCost = current, ia_OptimalCost = optimal,
          ia_PotentialSavings = (if savings < 0 then 0 else savings)\<rparr>)"

definition AnalyzeInstanceMix ::
    "(go_error + KubeNode list) \<Rightarrow> string list \<Rightarrow> time \<Rightarrow>
     instance_error + 'f::{zero,one,plus,minus,times,inverse,ord,size,scaleR} InstanceMixAnalysis" where
  "AnalyzeInstanceMix nodeList ks now =
     (case nodeList of Inl err \<Rightarrow> Inl (EListNodes err) | Inr items \<Rightarrow> Inr (analyze ks now items))"

section \<open>The recommendation\<close>

text \<open>The constraints of the policies: the highest minimum, the lowest positive maximum, all types.\<close>

definition add_constraint ::
    "'f::{zero,ord} FinancialPolicy \<Rightarrow> 'f \<times> 'f \<times> string set option \<Rightarrow> 'f \<times> 'f \<times> string set option" where
  "add_constraint p st =
     (case InstanceMix (Spec p) of None \<Rightarrow> st
      | Some mix \<Rightarrow> (case st of (minOnDemandPct, maxSpotPct, allowedTypes) \<Rightarrow>
          (if minOnDemandPct < MinOnDemandPercent mix then MinOnDemandPercent mix else minOnDemandPct,
           if 0 < MaxSpotPercent mix \<and> MaxSpotPercent mix < maxSpotPct then MaxSpotPercent mix else maxSpotPct,
           if 0 < length (AllowedInstanceTypes mix)
           then Some ((case allowedTypes of Some ts \<Rightarrow> ts | None \<Rightarrow> {}) \<union> set (AllowedInstanceTypes mix))
           else allowedTypes)))"

definition constraints ::
    "'f FinancialPolicy list \<Rightarrow> 'f \<times> 'f::{zero,one,plus,minus,ord,scaleR}" where
  "constraints policies =
     (case fold add_constraint policies (0, lit 100, None) of (minOnDemandPct, maxSpotPct, allowedTypes) \<Rightarrow>
        (minOnDemandPct, if lit 100 < minOnDemandPct + maxSpotPct then lit 100 - minOnDemandPct else maxSpotPct))"

text \<open>The percentages of On-Demand, Spot and reserved nodes.\<close>

definition recommended ::
    "'f \<Rightarrow> 'f \<Rightarrow> 'f \<Rightarrow> 'f \<times> 'f \<times> 'f::{zero,one,minus,ord,scaleR}" where
  "recommended minOnDemandPct maxSpotPct reserved0 =
     (let reservedPct = (if lit 100 - minOnDemandPct < reserved0 then lit 100 - minOnDemandPct else reserved0);
          spot1 = (if lit 100 - minOnDemandPct - reservedPct < maxSpotPct
                   then lit 100 - minOnDemandPct - reservedPct else maxSpotPct);
          spot2 = (if spot1 < 0 then 0 else spot1);
          od1 = lit 100 - spot2 - reservedPct
      in if od1 < minOnDemandPct
         then (let spot3 = lit 100 - minOnDemandPct - reservedPct
               in (minOnDemandPct, if spot3 < 0 then 0 else spot3, reservedPct))
         else (od1, spot2, reservedPct))"

definition mix_cost ::
    "int \<Rightarrow> (string \<times> 'f) list \<Rightarrow> 'f::{zero,one,plus,times,inverse,scaleR}" where
  "mix_cost total_nodes mix =
     fold (\<lambda>(opt, pct) c. c + of_count total_nodes * pct / lit 100 * hourly_cost opt * lit 730) mix 0"

definition affected_nodes :: "int \<Rightarrow> string list" where
  "affected_nodes affectedCount =
     map (\<lambda>i. ''on-demand-node-'' @ itoa (int i + 1)) [0..<nat affectedCount]"

text \<open>
  \<open>ks\<close> is the order of the loop over the recommended mix. A nil policy would make the code panic;
  the callers pass none. The allowed instance types are collected and not used.
\<close>

definition GenerateRecommendation ::
    "string list \<Rightarrow> time \<Rightarrow> 'f InstanceMixAnalysis option \<Rightarrow> 'f FinancialPolicy list \<Rightarrow>
     instance_error + 'f::{zero,one,plus,minus,times,inverse,ord,size,scaleR} OptimizationRecommendation" where
  "GenerateRecommendation ks now analysis policies =
     (case analysis of None \<Rightarrow> Inl EAnalysisNil
      | Some a \<Rightarrow>
      (case constraints policies of (minOnDemandPct, maxSpotPct) \<Rightarrow>
       let currentMix = (\<lambda>opt. map_option po_Percentage (ia_ByPurchaseOption a opt)) in
      (case recommended minOnDemandPct maxSpotPct (at0 currentMix ''reserved'') of (odPct, spotPct, reservedPct) \<Rightarrow>
       let mix1 = [''on_demand'' \<mapsto> odPct, ''spot'' \<mapsto> spotPct];
           recommendedMix = (if 0 < reservedPct then mix1(''reserved'' \<mapsto> reservedPct) else mix1);
           expected = ia_CurrentCost a - mix_cost (ia_TotalNodes a) (range_map ks recommendedMix);
           expectedSavings = (if expected < 0 then 0 else expected);
           affectedNodes = (if ia_ByPurchaseOption a ''on_demand'' \<noteq> None \<and> at0 currentMix ''spot'' < spotPct
             then affected_nodes (trunc ((spotPct - at0 currentMix ''spot'') / lit 100 * of_count (ia_TotalNodes a)))
             else []);
           policyCompliant = (\<not> odPct < minOnDemandPct \<and> \<not> maxSpotPct < spotPct)
       in Inr \<lparr>or_ID = ''rec-'' @ itoa now, or_Timestamp = now, or_CurrentMix = currentMix,
               or_RecommendedMix = recommendedMix, or_ExpectedSavings = expectedSavings,
               or_Reason = [Txt ''Optimize instance mix: increase Spot to '', Fix 1 spotPct, Txt ''% (max '',
                 Fix 1 maxSpotPct, Txt ''%), maintain On-Demand at '', Fix 1 odPct, Txt ''% (min '',
                 Fix 1 minOnDemandPct, Txt ''%)''],
               or_AffectedNodes = affectedNodes, or_PolicyCompliant = policyCompliant\<rparr>)))"

text \<open>\<open>ks\<close> and \<open>ks'\<close> are the orders of the entries of the two mixes.\<close>

definition recommendation_entry ::
    "string list \<Rightarrow> string list \<Rightarrow> time \<Rightarrow> 'f OptimizationRecommendation \<Rightarrow> 'f AuditLogEntry" where
  "recommendation_entry ks ks' now r =
     \<lparr>al_ID = [], al_Timestamp = now, al_Actor = ''system'', al_Action = ''optimization_apply'',
      al_ResourceType = ''instance_mix'', al_ResourceName = or_ID r, al_Namespace = [],
      al_Details = [(''affected_nodes'', DTexts (or_AffectedNodes r)),
        (''recommended_mix'', DNums (range_map ks (or_RecommendedMix r))),
        (''current_mix'', DNums (range_map ks' (or_CurrentMix r)))],
      al_Reason = or_Reason r, al_ExpectedSavings = or_ExpectedSavings r, al_Result = ''success''\<rparr>"

definition ApplyRecommendation ::
    "('f AuditLogEntry \<Rightarrow> 's \<Rightarrow> go_error option \<times> 's) option \<Rightarrow> string list \<Rightarrow> string list \<Rightarrow> time \<Rightarrow>
     'f OptimizationRecommendation option \<Rightarrow> 's \<Rightarrow> (instance_error + 'f OptimizationResult) \<times> 's" where
  "ApplyRecommendation auditWriter ks ks' now recommendation s =
     (case recommendation of None \<Rightarrow> (Inl ERecommendationNil, s)
      | Some r \<Rightarrow>
          (let s' = (case auditWriter of None \<Rightarrow> s
                     | Some w \<Rightarrow> (case w (recommendation_entry ks ks' now r) s of
                          (Some err, s1) \<Rightarrow> s1 | (None, s1) \<Rightarrow> s1))
           in (Inr \<lparr>ot_RecommendationID = or_ID r, ot_Applied = True, ot_Timestamp = now,
                    ot_ActualSavings = or_ExpectedSavings r,
                    ot_Message = ''recommendation applied successfully (simulation)''\<rparr>, s')))"

section \<open>Spot interruptions\<close>

text \<open>Of a pod of the node: its name, its namespace, its annotations and the kinds of its owners.\<close>

record NodePod =
  np_Name :: string
  np_Namespace :: string
  np_Annotations :: labels
  np_OwnerKinds :: "string list"

fun evict_pods ::
    "(string \<times> string \<Rightarrow> 's \<Rightarrow> go_error option \<times> 's) \<Rightarrow> NodePod list \<Rightarrow> 's \<Rightarrow> 's" where
  "evict_pods evict [] s = s"
| "evict_pods evict (pod # pods) s =
     (if label (np_Annotations pod) ''kubernetes.io/config.mirror'' \<noteq> None then evict_pods evict pods s
      else if list_ex (\<lambda>k. k = ''DaemonSet'') (np_OwnerKinds pod) then evict_pods evict pods s
      else (case evict (np_Namespace pod, np_Name pod) s of
          (Some err, s') \<Rightarrow> evict_pods evict pods s'
        | (None, s') \<Rightarrow> evict_pods evict pods s'))"

definition HandleSpotInterruption ::
    "(string \<Rightarrow> 's \<Rightarrow> go_error + NodePod list) \<Rightarrow> (string \<times> string \<Rightarrow> 's \<Rightarrow> go_error option \<times> 's) \<Rightarrow>
     string \<Rightarrow> 's \<Rightarrow> instance_error option \<times> 's" where
  "HandleSpotInterruption listPods evict nodeID s =
     (case listPods (''spec.nodeName='' @ nodeID) s of
        Inl err \<Rightarrow> (None, s)
      | Inr pods \<Rightarrow> (None, evict_pods evict pods s))"

section \<open>Savings plans\<close>

definition EvaluateSavingsPlans ::
    "(time \<Rightarrow> time \<Rightarrow> go_error + 'f InstanceDailyCost list) option \<Rightarrow> time \<Rightarrow>
     instance_error + 'f::{zero,one,plus,minus,times,inverse,ord,scaleR} SavingsPlanRecommendation" where
  "EvaluateSavingsPlans costStore now =
     (case (case costStore of None \<Rightarrow> Inr [] | Some get \<Rightarrow> get (now - 30 * day) now) of
        Inl err \<Rightarrow> Inl (EReadCosts err)
      | Inr records \<Rightarrow>
          (let totalCost = fold (\<lambda>r c. c + id_TotalCost r) records 0; days = length records in
           if days = 0 then
             Inr \<lparr>sv_Timestamp = now, sv_AnalysisPeriodDays = 30, sv_CurrentMonthlyCost = 0,
                  sv_EstimatedSavings = 0, sv_RecommendedPlan = ''savings_plan'',
                  sv_CommitmentAmount = 0, sv_CoveragePercent = 0\<rparr>
           else
             let avgDailyCost = totalCost / of_count (int days);
                 currentMonthlyCost = avgDailyCost * lit 30;
                 savingsPlanDiscount = lit (25/100);
                 reservedDiscount = lit (35/100);
                 savingsPlanSavings = currentMonthlyCost * savingsPlanDiscount;
                 reservedSavings = currentMonthlyCost * reservedDiscount;
                 (recommendedPlan, estimated, commitmentAmount, coveragePct) =
                   (if savingsPlanSavings < reservedSavings
                    then (''reserved_instance'', reservedSavings, currentMonthlyCost * (1 - reservedDiscount), lit 80)
                    else (''savings_plan'', savingsPlanSavings, currentMonthlyCost * (1 - savingsPlanDiscount), lit 70))
             in Inr \<lparr>sv_Timestamp = now, sv_AnalysisPeriodDays = 30, sv_CurrentMonthlyCost = currentMonthlyCost,
                     sv_EstimatedSavings = (if estimated < 0 then 0 else estimated),
                     sv_RecommendedPlan = recommendedPlan, sv_CommitmentAmount = commitmentAmount,
                     sv_CoveragePercent = coveragePct\<rparr>))"

section \<open>Counting nodes\<close>

lemma count_nodes:
  "fold count_node items Map.empty opt =
     (if opt \<in> classifyNode ` set items
      then Some (no_stats\<lparr>po_Count := int (length (filter (\<lambda>n. classifyNode n = opt) items))\<rparr>) else None)"
proof (induction items rule: rev_induct)
  case (snoc n items)
  have "opt \<notin> classifyNode ` set items \<Longrightarrow> filter (\<lambda>n. classifyNode n = opt) items = []"
    by (auto simp: filter_empty_conv)
  with snoc show ?case
    by (cases "classifyNode n = opt") (auto simp: count_node_def Let_def no_stats_def)
qed simp

lemma dom_count_nodes: "dom (fold count_node items Map.empty) = classifyNode ` set items"
  by (auto simp: dom_def count_nodes)

lemma class_sum:
  fixes g :: "string \<Rightarrow> real"
  shows "(\<Sum>opt\<in>classifyNode ` set items. real (length (filter (\<lambda>n. classifyNode n = opt) items)) * g opt) =
    (\<Sum>n\<leftarrow>items. g (classifyNode n))"
proof -
  have "group_sum (\<lambda>n. classifyNode n = opt) (\<lambda>n. g (classifyNode n)) items =
      real (length (filter (\<lambda>n. classifyNode n = opt) items)) * g opt" for opt
    unfolding group_sum_real by (induction items) (auto simp: algebra_simps)
  moreover have "(\<Sum>opt\<in>classifyNode ` set items. group_sum (\<lambda>n. True \<and> classifyNode n = opt)
      (\<lambda>n. g (classifyNode n)) items) = group_sum (\<lambda>n. True) (\<lambda>n. g (classifyNode n)) items"
    by (rule group_sum_partition) auto
  ultimately show ?thesis by (simp add: group_sum_real)
qed

section \<open>The recommended percentages\<close>

lemma constraints_fold:
  fixes policies :: "real FinancialPolicy list"
  assumes "fold add_constraint policies (lo, hi, ts) = (lo', hi', ts')"
    and "\<forall>p\<in>set policies. \<forall>mix. InstanceMix (Spec p) = Some mix \<longrightarrow> MinOnDemandPercent mix \<le> 100"
    and "lo \<le> 100" "0 \<le> hi"
  shows "lo \<le> lo' \<and> lo' \<le> 100 \<and> 0 \<le> hi' \<and> hi' \<le> hi \<and>
    (\<forall>p\<in>set policies. \<forall>mix. InstanceMix (Spec p) = Some mix \<longrightarrow>
       MinOnDemandPercent mix \<le> lo' \<and> (0 < MaxSpotPercent mix \<longrightarrow> hi' \<le> MaxSpotPercent mix))"
  using assms
proof (induction policies arbitrary: lo hi ts)
  case (Cons p policies)
  obtain lo1 hi1 ts1 where step: "add_constraint p (lo, hi, ts) = (lo1, hi1, ts1)"
    using prod_cases3 by blast
  have "lo \<le> lo1 \<and> lo1 \<le> 100 \<and> 0 \<le> hi1 \<and> hi1 \<le> hi \<and>
      (\<forall>mix. InstanceMix (Spec p) = Some mix \<longrightarrow>
         MinOnDemandPercent mix \<le> lo1 \<and> (0 < MaxSpotPercent mix \<longrightarrow> hi1 \<le> MaxSpotPercent mix))"
    using step Cons.prems(2-) by (auto simp: add_constraint_def split: option.splits if_splits)
  moreover have "fold add_constraint policies (lo1, hi1, ts1) = (lo', hi', ts')"
    using Cons.prems(1) step by simp
  ultimately show ?case using Cons.IH [of lo1 hi1 ts1] Cons.prems(2) by fastforce
qed simp

lemma recommended_real:
  fixes lo hi res :: real
  assumes "0 \<le> lo" "lo \<le> 100" "0 \<le> hi" "lo + hi \<le> 100" "0 \<le> res"
    and "recommended lo hi res = (od, spot, reserved)"
  shows "reserved = min res (100 - lo) \<and> spot = min hi (100 - lo - reserved) \<and> 0 \<le> spot \<and>
    od = 100 - spot - reserved \<and> lo \<le> od"
  using assms by (auto simp: recommended_def Let_def min_def split: if_splits)

section \<open>The recommendation in floating point\<close>

text \<open>
  Rounding can push a sum past its bound, but every comparison of the code holds of what it returns:
  the On-Demand share is never below the minimum.
\<close>

lemma constraints_fold_f64:
  fixes policies :: "f64 FinancialPolicy list"
  assumes "fold add_constraint policies (lo, hi, ts) = (lo', hi', ts')"
    and "\<forall>p\<in>set policies. \<forall>mix. InstanceMix (Spec p) = Some mix \<longrightarrow>
      is_fin (MinOnDemandPercent mix) \<and> is_fin (MaxSpotPercent mix) \<and> MinOnDemandPercent mix \<le> lit 100"
    and "is_fin lo" "is_fin hi" "lo \<le> lit 100" "0 \<le> hi"
  shows "is_fin lo' \<and> is_fin hi' \<and> lo \<le> lo' \<and> lo' \<le> lit 100 \<and> 0 \<le> hi' \<and> hi' \<le> hi \<and>
    (\<forall>p\<in>set policies. \<forall>mix. InstanceMix (Spec p) = Some mix \<longrightarrow>
       MinOnDemandPercent mix \<le> lo' \<and> (0 < MaxSpotPercent mix \<longrightarrow> hi' \<le> MaxSpotPercent mix))"
  using assms
proof (induction policies arbitrary: lo hi ts)
  case Nil
  then show ?case by (auto intro: ieee.le_refl)
next
  case (Cons p policies)
  obtain lo1 hi1 ts1 where step: "add_constraint p (lo, hi, ts) = (lo1, hi1, ts1)"
    using prod_cases3 by blast
  have one: "is_fin lo1 \<and> is_fin hi1 \<and> lo \<le> lo1 \<and> lo1 \<le> lit 100 \<and> 0 \<le> hi1 \<and> hi1 \<le> hi \<and>
      (\<forall>mix. InstanceMix (Spec p) = Some mix \<longrightarrow>
         MinOnDemandPercent mix \<le> lo1 \<and> (0 < MaxSpotPercent mix \<longrightarrow> hi1 \<le> MaxSpotPercent mix))"
    using step Cons.prems(2-)
    by (auto simp: add_constraint_def split: option.splits if_splits
        intro: ieee.le_refl ieee.less_le ieee.not_less)
  have "fold add_constraint policies (lo1, hi1, ts1) = (lo', hi', ts')"
    using Cons.prems(1) step by simp
  from Cons.IH [OF this] one Cons.prems(2)
  have rest: "is_fin lo' \<and> is_fin hi' \<and> lo1 \<le> lo' \<and> lo' \<le> lit 100 \<and> 0 \<le> hi' \<and> hi' \<le> hi1 \<and>
    (\<forall>p\<in>set policies. \<forall>mix. InstanceMix (Spec p) = Some mix \<longrightarrow>
       MinOnDemandPercent mix \<le> lo' \<and> (0 < MaxSpotPercent mix \<longrightarrow> hi' \<le> MaxSpotPercent mix))" by simp
  with one show ?case by (auto intro: ieee.le_trans)
qed

lemma constraints_f64:
  fixes policies :: "f64 FinancialPolicy list"
  assumes "constraints policies = (lo, hi)"
    and "\<forall>p\<in>set policies. \<forall>mix. InstanceMix (Spec p) = Some mix \<longrightarrow>
      is_fin (MinOnDemandPercent mix) \<and> is_fin (MaxSpotPercent mix) \<and> MinOnDemandPercent mix \<le> lit 100"
  shows "is_fin lo \<and> is_fin hi \<and> 0 \<le> lo \<and> lo \<le> lit 100 \<and> 0 \<le> hi \<and>
    (\<forall>p\<in>set policies. \<forall>mix. InstanceMix (Spec p) = Some mix \<longrightarrow>
       MinOnDemandPercent mix \<le> lo \<and> (0 < MaxSpotPercent mix \<longrightarrow> hi \<le> MaxSpotPercent mix))"
proof -
  obtain lo' hi' ts where f: "fold add_constraint policies (0, lit 100, None) = (lo', hi', ts)"
    using prod_cases3 by blast
  have fin: "is_fin (lit 100 :: f64)" "0 \<le> (lit 100 :: f64)" by (auto intro: ieee.fin_lit ieee.lit_nonneg)
  from constraints_fold_f64 [OF f assms(2) ieee.fin_zero fin(1) ieee.lit_nonneg fin(2)]
  have c: "is_fin lo' \<and> is_fin hi' \<and> 0 \<le> lo' \<and> lo' \<le> lit 100 \<and> 0 \<le> hi' \<and> hi' \<le> lit 100 \<and>
    (\<forall>p\<in>set policies. \<forall>mix. InstanceMix (Spec p) = Some mix \<longrightarrow>
       MinOnDemandPercent mix \<le> lo' \<and> (0 < MaxSpotPercent mix \<longrightarrow> hi' \<le> MaxSpotPercent mix))" by simp
  have "lo = lo'" "hi = (if lit 100 < lo' + hi' then lit 100 - lo' else hi')"
    using assms(1) f by (auto simp: constraints_def)
  then show ?thesis
    using c fin diff_fin [of "lit 100" lo'] ieee.diff_nonneg [of "lit 100" lo'] diff_of_less_sum [of lo' hi' "lit 100"]
    by (auto intro: ieee.le_trans)
qed

lemma recommended_f64:
  fixes lo hi res :: f64
  assumes "is_fin lo" "0 \<le> lo" "lo \<le> lit 100" "is_fin hi" "0 \<le> hi" "is_fin res" "0 \<le> res"
    and "recommended lo hi res = (od, spot, reserved)"
  shows "lo \<le> od \<and> 0 \<le> spot \<and> spot \<le> lit 100 \<and> 0 \<le> reserved \<and> reserved \<le> lit 100 - lo"
proof -
  have hundred: "is_fin (lit 100 :: f64)" "0 \<le> (lit 100 :: f64)" by (auto intro: ieee.fin_lit ieee.lit_nonneg)
  define b where "b = lit 100 - lo"
  have b: "is_fin b" "0 \<le> b" "b \<le> lit 100"
    unfolding b_def using assms(1-3) hundred by (auto intro: diff_fin ieee.diff_nonneg ieee.diff_le)
  define r where "r = (if b < res then b else res)"
  have r: "is_fin r" "0 \<le> r" "r \<le> b"
    unfolding r_def using b assms(6,7) by (auto intro: ieee.le_refl ieee.not_less)
  define m where "m = b - r"
  have m: "is_fin m" "0 \<le> m" "m \<le> b"
    unfolding m_def using b r by (auto intro: diff_fin ieee.diff_nonneg ieee.diff_le)
  define s where "s = (if m < hi then m else hi)"
  have s: "is_fin s" "0 \<le> s" "s \<le> m"
    unfolding s_def using m assms(4,5) by (auto intro: ieee.le_refl ieee.not_less)
  have "s \<le> lit 100" "m \<le> lit 100" using s m b by (meson ieee.le_trans)+
  moreover define od1 where "od1 = lit 100 - s - r"
  ultimately have "is_fin od1"
    using s r hundred by (auto intro!: diff_fin ieee.diff_nonneg)
  then have "\<not> od1 < lo \<Longrightarrow> lo \<le> od1" using assms(1) by (auto intro: ieee.not_less)
  moreover have "\<not> s < 0" "\<not> m < 0" using s m ieee.less_asym by blast+
  then have "recommended lo hi res = (if od1 < lo then (lo, m, r) else (od1, s, r))"
    unfolding recommended_def Let_def b_def [symmetric] r_def [symmetric] m_def [symmetric] s_def [symmetric]
    by (simp add: od1_def)
  ultimately show ?thesis
    using assms(8) s m r b assms(1) \<open>s \<le> lit 100\<close> \<open>m \<le> lit 100\<close>
    by (auto simp: b_def intro: ieee.le_refl split: if_splits)
qed


text \<open>The percentages of an analysis are percentages.\<close>

lemma analyze_percent:
  assumes "length items < 2 ^ 53" "analyze ks now items = (a :: f64 InstanceMixAnalysis)"
  shows "is_fin (at0 (\<lambda>opt. map_option po_Percentage (ia_ByPurchaseOption a opt)) opt) \<and>
    0 \<le> at0 (\<lambda>opt. map_option po_Percentage (ia_ByPurchaseOption a opt)) opt"
proof -
  let ?members = "filter (\<lambda>n. classifyNode n = opt) items"
  have by_option: "ia_ByPurchaseOption a opt = (if opt \<in> classifyNode ` set items
      then Some (option_stats (int (length items)) opt (no_stats\<lparr>po_Count := int (length ?members)\<rparr>)) else None)"
    using assms(2) by (auto simp: analyze_def Let_def count_nodes)
  show ?thesis
  proof (cases "opt \<in> classifyNode ` set items")
    case False
    then show ?thesis using ieee.fin_zero ieee.zero_le_zero by (simp add: at0_def by_option)
  next
    case True
    then have "?members \<noteq> []" by (auto simp: filter_empty_conv)
    then have n: "1 \<le> int (length ?members)" "int (length ?members) \<le> int (length items)" "int (length items) < 2 ^ 53"
      using assms(1) by (auto simp: Suc_le_eq)
    have "(of_count (int (length ?members)) :: f64) \<le> of_count (int (length items))"
      unfolding of_count_def using n(2) by (intro ieee.lit_mono) simp
    then have part: "0 \<le> (of_count (int (length ?members)) / of_count (int (length items)) :: f64) \<and>
        (of_count (int (length ?members)) / of_count (int (length items)) :: f64) \<le> 1"
      using count_pos [OF n(1) le_less_trans [OF n(2,3)]] count_pos [OF order_trans [OF n(1,2)] n(3)]
      by (intro ieee.share) (auto intro: ieee.less_le)
    have hundred: "is_fin (lit 100 :: f64)" "0 \<le> (lit 100 :: f64)" by (auto intro: ieee.fin_lit ieee.lit_nonneg)
    have "0 < length items" using order_trans [OF n(1,2)] by (cases items) simp_all
    then show ?thesis
      using ieee.part [OF hundred part [THEN conjunct1] part [THEN conjunct2]] ieee.fin_between [OF hundred(1)] True
      by (simp add: at0_def by_option option_stats_def Let_def no_stats_def)
  qed
qed

text \<open>The entry of an option, the sum of the costs, and how far rounding can move a percentage.\<close>

definition members :: "KubeNode list \<Rightarrow> string \<Rightarrow> nat" where
  "members items opt = length (filter (\<lambda>n. classifyNode n = opt) items)"

lemma members_le: "members items opt \<le> length items"
  by (simp add: members_def)

lemma members_sum: "(\<Sum>opt\<in>classifyNode ` set items. members items opt) = length items"
  using class_sum [of items "\<lambda>_. 1"] by (simp add: sum_list_triv members_def flip: of_nat_sum)

lemma analysis_entry:
  assumes "analyze ks now items = a" "set ks = classifyNode ` set items"
  shows "ia_ByPurchaseOption a opt = (if opt \<in> set ks
    then Some (option_stats (int (length items)) opt (no_stats\<lparr>po_Count := int (members items opt)\<rparr>)) else None)"
  using assms by (auto simp: analyze_def Let_def count_nodes members_def)

lemma analysis_cost:
  assumes "analyze ks now items = (e :: real InstanceMixAnalysis)" "distinct ks" "set ks = classifyNode ` set items"
  shows "ia_CurrentCost e = (\<Sum>n\<leftarrow>items. hourly_cost (classifyNode n) * 730)"
proof -
  let ?counts = "fold count_node items Map.empty :: string \<rightharpoonup> real PurchaseOptionStats"
  have it: "iterates ks ?counts" using assms(2,3) by (simp add: iterates_def dom_count_nodes)
  have "ia_CurrentCost e = (\<Sum>(opt, st)\<leftarrow>range_map ks ?counts. po_Cost (option_stats (int (length items)) opt st))"
    using assms(1) fold_add_real [of "\<lambda>(opt, st). po_Cost (option_stats (int (length items)) opt st)"
      "range_map ks ?counts" 0] by (auto simp: analyze_def Let_def case_prod_unfold)
  also have "\<dots> = (\<Sum>opt\<in>dom ?counts. po_Cost (option_stats (int (length items)) opt (the (?counts opt))))"
    by (rule sum_range_map [OF it])
  also have "\<dots> = (\<Sum>opt\<in>classifyNode ` set items.
      real (length (filter (\<lambda>n. classifyNode n = opt) items)) * (hourly_cost opt * 730))"
    unfolding dom_count_nodes by (rule sum.cong) (auto simp: count_nodes option_stats_def Let_def)
  finally show ?thesis by (simp only: class_sum)
qed

lemma to_real_mk_rnd: "is_fin (mk r) \<Longrightarrow> to_real (mk r) = rnd r"
  by transfer (auto simp: to_fval_def split: if_splits)

lemma rnd_near: "0 \<le> r \<Longrightarrow> \<bar>rnd r - r\<bar> \<le> r / 2 ^ 53 + 1 / 2 ^ 300"
proof -
  assume "0 \<le> r"
  have "(2::real) ^ 300 \<le> 2 * fscale"
    unfolding fscale_def power_Suc [symmetric] by (rule power_increasing) simp_all
  then have "1 / (2 * fscale) \<le> 1 / 2 ^ 300" by (intro divide_left_mono) simp_all
  with rnd_error [of r] show ?thesis unfolding abs_of_nonneg [OF \<open>0 \<le> r\<close>] by linarith
qed

lemma percentage_error:
  fixes c n :: int
  assumes "0 \<le> c" "c \<le> n" "0 < n" "n < 2 ^ 53"
  shows "is_fin (of_count c / of_count n * lit 100 :: f64) \<and> 0 \<le> to_real (of_count c / of_count n * lit 100 :: f64) \<and>
    to_real (of_count c / of_count n * lit 100 :: f64) \<le> 100 \<and>
    \<bar>to_real (of_count c / of_count n * lit 100 :: f64) - 100 * (c / n)\<bar> \<le> (c / n) / 2 ^ 44 + 1 / 2 ^ 200"
proof -
  define q where "q = real_of_int c / n"
  have q: "0 \<le> q" "q \<le> 1" using assms by (simp_all add: q_def)
  have "(of_count c / of_count n :: f64) = mk q"
    using assms exact64_of_int [of c] exact64_of_int [of n] by (simp add: of_count_def lit_f64 q_def)
  moreover define r where "r = to_real (mk q)"
  have r: "is_fin (mk q)" "0 \<le> r" "r \<le> 1" using mk_between [of 0 q 1] q by (simp_all add: r_def)
  moreover have "mk q * mk 100 = mk (r * 100)"
    using fin_ops(3) [OF r(1), of "mk 100"] by (simp add: r_def)
  ultimately have p: "(of_count c / of_count n * lit 100 :: f64) = mk (r * 100)" by (simp add: lit_f64)
  have m: "is_fin (mk (r * 100))" "0 \<le> to_real (mk (r * 100))" "to_real (mk (r * 100)) \<le> 100"
    using mk_between [of 0 "r * 100" 100] r(2,3) by simp_all
  define d :: real where d: "d = 1 / 2 ^ 300"
  have small: "0 \<le> d" "201 * d \<le> 1 / 2 ^ 200" by (simp_all add: d)
  have "\<bar>r - q\<bar> \<le> q / 2 ^ 53 + d"
    using rnd_near [OF q(1)] to_real_mk_rnd [OF r(1)] by (simp only: r_def d)
  moreover have "\<bar>to_real (mk (r * 100)) - r * 100\<bar> \<le> r * 100 / 2 ^ 53 + d"
    using rnd_near [of "r * 100"] to_real_mk_rnd [OF m(1)] r(2) by (simp add: d)
  ultimately have "\<bar>to_real (mk (r * 100)) - 100 * q\<bar> \<le> q / 2 ^ 44 + 1 / 2 ^ 200"
    using q r(2,3) small by simp
  with m show ?thesis unfolding p q_def by blast
qed

lemma percentages_near:
  assumes "items \<noteq> []" "length items < 2 ^ 53"
  shows "\<bar>(\<Sum>opt\<in>classifyNode ` set items.
      to_real (of_count (int (members items opt)) / of_count (int (length items)) * lit 100 :: f64)) - 100\<bar> \<le> 1 / 10 ^ 12"
    (is "\<bar>(\<Sum>opt\<in>?K. ?p opt) - 100\<bar> \<le> _")
proof -
  let ?q = "\<lambda>opt. real (members items opt) / length items"
  have near: "\<bar>?p opt - 100 * ?q opt\<bar> \<le> ?q opt / 2 ^ 44 + 1 / 2 ^ 200" for opt
    using percentage_error [of "int (members items opt)" "int (length items)"] assms by (simp add: members_le)
  have one: "(\<Sum>opt\<in>?K. ?q opt) = 1"
    using assms(1) by (simp only: sum_divide_distrib [symmetric] of_nat_sum [symmetric] members_sum) simp
  have "card ?K \<le> length items" using card_image_le [of "set items" classifyNode] card_length [of items] by simp
  then have card: "real (card ?K) \<le> 2 ^ 53" using assms(2) by (simp add: order.trans)
  have "(\<Sum>opt\<in>?K. 100 * ?q opt) = 100" by (simp only: sum_distrib_left [symmetric] one mult_1_right)
  then have "(\<Sum>opt\<in>?K. ?p opt) - 100 = (\<Sum>opt\<in>?K. ?p opt - 100 * ?q opt)" by (simp only: sum_subtractf)
  also have "\<bar>\<dots>\<bar> \<le> (\<Sum>opt\<in>?K. ?q opt / 2 ^ 44 + 1 / 2 ^ 200)"
    by (rule order.trans [OF sum_abs sum_mono [OF near]])
  also have "\<dots> = 1 / 2 ^ 44 + card ?K * (1 / 2 ^ 200)"
    using one by (simp only: sum.distrib sum_divide_distrib [symmetric] sum_constant) simp
  also have "\<dots> \<le> 1 / 2 ^ 44 + 2 ^ 53 * (1 / 2 ^ 200)"
    using card by (intro add_left_mono mult_right_mono) simp_all
  also have "\<dots> \<le> 1 / 10 ^ 12" by simp
  finally show ?thesis .
qed

section \<open>Properties\<close>

text \<open>C38: the analysis partitions the nodes: it has an entry for exactly the options some node is
  classified under, with the number of these nodes, and these numbers add up to that of all nodes. In
  floating point and for fewer than \<open>2 ^ 53\<close> nodes every percentage is a number between 0 and 100, and
  together they differ from 100 by rounding errors only, at most \<open>1 / 10 ^ 12\<close>; in exact arithmetic
  they add up to 100, and the current cost is that of all nodes, each at the hourly cost of its option.\<close>

theorem analysis_partitions_nodes:
  fixes a :: "f64 InstanceMixAnalysis" and e :: "real InstanceMixAnalysis"
  assumes "analyze ks now items = a" "analyze ks now items = e" "distinct ks" "set ks = classifyNode ` set items"
    and "length items < 2 ^ 53"
  shows "dom (ia_ByPurchaseOption a) = set ks \<and>
    (\<forall>opt\<in>set ks. po_Count (the (ia_ByPurchaseOption a opt)) = int (length (filter (\<lambda>n. classifyNode n = opt) items))) \<and>
    (\<Sum>opt\<in>set ks. po_Count (the (ia_ByPurchaseOption a opt))) = ia_TotalNodes a \<and> ia_TotalNodes a = int (length items) \<and>
    (\<forall>opt\<in>set ks. is_fin (po_Percentage (the (ia_ByPurchaseOption a opt))) \<and>
       0 \<le> po_Percentage (the (ia_ByPurchaseOption a opt)) \<and> po_Percentage (the (ia_ByPurchaseOption a opt)) \<le> mk 100) \<and>
    (items \<noteq> [] \<longrightarrow> \<bar>(\<Sum>opt\<in>set ks. to_real (po_Percentage (the (ia_ByPurchaseOption a opt)))) - 100\<bar> \<le> 1 / 10 ^ 12 \<and>
       (\<Sum>opt\<in>set ks. po_Percentage (the (ia_ByPurchaseOption e opt))) = 100) \<and>
    ia_CurrentCost e = (\<Sum>n\<leftarrow>items. hourly_cost (classifyNode n) * 730)"
proof -
  note a = analysis_entry [OF assms(1,4)] and e = analysis_entry [OF assms(2,4)]
  have pct: "po_Percentage (the (ia_ByPurchaseOption a opt)) =
      of_count (int (members items opt)) / of_count (int (length items)) * lit 100" if "opt \<in> set ks" for opt
  proof -
    have "items \<noteq> []" using that assms(4) by auto
    then show ?thesis using that by (simp add: a option_stats_def Let_def)
  qed
  have bounds: "is_fin (po_Percentage (the (ia_ByPurchaseOption a opt))) \<and>
      0 \<le> po_Percentage (the (ia_ByPurchaseOption a opt)) \<and> po_Percentage (the (ia_ByPurchaseOption a opt)) \<le> mk 100"
    if "opt \<in> set ks" for opt
  proof -
    have "items \<noteq> []" using that assms(4) by auto
    then show ?thesis
      using percentage_error [of "int (members items opt)" "int (length items)"] assms(5)
        fin_order(2) [of 0 "po_Percentage (the (ia_ByPurchaseOption a opt))"]
        fin_order(2) [of "po_Percentage (the (ia_ByPurchaseOption a opt))" "mk 100"] ieee.fin_zero
      by (simp add: pct [OF that] members_le)
  qed
  have sums: "\<bar>(\<Sum>opt\<in>set ks. to_real (po_Percentage (the (ia_ByPurchaseOption a opt)))) - 100\<bar> \<le> 1 / 10 ^ 12 \<and>
      (\<Sum>opt\<in>set ks. po_Percentage (the (ia_ByPurchaseOption e opt))) = 100" if "items \<noteq> []"
  proof
    have "(\<Sum>opt\<in>set ks. to_real (po_Percentage (the (ia_ByPurchaseOption a opt)))) =
        (\<Sum>opt\<in>set ks. to_real (of_count (int (members items opt)) / of_count (int (length items)) * lit 100))"
      using pct by (intro sum.cong) auto
    then show "\<bar>(\<Sum>opt\<in>set ks. to_real (po_Percentage (the (ia_ByPurchaseOption a opt)))) - 100\<bar> \<le> 1 / 10 ^ 12"
      using percentages_near [OF that assms(5)] by (simp only: assms(4))
    have "(\<Sum>opt\<in>set ks. po_Percentage (the (ia_ByPurchaseOption e opt))) =
        (\<Sum>opt\<in>classifyNode ` set items. real (members items opt) * (100 / real (length items)))"
      unfolding assms(4) [symmetric] using that by (intro sum.cong) (auto simp: e option_stats_def Let_def)
    also have "\<dots> = 100" unfolding members_def class_sum using that by (simp add: sum_list_triv)
    finally show "(\<Sum>opt\<in>set ks. po_Percentage (the (ia_ByPurchaseOption e opt))) = 100" .
  qed
  have "dom (ia_ByPurchaseOption a) = set ks" by (auto simp: a split: if_splits)
  moreover have "\<forall>opt\<in>set ks. po_Count (the (ia_ByPurchaseOption a opt)) = int (members items opt)"
    by (simp add: a option_stats_def Let_def)
  moreover from this have "(\<Sum>opt\<in>set ks. po_Count (the (ia_ByPurchaseOption a opt))) = (\<Sum>opt\<in>set ks. int (members items opt))"
    by (intro sum.cong) simp_all
  then have "(\<Sum>opt\<in>set ks. po_Count (the (ia_ByPurchaseOption a opt))) = int (length items)"
    by (simp only: assms(4) of_nat_sum [symmetric] members_sum)
  moreover have "ia_TotalNodes a = int (length items)" using assms(1) by (auto simp: analyze_def Let_def)
  ultimately show ?thesis
    using bounds sums analysis_cost [OF assms(2-4)] by (simp add: members_def)
qed

text \<open>C2: for policies whose On-Demand minimum is at most 100, the recommended mix respects every
  policy: in exact arithmetic its percentages are not negative and add up to 100, On-Demand has at
  least every minimum and Spot at most every positive maximum; the reserved share is kept as far
  as the minimum allows, Spot gets as much as the rest allows, and the recommendation is flagged
  as compliant.\<close>

theorem recommendation_respects_policies:
  fixes policies :: "real FinancialPolicy list"
  assumes "GenerateRecommendation ks now (Some a) policies = Inr r"
    and "\<forall>p\<in>set policies. \<forall>mix. InstanceMix (Spec p) = Some mix \<longrightarrow> MinOnDemandPercent mix \<le> 100"
    and "0 \<le> at0 (or_CurrentMix r) ''reserved''"
  shows "\<exists>od spot reserved lo hi. constraints policies = (lo, hi) \<and>
    or_RecommendedMix r = (if 0 < reserved then [''on_demand'' \<mapsto> od, ''spot'' \<mapsto> spot, ''reserved'' \<mapsto> reserved]
                           else [''on_demand'' \<mapsto> od, ''spot'' \<mapsto> spot]) \<and>
    0 \<le> od \<and> 0 \<le> spot \<and> 0 \<le> reserved \<and> od + spot + reserved = 100 \<and>
    reserved = min (at0 (or_CurrentMix r) ''reserved'') (100 - lo) \<and> spot = min hi (100 - lo - reserved) \<and>
    (\<forall>p\<in>set policies. \<forall>mix. InstanceMix (Spec p) = Some mix \<longrightarrow>
       MinOnDemandPercent mix \<le> od \<and> (0 < MaxSpotPercent mix \<longrightarrow> spot \<le> MaxSpotPercent mix)) \<and>
    or_PolicyCompliant r"
proof -
  obtain lo hi' ts where f: "fold add_constraint policies (0, 100, None) = (lo, hi', ts)"
    using prod_cases3 by blast
  define hi where "hi = (if 100 < lo + hi' then 100 - lo else hi')"
  have c: "constraints policies = (lo, hi)" by (simp add: constraints_def f hi_def)
  from constraints_fold [OF f assms(2)]
  have lim: "0 \<le> lo" "lo \<le> 100" "0 \<le> hi" "lo + hi \<le> 100" "\<forall>p\<in>set policies. \<forall>mix. InstanceMix (Spec p) = Some mix \<longrightarrow>
       MinOnDemandPercent mix \<le> lo \<and> (0 < MaxSpotPercent mix \<longrightarrow> hi \<le> MaxSpotPercent mix)"
    by (force simp: hi_def split: if_splits)+
  have mix: "or_CurrentMix r = (\<lambda>opt. map_option po_Percentage (ia_ByPurchaseOption a opt))"
    using assms(1) by (auto simp: GenerateRecommendation_def c Let_def split: prod.splits)
  obtain od spot reserved where rec: "recommended lo hi (at0 (or_CurrentMix r) ''reserved'') = (od, spot, reserved)"
    using prod_cases3 by blast
  from recommended_real [OF lim(1-4) assms(3) rec] lim
  have res: "reserved = min (at0 (or_CurrentMix r) ''reserved'') (100 - lo)" "spot = min hi (100 - lo - reserved)"
    "0 \<le> spot" "od = 100 - spot - reserved" "lo \<le> od" by blast+
  have "or_RecommendedMix r = (if 0 < reserved then [''on_demand'' \<mapsto> od, ''spot'' \<mapsto> spot, ''reserved'' \<mapsto> reserved]
      else [''on_demand'' \<mapsto> od, ''spot'' \<mapsto> spot])" "or_PolicyCompliant r \<longleftrightarrow> \<not> od < lo \<and> \<not> hi < spot"
    using assms(1) rec by (auto simp: GenerateRecommendation_def c Let_def mix)
  moreover have pct: "spot \<le> hi" "0 \<le> reserved" using res(1,2) assms(3) lim(2) by simp_all
  moreover have "\<forall>p\<in>set policies. \<forall>mix. InstanceMix (Spec p) = Some mix \<longrightarrow>
       MinOnDemandPercent mix \<le> od \<and> (0 < MaxSpotPercent mix \<longrightarrow> spot \<le> MaxSpotPercent mix)"
    using lim(5) res(5) pct(1) by (meson order_trans)
  moreover have "od + spot + reserved = 100" "0 \<le> od" using res(4,5) lim(1) by simp_all
  moreover have "\<not> od < lo \<and> \<not> hi < spot" using res(5) pct(1) by simp
  ultimately show ?thesis using c res(1-3) by blast
qed

text \<open>A spot interruption is handled without an error: when the pods of the node can be listed,
  an eviction is asked for every one that is neither a mirror pod nor owned by a DaemonSet, in
  the order of the list and whatever the other evictions answer; otherwise nothing is done.\<close>

lemma interruption_evicts:
  "HandleSpotInterruption listPods evict nodeID s =
     (None, case listPods (''spec.nodeName='' @ nodeID) s of Inl err \<Rightarrow> s
      | Inr pods \<Rightarrow> fold (\<lambda>pod s. snd (evict (np_Namespace pod, np_Name pod) s))
          (filter (\<lambda>pod. label (np_Annotations pod) ''kubernetes.io/config.mirror'' = None \<and>
             ''DaemonSet'' \<notin> set (np_OwnerKinds pod)) pods) s)"
proof -
  have "evict_pods evict pods s = fold (\<lambda>pod s. snd (evict (np_Namespace pod, np_Name pod) s))
      (filter (\<lambda>pod. label (np_Annotations pod) ''kubernetes.io/config.mirror'' = None \<and>
         ''DaemonSet'' \<notin> set (np_OwnerKinds pod)) pods) s" for pods s
    by (induction pods arbitrary: s) (auto simp: list_ex_iff split: prod.split option.split)
  then show ?thesis by (simp add: HandleSpotInterruption_def split: sum.split)
qed

subsection \<open>The properties at work\<close>

definition demo_node :: "string \<Rightarrow> (string \<rightharpoonup> string) \<Rightarrow> KubeNode" where
  "demo_node n ls = \<lparr>kn_Name = n, kn_Labels = Some ls, kn_Annotations = None, kn_CpuCapacity = 4000,
     kn_MemCapacity = 16000000000\<rparr>"

definition demo_nodes :: "KubeNode list" where
  "demo_nodes = [demo_node ''a'' [''eks.amazonaws.com/capacityType'' \<mapsto> ''SPOT''], demo_node ''b'' Map.empty,
     demo_node ''c'' [''finops.eks.io/purchase-option'' \<mapsto> ''RESERVED''], demo_node ''d'' Map.empty]"

lemma demo_classes: "map classifyNode demo_nodes = [''spot'', ''on_demand'', ''reserved'', ''on_demand'']"
  by (simp add: demo_nodes_def demo_node_def classifyNode_def purchaseOptionLabels_def label_def
      normalizePurchaseOption_def)

definition demo_analysis :: "real InstanceMixAnalysis" where
  "demo_analysis = analyze [''spot'', ''on_demand'', ''reserved''] 0 demo_nodes"

lemma analysis_partitions_nodes_witness:
  "ia_CurrentCost demo_analysis = (70 + 192 + 120 + 192) / 1000 * 730 \<and>
   po_Count (the (ia_ByPurchaseOption (analyze [''spot'', ''on_demand'', ''reserved''] 0 demo_nodes :: f64 InstanceMixAnalysis) ''on_demand'')) = 2"
proof -
  have classes: "set [''spot'', ''on_demand'', ''reserved''] = classifyNode ` set demo_nodes"
    using arg_cong [OF demo_classes, of set] by auto
  have counts: "length (filter (\<lambda>n. classifyNode n = c) demo_nodes) = length (filter ((=) c) (map classifyNode demo_nodes))" for c
    by (simp add: filter_map o_def eq_commute)
  have costs: "(\<Sum>n\<leftarrow>demo_nodes. hourly_cost (classifyNode n) * 730) = (\<Sum>c\<leftarrow>map classifyNode demo_nodes. hourly_cost c * (730::real))"
    by (simp add: o_def)
  have "length demo_nodes < 2 ^ 53" by (simp add: demo_nodes_def)
  from analysis_partitions_nodes [OF refl demo_analysis_def [symmetric] _ classes this] show ?thesis
    unfolding counts costs demo_classes by (simp add: hourly_cost_def estimatedHourlyCost_def)
qed

definition demo_mix_policy :: "real FinancialPolicy" where
  "demo_mix_policy = \<lparr>Name = ''p'', Namespace = ''n'', Annotations = None, ResourceVersion = [],
     Spec = \<lparr>TargetNamespace = ''shop'', Budget = \<lparr>MonthlyLimit = 10, AlertThresholds = [], BreachAction = []\<rparr>,
       InstanceMix = Some \<lparr>MinOnDemandPercent = 30, MaxSpotPercent = 60, AllowedInstanceTypes = []\<rparr>,
       Mode = PolicyModeAutomatic, Alerting = None, Version = 1\<rparr>,
     Status = \<lparr>Phase = PolicyPhaseActive, CurrentCost = 0, BudgetUsagePercent = 0, LastEvaluated = None,
       Conditions = []\<rparr>\<rparr>"

lemma recommendation_made: "\<exists>r. GenerateRecommendation ks now (Some a) ps = Inr r"
  by (simp add: GenerateRecommendation_def Let_def split: prod.split)

lemma recommendation_respects_policies_witness:
  "\<exists>r. GenerateRecommendation [''on_demand'', ''spot'', ''reserved''] 0 (Some demo_analysis) [demo_mix_policy] = Inr r \<and>
     or_RecommendedMix r = [''on_demand'' \<mapsto> 30, ''spot'' \<mapsto> 45, ''reserved'' \<mapsto> 25] \<and> or_PolicyCompliant r"
proof -
  obtain r where r: "GenerateRecommendation [''on_demand'', ''spot'', ''reserved''] 0 (Some demo_analysis) [demo_mix_policy] = Inr r"
    using recommendation_made by blast
  have "length (filter (\<lambda>n. classifyNode n = ''reserved'') demo_nodes) =
      length (filter ((=) ''reserved'') (map classifyNode demo_nodes))"
    by (simp add: filter_map o_def eq_commute)
  then have one: "length (filter (\<lambda>n. classifyNode n = ''reserved'') demo_nodes) = 1" unfolding demo_classes by simp
  have res: "at0 (or_CurrentMix r) ''reserved'' = 25"
  proof -
    have "''reserved'' \<in> classifyNode ` set demo_nodes" "length demo_nodes = 4"
      using arg_cong [OF demo_classes, of set] arg_cong [OF demo_classes, of length] by auto
    moreover have "or_CurrentMix r = (\<lambda>opt. map_option po_Percentage (ia_ByPurchaseOption demo_analysis opt))"
      using r by (auto simp: GenerateRecommendation_def Let_def split: prod.splits)
    ultimately show ?thesis
      by (simp add: at0_def demo_analysis_def analyze_def Let_def count_nodes option_stats_def one)
  qed
  have c: "constraints [demo_mix_policy] = (30, 60)"
    by (simp add: constraints_def add_constraint_def demo_mix_policy_def)
  from recommendation_respects_policies [OF r] res
  obtain od spot reserved lo hi where "constraints [demo_mix_policy] = (lo, hi)"
    "or_RecommendedMix r = (if 0 < reserved then [''on_demand'' \<mapsto> od, ''spot'' \<mapsto> spot, ''reserved'' \<mapsto> reserved]
       else [''on_demand'' \<mapsto> od, ''spot'' \<mapsto> spot])" "od + spot + reserved = 100"
    "reserved = min 25 (100 - lo)" "spot = min hi (100 - lo - reserved)" "or_PolicyCompliant r"
    by (auto simp: demo_mix_policy_def)
  with c r show ?thesis by (simp add: min_def)
qed

section \<open>Two ways to classify a node\<close>

text \<open>
  The collector and this package read the purchase option of a node each in their own way. They
  agree on a node that only one capacity label, with one of its own values, describes; they do
  not when the FinOps label contradicts the capacity label, since each gives the other precedence.
\<close>

lemma classifiers_agree:
  assumes "label (kn_Labels n) ''finops.eks.io/purchase-option'' = None"
    and "label (kn_Annotations n) ''finops.eks.io/purchase-option'' = None"
    and "label (kn_Labels n) ''karpenter.sh/capacity-type'' \<in> {None, Some ''spot'', Some ''on-demand''}"
    and "label (kn_Labels n) ''eks.amazonaws.com/capacityType'' \<in> {None, Some ''SPOT'', Some ''ON_DEMAND''}"
    and "label (kn_Labels n) ''karpenter.sh/capacity-type'' = None \<or>
      label (kn_Labels n) ''eks.amazonaws.com/capacityType'' = None"
  shows "classifyNode n = detectPurchaseOption n"
  using assms
  by (auto simp: classifyNode_def detectPurchaseOption_def purchaseOptionLabels_def normalizePurchaseOption_def
      karpenter_option_def eks_option_def)

lemma classifiers_disagree:
  "classifyNode (demo_node ''x'' [''eks.amazonaws.com/capacityType'' \<mapsto> ''SPOT'',
     ''finops.eks.io/purchase-option'' \<mapsto> ''reserved'']) = ''spot'' \<and>
   detectPurchaseOption (demo_node ''x'' [''eks.amazonaws.com/capacityType'' \<mapsto> ''SPOT'',
     ''finops.eks.io/purchase-option'' \<mapsto> ''reserved'']) = ''reserved''"
  by (simp add: demo_node_def classifyNode_def detectPurchaseOption_def purchaseOptionLabels_def label_def
      normalizePurchaseOption_def)

text \<open>A maximum of 0 percent Spot, which a policy can ask for, puts no limit on the recommendation.\<close>

lemma no_spot_ignored:
  assumes "InstanceMix (Spec p) = Some mix" "MaxSpotPercent mix = (0 :: real)" "MinOnDemandPercent mix = 0"
  shows "constraints [p] = (0, 100)"
  using assms by (simp add: constraints_def add_constraint_def)

end
