(* ===== verification/Alerting.thy ===== *)
theory Alerting
  imports Policy_Types Backoff
begin

text \<open>
  \<^verbatim>\<open>pkg/alerting\<close>: alerts are sent to the configured channels, with retries, outside the silence
  windows; actual costs are compared with forecasts. A sender and the wait between two attempts
  act on a state \<open>'s\<close>.
\<close>

section \<open>Data\<close>

definition AlertSeverityInfo :: string where "AlertSeverityInfo = ''info''"

definition AlertSeverityWarning :: string where "AlertSeverityWarning = ''warning''"

definition AlertSeverityCritical :: string where "AlertSeverityCritical = ''critical''"

definition AlertCategoryBudget :: string where "AlertCategoryBudget = ''budget''"

definition AlertCategoryAnomaly :: string where "AlertCategoryAnomaly = ''anomaly''"

definition AlertCategorySpotInterruption :: string where
  "AlertCategorySpotInterruption = ''spot_interruption''"

definition AlertCategoryPolicy :: string where "AlertCategoryPolicy = ''policy''"

record 'f Alert =
  at_ID :: string
  at_Timestamp :: time
  at_Severity :: string
  at_Category :: string
  at_Namespace :: string
  at_CurrentCost :: 'f
  at_BudgetLimit :: 'f
  at_UsagePercent :: 'f
  at_Message :: "'f gotext"
  at_RecommendedAction :: string

record 'f AnomalyDetection =
  ad_IsAnomaly :: bool
  ad_ActualCost :: 'f
  ad_ForecastCost :: 'f
  ad_DeviationPct :: 'f

record 'f Notification =
  no_AlertID :: string
  no_Channel :: string
  no_Severity :: string
  no_Category :: string
  no_Namespace :: string
  no_CurrentCost :: 'f
  no_BudgetLimit :: 'f
  no_UsagePercent :: 'f
  no_Message :: "'f gotext"
  no_RecommendedAction :: string
  no_Timestamp :: time

record NotificationChannel =
  ncl_Type :: string
  ncl_Config :: "string \<rightharpoonup> string"

record ('s, 'f) NotificationSender =
  sn_Send :: "'f Notification \<Rightarrow> 's \<Rightarrow> go_error option \<times> 's"
  sn_HealthCheck :: "'s \<Rightarrow> go_error option \<times> 's"

record ('s, 'f) DefaultAlertManager =
  am_channels :: "('s, 'f) NotificationSender list"
  am_silenceWindows :: "SilenceWindowSpec list"

definition NewDefaultAlertManager :: "('s, 'f) DefaultAlertManager" where
  "NewDefaultAlertManager = \<lparr>am_channels = [], am_silenceWindows = []\<rparr>"

section \<open>Senders\<close>

text \<open>The four senders are stubs: they log and succeed.\<close>

definition NewSlackSender :: "(string \<rightharpoonup> string) \<Rightarrow> ('s, 'f) NotificationSender" where
  "NewSlackSender config = \<lparr>sn_Send = (\<lambda>notification s. (None, s)), sn_HealthCheck = (\<lambda>s. (None, s))\<rparr>"

definition NewEmailSender :: "(string \<rightharpoonup> string) \<Rightarrow> ('s, 'f) NotificationSender" where
  "NewEmailSender config = \<lparr>sn_Send = (\<lambda>notification s. (None, s)), sn_HealthCheck = (\<lambda>s. (None, s))\<rparr>"

definition NewPagerDutySender :: "(string \<rightharpoonup> string) \<Rightarrow> ('s, 'f) NotificationSender" where
  "NewPagerDutySender config = \<lparr>sn_Send = (\<lambda>notification s. (None, s)), sn_HealthCheck = (\<lambda>s. (None, s))\<rparr>"

definition NewSNSSender :: "(string \<rightharpoonup> string) \<Rightarrow> ('s, 'f) NotificationSender" where
  "NewSNSSender config = \<lparr>sn_Send = (\<lambda>notification s. (None, s)), sn_HealthCheck = (\<lambda>s. (None, s))\<rparr>"

section \<open>Sending with retries\<close>

datatype send_error = ECancelled go_error | EExhausted int "go_error option"

text \<open>\<^verbatim>\<open>time.Duration(1<<uint(attempt-1)) * time.Second\<close>, both in 64 bits.\<close>

definition send_delay :: "nat \<Rightarrow> int" where
  "send_delay attempt = int64 (int64 (2 ^ (attempt - 1)) * second)"

text \<open>\<open>send_from k\<close> is the loop with \<open>k\<close> attempts left.\<close>

fun send_from ::
    "('s \<Rightarrow> go_error option \<times> 's) \<Rightarrow> (int \<Rightarrow> 's \<Rightarrow> go_error option \<times> 's) \<Rightarrow> int \<Rightarrow>
     nat \<Rightarrow> nat \<Rightarrow> go_error option \<Rightarrow> 's \<Rightarrow> send_error option \<times> 's" where
  "send_from send wait maxRetries 0 attempt lastErr s = (Some (EExhausted maxRetries lastErr), s)"
| "send_from send wait maxRetries (Suc k) attempt lastErr s =
     (case (if 0 < attempt then wait (send_delay attempt) s else (None, s)) of
        (Some ctxErr, s1) \<Rightarrow> (Some (ECancelled ctxErr), s1)
      | (None, s1) \<Rightarrow> (case send s1 of
            (None, s2) \<Rightarrow> (None, s2)
          | (Some err, s2) \<Rightarrow> send_from send wait maxRetries k (Suc attempt) (Some err) s2))"

definition sendWithRetry ::
    "(int \<Rightarrow> 's \<Rightarrow> go_error option \<times> 's) \<Rightarrow> ('s, 'f) NotificationSender \<Rightarrow> 'f Notification \<Rightarrow> int \<Rightarrow> 's \<Rightarrow>
     send_error option \<times> 's" where
  "sendWithRetry wait sender notification maxRetries s =
     send_from (sn_Send sender notification) wait maxRetries (nat (maxRetries + 1)) 0 None s"

section \<open>The manager\<close>

definition CheckAnomalies :: "'f \<Rightarrow> 'f \<Rightarrow> 'f::{zero,one,ord,minus,times,inverse,scaleR} AnomalyDetection" where
  "CheckAnomalies actual forecast =
     (let deviationPct = (if forecast \<noteq> 0 then ((actual - forecast) / forecast) * lit 100
                          else if 0 < actual then lit 100 else 0);
          isAnomaly = (forecast * lit (6/5) < actual)
      in \<lparr>ad_IsAnomaly = isAnomaly, ad_ActualCost = actual, ad_ForecastCost = forecast,
          ad_DeviationPct = deviationPct\<rparr>)"

text \<open>The namespace is not looked at.\<close>

definition IsInSilenceWindow :: "time \<Rightarrow> ('s, 'f) DefaultAlertManager \<Rightarrow> string \<Rightarrow> bool" where
  "IsInSilenceWindow now m namespace =
     list_ex (\<lambda>sw. \<not> now < sw_Start sw \<and> now < sw_End sw) (am_silenceWindows m)"

definition validateAlert :: "'f Alert \<Rightarrow> string list option" where
  "validateAlert alert =
     (let missing = (if at_Namespace alert = [] then [''Namespace''] else []) @
                    (if at_RecommendedAction alert = [] then [''RecommendedAction''] else [])
      in if 0 < length missing then Some missing else None)"

definition build_notification :: "'f Alert \<Rightarrow> 'f Notification" where
  "build_notification alert =
     \<lparr>no_AlertID = at_ID alert, no_Channel = [], no_Severity = at_Severity alert,
      no_Category = at_Category alert, no_Namespace = at_Namespace alert,
      no_CurrentCost = at_CurrentCost alert, no_BudgetLimit = at_BudgetLimit alert,
      no_UsagePercent = at_UsagePercent alert, no_Message = at_Message alert,
      no_RecommendedAction = at_RecommendedAction alert, no_Timestamp = at_Timestamp alert\<rparr>"

datatype alert_error = EInvalidAlert "string list" | EChannels "(nat \<times> send_error) list"

text \<open>The loop over the channels, from the channel with index \<open>i\<close>.\<close>

fun send_channels ::
    "(int \<Rightarrow> 's \<Rightarrow> go_error option \<times> 's) \<Rightarrow> 'f Notification \<Rightarrow> nat \<Rightarrow> ('s, 'f) NotificationSender list \<Rightarrow> 's \<Rightarrow>
     (nat \<times> send_error) list \<times> 's" where
  "send_channels wait notification i [] s = ([], s)"
| "send_channels wait notification i (sender # senders) s =
     (case sendWithRetry wait sender notification 3 s of (r, s1) \<Rightarrow>
      (case send_channels wait notification (Suc i) senders s1 of (errs, s2) \<Rightarrow>
        ((case r of Some err \<Rightarrow> (i, err) # errs | None \<Rightarrow> errs), s2)))"

definition SendAlert ::
    "(int \<Rightarrow> 's \<Rightarrow> go_error option \<times> 's) \<Rightarrow> time \<Rightarrow> ('s, 'f) DefaultAlertManager \<Rightarrow> 'f Alert \<Rightarrow> 's \<Rightarrow>
     alert_error option \<times> 's" where
  "SendAlert wait now m alert s =
     (if IsInSilenceWindow now m (at_Namespace alert) then (None, s)
      else case validateAlert alert of
        Some missing \<Rightarrow> (Some (EInvalidAlert missing), s)
      | None \<Rightarrow> (case send_channels wait (build_notification alert) 0 (am_channels m) s of (errs, s') \<Rightarrow>
          if 0 < length errs then (Some (EChannels errs), s') else (None, s')))"

definition ConfigureChannel ::
    "('s, 'f) DefaultAlertManager \<Rightarrow> NotificationChannel \<Rightarrow> string option \<times> ('s, 'f) DefaultAlertManager" where
  "ConfigureChannel m channel =
     (let add = (\<lambda>sender. (None, m\<lparr>am_channels := am_channels m @ [sender]\<rparr>)) in
      if ncl_Type channel = ''slack'' then add (NewSlackSender (ncl_Config channel))
      else if ncl_Type channel = ''email'' then add (NewEmailSender (ncl_Config channel))
      else if ncl_Type channel = ''pagerduty'' then add (NewPagerDutySender (ncl_Config channel))
      else if ncl_Type channel = ''sns'' then add (NewSNSSender (ncl_Config channel))
      else (Some (''unsupported channel type: '' @ ncl_Type channel), m))"

definition SetSilenceWindows ::
    "SilenceWindowSpec list \<Rightarrow> ('s, 'f) DefaultAlertManager \<Rightarrow> ('s, 'f) DefaultAlertManager" where
  "SetSilenceWindows windows m = m\<lparr>am_silenceWindows := windows\<rparr>"

section \<open>Attempts and waits\<close>

text \<open>The state before the attempt \<open>i\<close>, counted from 0, when all attempts before it failed and none of the
  waits between them was cancelled; \<open>delay i\<close> is the wait after the attempt \<open>i\<close>.\<close>

fun before_attempt ::
    "('s \<Rightarrow> go_error option \<times> 's) \<Rightarrow> (int \<Rightarrow> 's \<Rightarrow> go_error option \<times> 's) \<Rightarrow> (nat \<Rightarrow> int) \<Rightarrow> nat \<Rightarrow> 's \<Rightarrow> 's" where
  "before_attempt send wait delay 0 s = s"
| "before_attempt send wait delay (Suc i) s = snd (wait (delay i) (snd (send (before_attempt send wait delay i s))))"

lemma before_attempt_shift:
  "before_attempt send wait delay (Suc i) s =
     before_attempt send wait (\<lambda>i. delay (Suc i)) i (snd (wait (delay 0) (snd (send s))))"
  by (induction i) simp_all

text \<open>The loop as one search: the first attempt, not the last, that succeeds or whose wait is cancelled.\<close>

definition retried ::
    "('s \<Rightarrow> go_error option \<times> 's) \<Rightarrow> (int \<Rightarrow> 's \<Rightarrow> go_error option \<times> 's) \<Rightarrow> (nat \<Rightarrow> int) \<Rightarrow> int \<Rightarrow> nat \<Rightarrow> 's \<Rightarrow>
     send_error option \<times> 's" where
  "retried send wait delay maxRetries n s =
     (let attempt = (\<lambda>i. send (before_attempt send wait delay i s));
          pause = (\<lambda>i. wait (delay i) (snd (attempt i)))
      in case find (\<lambda>i. fst (attempt i) = None \<or> fst (pause i) \<noteq> None) [0..<n] of
           Some i \<Rightarrow> if fst (attempt i) = None then (None, snd (attempt i))
                     else (Some (ECancelled (the (fst (pause i)))), snd (pause i))
         | None \<Rightarrow> (map_option (\<lambda>err. EExhausted maxRetries (Some err)) (fst (attempt n)), snd (attempt n)))"

lemma find_upt_Suc: "find P [0..<Suc n] = (if P 0 then Some 0 else map_option Suc (find (\<lambda>i. P (Suc i)) [0..<n]))"
proof -
  have "find P (map Suc xs) = map_option Suc (find (\<lambda>i. P (Suc i)) xs)" for xs by (induction xs) simp_all
  then show ?thesis unfolding upt_conv_Cons [OF zero_less_Suc] map_Suc_upt [symmetric] by simp
qed

lemma retried_Suc:
  "retried send wait delay m (Suc n) s = (case send s of (None, s1) \<Rightarrow> (None, s1)
     | (Some err, s1) \<Rightarrow> (case wait (delay 0) s1 of (Some ctxErr, s2) \<Rightarrow> (Some (ECancelled ctxErr), s2)
         | (None, s2) \<Rightarrow> retried send wait (\<lambda>i. delay (Suc i)) m n s2))"
proof -
  obtain r1 s1 where send: "send s = (r1, s1)" by fastforce
  obtain r2 s2 where pause: "wait (delay 0) s1 = (r2, s2)" by fastforce
  show ?thesis
    by (cases r1; cases r2)
      (simp_all add: retried_def find_upt_Suc Let_def send pause before_attempt_shift
        del: before_attempt.simps(2) upt_Suc split: option.split)
qed

lemma send_from_retried:
  assumes "\<forall>i<k. send_delay (Suc (a + i)) = delay i"
  shows "(case send s of (None, s1) \<Rightarrow> (None, s1) | (Some err, s1) \<Rightarrow> send_from send wait m k (Suc a) (Some err) s1) =
    retried send wait delay m k s"
  using assms
proof (induction k arbitrary: a s delay)
  case 0
  show ?case by (simp add: retried_def split: prod.split option.split)
next
  case (Suc k)
  have "\<forall>i<k. send_delay (Suc (Suc a + i)) = delay (Suc i)" "send_delay (Suc a) = delay 0"
    using Suc.prems by (auto dest: spec [of _ "Suc _"])
  then show ?case unfolding retried_Suc
    by (simp add: Suc.IH [of "Suc a" "\<lambda>i. delay (Suc i)", symmetric] split: prod.split option.split)
qed

lemma int64_seconds: "0 < x \<Longrightarrow> x \<le> 4294967296 \<Longrightarrow> int64 x = x \<and> int64 (x * second) = x * second"
  by (auto simp: time_units intro!: int64_id)

lemma send_delay_small: "n < 33 \<Longrightarrow> send_delay (Suc n) = 2 ^ n * second"
proof -
  assume "n < 33"
  then have "(2::int) ^ n \<le> 2 ^ 32" by (intro power_increasing) auto
  with int64_seconds [of "2 ^ n"] show ?thesis by (simp add: send_delay_def)
qed

section \<open>Every channel is tried\<close>

text \<open>The reference for the loop: the outcome of every channel, in order.\<close>

fun channel_outcomes ::
    "(int \<Rightarrow> 's \<Rightarrow> go_error option \<times> 's) \<Rightarrow> 'f Notification \<Rightarrow> ('s, 'f) NotificationSender list \<Rightarrow> 's \<Rightarrow>
     send_error option list \<times> 's" where
  "channel_outcomes wait nt [] s = ([], s)"
| "channel_outcomes wait nt (c # cs) s =
     (case sendWithRetry wait c nt 3 s of (r, s1) \<Rightarrow>
      (case channel_outcomes wait nt cs s1 of (rs, s2) \<Rightarrow> (r # rs, s2)))"

definition failures :: "nat \<Rightarrow> 'e option list \<Rightarrow> (nat \<times> 'e) list" where
  "failures n rs = List.map_filter (\<lambda>(i, r). map_option (Pair i) r) (List.enumerate n rs)"

lemma failures_simps [simp]:
  "failures n [] = []"
  "failures n (r # rs) = (case r of Some e \<Rightarrow> (n, e) # failures (Suc n) rs | None \<Rightarrow> failures (Suc n) rs)"
  by (simp_all add: failures_def List.map_filter_def split: option.split)

lemma failures_Nil: "failures n rs = [] \<longleftrightarrow> (\<forall>r\<in>set rs. r = None)"
  by (induction rs arbitrary: n) (auto split: option.split)

lemma send_channels_outcomes:
  "send_channels wait nt n cs s = (case channel_outcomes wait nt cs s of (rs, s') \<Rightarrow> (failures n rs, s'))"
  by (induction cs arbitrary: n s) (simp_all split: prod.split)

lemma channel_outcomes_length: "channel_outcomes wait nt cs s = (rs, s') \<Longrightarrow> length rs = length cs"
  by (induction cs arbitrary: s rs) (auto split: prod.splits)

section \<open>Properties\<close>

text \<open>C20: an alert is dropped without an error when some silence window, which includes its start and
  not its end, holds the present time, whatever the alert's namespace; otherwise an alert that
  lacks a namespace or a recommended action is rejected before anything is sent; otherwise every
  channel is tried, whatever the others answer, and the result is an error that lists exactly
  the channels that failed, or none.\<close>

theorem alert_delivery:
  "SendAlert wait now m alert s =
     (if \<exists>sw\<in>set (am_silenceWindows m). sw_Start sw \<le> now \<and> now < sw_End sw then (None, s)
      else if at_Namespace alert = [] \<or> at_RecommendedAction alert = [] then
        (Some (EInvalidAlert (filter (\<lambda>f. if f = ''Namespace'' then at_Namespace alert = []
                                          else at_RecommendedAction alert = [])
           [''Namespace'', ''RecommendedAction''])), s)
      else (case channel_outcomes wait (build_notification alert) (am_channels m) s of (rs, s') \<Rightarrow>
        (if \<exists>r\<in>set rs. r \<noteq> None then Some (EChannels (failures 0 rs)) else None, s')))"
proof (cases "\<exists>sw\<in>set (am_silenceWindows m). sw_Start sw \<le> now \<and> now < sw_End sw")
  case True
  then have "IsInSilenceWindow now m (at_Namespace alert)" by (auto simp: IsInSilenceWindow_def list_ex_iff not_less)
  then show ?thesis using True by (simp add: SendAlert_def)
next
  case False
  then have awake: "\<not> IsInSilenceWindow now m (at_Namespace alert)"
    by (auto simp: IsInSilenceWindow_def list_ex_iff not_less)
  obtain rs s' where rs: "channel_outcomes wait (build_notification alert) (am_channels m) s = (rs, s')"
    by fastforce
  have "0 < length (failures 0 rs) \<longleftrightarrow> (\<exists>r\<in>set rs. r \<noteq> None)" using failures_Nil [of 0 rs] by auto
  then show ?thesis
    unfolding SendAlert_def if_not_P [OF awake] if_not_P [OF False] send_channels_outcomes rs prod.case
    by (cases "at_Namespace alert = []"; cases "at_RecommendedAction alert = []"; cases "\<exists>r\<in>set rs. r \<noteq> None")
      (simp_all add: validateAlert_def)
qed

text \<open>C22: with \<open>m\<close> retries, whatever the sender and the context do: the first attempt is made at once, the
  wait after the attempt \<open>i\<close> (counted from 0) is \<open>2 ^ i\<close> seconds. The loop ends at the first attempt that
  succeeds, without an error; or at the first of these waits that is cancelled, with the error of the
  context and without another attempt; or after \<open>m + 1\<close> attempts and \<open>m\<close> waits, with the error of the last attempt.\<close>

theorem send_attempts:
  assumes "0 \<le> m" "m \<le> 32"
  shows "sendWithRetry wait sender nt m s =
    (let attempt = (\<lambda>i. sn_Send sender nt (before_attempt (sn_Send sender nt) wait (\<lambda>i. 2 ^ i * second) i s));
         pause = (\<lambda>i. wait (2 ^ i * second) (snd (attempt i)))
     in case find (\<lambda>i. fst (attempt i) = None \<or> fst (pause i) \<noteq> None) [0..<nat m] of
          Some i \<Rightarrow> if fst (attempt i) = None then (None, snd (attempt i))
                    else (Some (ECancelled (the (fst (pause i)))), snd (pause i))
        | None \<Rightarrow> (map_option (\<lambda>err. EExhausted m (Some err)) (fst (attempt (nat m))), snd (attempt (nat m))))"
proof -
  have "\<forall>i<nat m. send_delay (Suc (0 + i)) = 2 ^ i * second" using assms send_delay_small by simp
  from send_from_retried [OF this, where send = "sn_Send sender nt" and s = s and wait = wait and m = m] assms(1)
  show ?thesis by (simp add: sendWithRetry_def retried_def nat_add_distrib)
qed

text \<open>In exact arithmetic and for costs and forecasts that are not negative, an anomaly is
  reported exactly when the reported deviation exceeds 20 percent; a cost without a forecast is
  one, with a deviation of 100.\<close>

lemma anomaly_is_deviation:
  fixes actual forecast :: real
  assumes "0 \<le> actual" "0 \<le> forecast"
  shows "(ad_IsAnomaly (CheckAnomalies actual forecast) \<longleftrightarrow> 20 < ad_DeviationPct (CheckAnomalies actual forecast)) \<and>
    (forecast = 0 \<longrightarrow> ad_DeviationPct (CheckAnomalies actual forecast) = (if 0 < actual then 100 else 0))"
  using assms by (auto simp: CheckAnomalies_def Let_def field_simps)

subsection \<open>The properties at work\<close>

text \<open>A sender whose answer depends on how often it was called, and a clock that writes down every wait and
  may cancel it: the state is the number of calls and the waits so far.\<close>

definition counted :: "(nat \<Rightarrow> go_error option) \<Rightarrow> (nat \<times> int list, f64) NotificationSender" where
  "counted answer = \<lparr>sn_Send = (\<lambda>_ s. (answer (fst s), (Suc (fst s), snd s))), sn_HealthCheck = (\<lambda>s. (None, s))\<rparr>"

definition noted :: "(nat \<Rightarrow> go_error option) \<Rightarrow> int \<Rightarrow> nat \<times> int list \<Rightarrow> go_error option \<times> nat \<times> int list" where
  "noted cancelled d s = (cancelled (length (snd s)), (fst s, snd s @ [d]))"

definition cancelled_context :: go_error where
  "cancelled_context = \<lparr>ge_ErrorCode = None, ge_HTTPStatusCode = None, ge_Error = ''context canceled''\<rparr>"

text \<open>Two failures before a success; no success; a context that ends in the second wait.\<close>

lemma send_attempts_witness:
  "\<forall>nt. sendWithRetry (noted (\<lambda>_. None)) (counted (\<lambda>i. if i < 2 then Some throttled else None)) nt 3 (0, []) =
       (None, (3, [second, 2 * second])) \<and>
     sendWithRetry (noted (\<lambda>_. None)) (counted (\<lambda>_. Some throttled)) nt 3 (0, []) =
       (Some (EExhausted 3 (Some throttled)), (4, [second, 2 * second, 4 * second])) \<and>
     sendWithRetry (noted (\<lambda>i. if i = 1 then Some cancelled_context else None)) (counted (\<lambda>_. Some throttled)) nt 3 (0, []) =
       (Some (ECancelled cancelled_context), (2, [second, 2 * second]))"
proof -
  have upt: "[0..<nat 3] = [0, 1, 2]" by (simp add: upt_rec)
  have three: "0 \<le> (3::int)" "3 \<le> (32::int)" by simp_all
  show ?thesis
    unfolding send_attempts [OF three] upt
    by (simp add: counted_def noted_def Let_def numeral_2_eq_2 numeral_3_eq_3)
qed

lemma anomaly_is_deviation_witness:
  "ad_IsAnomaly (CheckAnomalies 13 (10::real)) \<and> \<not> ad_IsAnomaly (CheckAnomalies 12 (10::real))"
  using anomaly_is_deviation [of 13 10] anomaly_is_deviation [of 12 10]
  by (simp add: CheckAnomalies_def)

end
