(* ===== verification/Orchestrator.thy ===== *)
theory Orchestrator
  imports Kube_Api Instance Alerting
begin

text \<open>
  \<^verbatim>\<open>pkg/orchestrator/controller.go\<close>: the reconciler that compares the costs of a policy's namespace
  with its budget, carries out the breach action, applies or generates recommendations, leaves a
  trace in the audit log and writes the status. Its components are interfaces that act on a
  state \<open>'s\<close>; a nil one is \<open>None\<close>. Its fields for the policy manager and the forecaster are never
  used. \<open>now\<close> is the instant a call reads from the clock, \<open>zone\<close> the offset of the local time.
\<close>

section \<open>The components\<close>

record ('s, 'f) InstanceManager =
  im_AnalyzeInstanceMix :: "'s \<Rightarrow> (instance_error + 'f InstanceMixAnalysis) \<times> 's"
  im_GenerateRecommendation ::
    "'f InstanceMixAnalysis \<Rightarrow> 'f FinancialPolicy list \<Rightarrow> 's \<Rightarrow> (instance_error + 'f OptimizationRecommendation) \<times> 's"
  im_ApplyRecommendation ::
    "'f OptimizationRecommendation \<Rightarrow> 's \<Rightarrow> (instance_error + 'f OptimizationResult) \<times> 's"

record ('s, 'f) OrchestratorReconciler =
  oc_Client :: "('s, 'f) Client"
  oc_AlertManager :: "('f Alert \<Rightarrow> 's \<Rightarrow> alert_error option \<times> 's) option"
  oc_InstanceManager :: "('s, 'f) InstanceManager option"
  oc_CostStore :: "(time \<Rightarrow> time \<Rightarrow> string \<Rightarrow> 's \<Rightarrow> store_error + 'f DailyCostRecord list) option"
  oc_AuditWriter :: "('f AuditLogEntry \<Rightarrow> 's \<Rightarrow> go_error option \<times> 's) option"

text \<open>A call returns a result to requeue or not, an error, or panics.\<close>

datatype reconcile_error = EClient kube_error | EStore store_error

datatype reconcile_result = Panicked | Finished | RequeueAfter int | Failed reconcile_error

section \<open>Breach actions\<close>

text \<open>An entry is written if there is a writer; its error is only logged.\<close>

definition write_audit ::
    "('f AuditLogEntry \<Rightarrow> 's \<Rightarrow> go_error option \<times> 's) option \<Rightarrow> 'f AuditLogEntry \<Rightarrow> 's \<Rightarrow> 's" where
  "write_audit w entry s = (case w of None \<Rightarrow> s
     | Some log_entry \<Rightarrow> (case log_entry entry s of (Some err, s') \<Rightarrow> s' | (None, s') \<Rightarrow> s'))"

definition breach_alert :: "time \<Rightarrow> 'f FinancialPolicy \<Rightarrow> 'f \<Rightarrow> 'f \<Rightarrow> 'f Alert" where
  "breach_alert now fp currentCost budgetUsagePct =
     \<lparr>at_ID = ''breach-'' @ Name fp @ ''-'' @ itoa now, at_Timestamp = now,
      at_Severity = AlertSeverityWarning, at_Category = AlertCategoryBudget,
      at_Namespace = TargetNamespace (Spec fp), at_CurrentCost = currentCost,
      at_BudgetLimit = MonthlyLimit (Budget (Spec fp)), at_UsagePercent = budgetUsagePct,
      at_Message = [Txt ''Budget breach detected: '', Fix 1 budgetUsagePct, Txt ''% of $'',
        Fix 2 (MonthlyLimit (Budget (Spec fp))), Txt '' limit''],
      at_RecommendedAction = ''Review namespace spending and consider scaling down resources''\<rparr>"

definition breach_entry :: "time \<Rightarrow> 'f FinancialPolicy \<Rightarrow> 'f \<Rightarrow> 'f \<Rightarrow> 'f::zero AuditLogEntry" where
  "breach_entry now fp currentCost budgetUsagePct =
     \<lparr>al_ID = [], al_Timestamp = now, al_Actor = ''system'', al_Action = ''breach_action'',
      al_ResourceType = ''FinancialPolicy'', al_ResourceName = Name fp,
      al_Namespace = TargetNamespace (Spec fp),
      al_Details = [(''breach_action'', DText (BreachAction (Budget (Spec fp)))),
        (''current_cost'', DNum currentCost), (''budget_usage_pct'', DNum budgetUsagePct),
        (''budget_limit'', DNum (MonthlyLimit (Budget (Spec fp))))],
      al_Reason = [], al_ExpectedSavings = 0, al_Result = ''success''\<rparr>"

text \<open>Throttling and blocking, like an unknown action, only log.\<close>

definition executeBreachAction ::
    "('s, 'f::zero) OrchestratorReconciler \<Rightarrow> time \<Rightarrow> 'f FinancialPolicy \<Rightarrow> 'f \<Rightarrow> 'f \<Rightarrow> 's \<Rightarrow>
     alert_error option \<times> 's" where
  "executeBreachAction r now fp currentCost budgetUsagePct s =
     (let action = BreachAction (Budget (Spec fp));
          (err, s1) = (if action = BreachActionAlert
            then (case oc_AlertManager r of None \<Rightarrow> (None, s)
                  | Some sendAlert \<Rightarrow> sendAlert (breach_alert now fp currentCost budgetUsagePct) s)
            else if action = BreachActionThrottle then (None, s)
            else if action = BreachActionBlockDeployments then (None, s)
            else (None, s))
      in case err of Some e \<Rightarrow> (Some e, s1)
         | None \<Rightarrow> (None, write_audit (oc_AuditWriter r) (breach_entry now fp currentCost budgetUsagePct) s1))"

section \<open>Recommendations\<close>

datatype optimization_error = EAnalyzing instance_error | EGenerating instance_error | EApplying instance_error

definition applyAutomaticOptimization ::
    "('s, 'f::{zero,ord}) OrchestratorReconciler \<Rightarrow> 'f FinancialPolicy \<Rightarrow> 's \<Rightarrow> optimization_error option \<times> 's" where
  "applyAutomaticOptimization r fp s =
     (case oc_InstanceManager r of None \<Rightarrow> (None, s)
      | Some im \<Rightarrow>
      (case im_AnalyzeInstanceMix im s of (Inl err, s1) \<Rightarrow> (Some (EAnalyzing err), s1)
       | (Inr analysis, s1) \<Rightarrow>
      (case im_GenerateRecommendation im analysis [fp] s1 of (Inl err, s2) \<Rightarrow> (Some (EGenerating err), s2)
       | (Inr recommendation, s2) \<Rightarrow>
          if or_ExpectedSavings recommendation \<le> 0 then (None, s2)
          else (case im_ApplyRecommendation im recommendation s2 of
              (Inl err, s3) \<Rightarrow> (Some (EApplying err), s3)
            | (Inr result, s3) \<Rightarrow> (None, s3)))))"

definition generateAdvisoryRecommendation ::
    "('s, 'f) OrchestratorReconciler \<Rightarrow> 'f FinancialPolicy \<Rightarrow> 's \<Rightarrow> 's" where
  "generateAdvisoryRecommendation r fp s =
     (case oc_InstanceManager r of None \<Rightarrow> s
      | Some im \<Rightarrow>
      (case im_AnalyzeInstanceMix im s of (Inl err, s1) \<Rightarrow> s1
       | (Inr analysis, s1) \<Rightarrow>
      (case im_GenerateRecommendation im analysis [fp] s1 of (Inl err, s2) \<Rightarrow> s2
       | (Inr recommendation, s2) \<Rightarrow> s2)))"

fun instance_error_text :: "instance_error \<Rightarrow> string" where
  "instance_error_text (EListNodes e) = ''listing nodes: '' @ ge_Error e"
| "instance_error_text EAnalysisNil = ''analysis must not be nil''"
| "instance_error_text ERecommendationNil = ''recommendation must not be nil''"
| "instance_error_text (EReadCosts e) = ''reading historical cost data: '' @ ge_Error e"

fun optimization_error_text :: "optimization_error \<Rightarrow> string" where
  "optimization_error_text (EAnalyzing e) = ''analyzing instance mix: '' @ instance_error_text e"
| "optimization_error_text (EGenerating e) = ''generating recommendation: '' @ instance_error_text e"
| "optimization_error_text (EApplying e) = ''applying recommendation: '' @ instance_error_text e"

definition failure_entry :: "time \<Rightarrow> 'f FinancialPolicy \<Rightarrow> optimization_error \<Rightarrow> 'f::zero AuditLogEntry" where
  "failure_entry now fp optimizationErr =
     \<lparr>al_ID = [], al_Timestamp = now, al_Actor = ''system'', al_Action = ''optimization_failure'',
      al_ResourceType = ''FinancialPolicy'', al_ResourceName = Name fp,
      al_Namespace = TargetNamespace (Spec fp),
      al_Details = [(''previous_mode'', DText (Mode (Spec fp))), (''new_mode'', DText PolicyModeAdvisory)],
      al_Reason = [Txt (optimization_error_text optimizationErr)], al_ExpectedSavings = 0,
      al_Result = ''failure''\<rparr>"

definition failure_alert :: "time \<Rightarrow> 'f FinancialPolicy \<Rightarrow> optimization_error \<Rightarrow> 'f::zero Alert" where
  "failure_alert now fp optimizationErr =
     \<lparr>at_ID = ''opt-fail-'' @ Name fp @ ''-'' @ itoa now, at_Timestamp = now,
      at_Severity = AlertSeverityCritical, at_Category = AlertCategoryPolicy,
      at_Namespace = TargetNamespace (Spec fp), at_CurrentCost = 0, at_BudgetLimit = 0, at_UsagePercent = 0,
      at_Message = [Txt (''Automatic optimization failed for policy '' @ Name fp @ '': '' @
        optimization_error_text optimizationErr @ ''. Switching to advisory mode.'')],
      at_RecommendedAction = ''Investigate the optimization failure and manually review recommendations''\<rparr>"

definition handleOptimizationFailure ::
    "('s, 'f::zero) OrchestratorReconciler \<Rightarrow> time \<Rightarrow> 'f FinancialPolicy \<Rightarrow> optimization_error \<Rightarrow> 's \<Rightarrow> 's" where
  "handleOptimizationFailure r now fp optimizationErr s =
     (let s1 = write_audit (oc_AuditWriter r) (failure_entry now fp optimizationErr) s
      in case oc_AlertManager r of None \<Rightarrow> s1
         | Some sendAlert \<Rightarrow> (case sendAlert (failure_alert now fp optimizationErr) s1 of
               (Some err, s2) \<Rightarrow> s2 | (None, s2) \<Rightarrow> s2))"

section \<open>Reconciling\<close>

text \<open>\<^verbatim>\<open>time.Date(now.Year(), now.Month(), 1, 0, 0, 0, 0, time.UTC)\<close> with the local year and month.\<close>

definition startOfMonth :: "int \<Rightarrow> time \<Rightarrow> time" where
  "startOfMonth zone now = midnight (d_Year (Date (now + zone))) (d_Month (Date (now + zone))) 1"

definition month_cost :: "'f DailyCostRecord list \<Rightarrow> 'f::{zero,plus}" where
  "month_cost records = fold (\<lambda>rec c. c + dr_TotalCost rec) records 0"

definition budget_usage :: "'f \<Rightarrow> 'f \<Rightarrow> 'f::{zero,one,times,inverse,ord,scaleR}" where
  "budget_usage currentCost budgetLimit =
     (if 0 < budgetLimit then (currentCost / budgetLimit) * lit 100 else 0)"

definition breach_detected :: "'f list \<Rightarrow> 'f::ord \<Rightarrow> bool" where
  "breach_detected thresholds budgetUsagePct =
     fold (\<lambda>threshold detected. if threshold \<le> budgetUsagePct then True else detected) thresholds False"

definition evaluate_entry ::
    "time \<Rightarrow> 'f FinancialPolicy \<Rightarrow> 'f \<Rightarrow> 'f \<Rightarrow> bool \<Rightarrow> 'f::zero AuditLogEntry" where
  "evaluate_entry now fp currentCost budgetUsagePct breachDetected =
     \<lparr>al_ID = [], al_Timestamp = now, al_Actor = ''system'', al_Action = ''policy_evaluate'',
      al_ResourceType = ''FinancialPolicy'', al_ResourceName = Name fp, al_Namespace = Namespace fp,
      al_Details = [(''current_cost'', DNum currentCost),
        (''budget_limit'', DNum (MonthlyLimit (Budget (Spec fp)))),
        (''budget_usage_pct'', DNum budgetUsagePct), (''breach_detected'', DFlag breachDetected),
        (''mode'', DText (Mode (Spec fp)))],
      al_Reason = [], al_ExpectedSavings = 0, al_Result = ''success''\<rparr>"

definition Reconcile ::
    "('s, 'f::{zero,one,plus,times,inverse,ord,scaleR}) OrchestratorReconciler \<Rightarrow> int \<Rightarrow> time \<Rightarrow> 's \<Rightarrow>
     string \<times> string \<Rightarrow> reconcile_result \<times> 's" where
  "Reconcile r zone now s req =
     (case kGet (oc_Client r) s (fst req) (snd req) of
        Inl err \<Rightarrow> (if err = KNotFound then (Finished, s) else (Failed (EClient err), s))
      | Inr fp \<Rightarrow>
        if Phase (Status fp) = PolicyPhaseError then (Finished, s)
        else case oc_CostStore r of
          None \<Rightarrow> (Panicked, s)
        | Some queryCostRecords \<Rightarrow>
        (case queryCostRecords (startOfMonth zone now) now (TargetNamespace (Spec fp)) s of
           Inl err \<Rightarrow> (Failed (EStore err), s)
         | Inr records \<Rightarrow>
           (let currentCost = month_cost records;
                budgetUsagePct = budget_usage currentCost (MonthlyLimit (Budget (Spec fp)));
                breachDetected = breach_detected (AlertThresholds (Budget (Spec fp))) budgetUsagePct;
                s1 = (if breachDetected
                      then (case executeBreachAction r now fp currentCost budgetUsagePct s of
                              (Some err, s1) \<Rightarrow> s1 | (None, s1) \<Rightarrow> s1)
                      else s);
                s2 = (if Mode (Spec fp) = PolicyModeAutomatic
                      then (case applyAutomaticOptimization r fp s1 of
                              (Some err, s2) \<Rightarrow> handleOptimizationFailure r now fp err s2
                            | (None, s2) \<Rightarrow> s2)
                      else generateAdvisoryRecommendation r fp s1);
                s3 = write_audit (oc_AuditWriter r)
                       (evaluate_entry now fp currentCost budgetUsagePct breachDetected) s2;
                fp1 = fp\<lparr>Status := (Status fp)\<lparr>CurrentCost := currentCost,
                        BudgetUsagePercent := budgetUsagePct, LastEvaluated := Some now\<rparr>\<rparr>
            in case kStatusUpdate (oc_Client r) s3 fp1 of
                 (Some err, s4, _) \<Rightarrow> (Failed (EClient err), s4)
               | (None, s4, _) \<Rightarrow> (RequeueAfter (5 * minute), s4))))"

text \<open>\<^verbatim>\<open>main.go\<close> builds the reconciler with a client, a scheme and a logger only.\<close>

definition main_reconciler :: "('s, 'f) Client \<Rightarrow> ('s, 'f) OrchestratorReconciler" where
  "main_reconciler c = \<lparr>oc_Client = c, oc_AlertManager = None, oc_InstanceManager = None,
     oc_CostStore = None, oc_AuditWriter = None\<rparr>"

section \<open>The phases of a reconciliation\<close>

text \<open>What happens between the query of the costs and the update of the status.\<close>

definition breach_phase ::
    "('s, 'f::{zero,one,plus,times,inverse,ord,scaleR}) OrchestratorReconciler \<Rightarrow> time \<Rightarrow> 'f FinancialPolicy \<Rightarrow>
     'f \<Rightarrow> 's \<Rightarrow> 's" where
  "breach_phase r now fp cost s =
     (let usage = budget_usage cost (MonthlyLimit (Budget (Spec fp))) in
      if \<exists>t\<in>set (AlertThresholds (Budget (Spec fp))). t \<le> usage
      then snd (executeBreachAction r now fp cost usage s) else s)"

definition mode_phase ::
    "('s, 'f::{zero,ord}) OrchestratorReconciler \<Rightarrow> time \<Rightarrow> 'f FinancialPolicy \<Rightarrow> 's \<Rightarrow> 's" where
  "mode_phase r now fp s =
     (if Mode (Spec fp) = PolicyModeAutomatic
      then (case applyAutomaticOptimization r fp s of
              (Some err, s') \<Rightarrow> handleOptimizationFailure r now fp err s' | (None, s') \<Rightarrow> s')
      else generateAdvisoryRecommendation r fp s)"

definition audit_phase ::
    "('s, 'f::{zero,one,plus,times,inverse,ord,scaleR}) OrchestratorReconciler \<Rightarrow> time \<Rightarrow> 'f FinancialPolicy \<Rightarrow>
     'f \<Rightarrow> 's \<Rightarrow> 's" where
  "audit_phase r now fp cost s =
     (let usage = budget_usage cost (MonthlyLimit (Budget (Spec fp))) in
      write_audit (oc_AuditWriter r) (evaluate_entry now fp cost usage
        (\<exists>t\<in>set (AlertThresholds (Budget (Spec fp))). t \<le> usage)) s)"

definition costed :: "time \<Rightarrow> 'f FinancialPolicy \<Rightarrow> 'f \<Rightarrow> 'f::{zero,one,times,inverse,ord,scaleR} FinancialPolicy" where
  "costed now fp cost = fp\<lparr>Status := (Status fp)\<lparr>CurrentCost := cost,
     BudgetUsagePercent := budget_usage cost (MonthlyLimit (Budget (Spec fp))), LastEvaluated := Some now\<rparr>\<rparr>"

lemma breach_detected_ex: "breach_detected ts x \<longleftrightarrow> (\<exists>t\<in>set ts. t \<le> x)"
proof -
  have "fold (\<lambda>t d. if t \<le> x then True else d) ts d \<longleftrightarrow> d \<or> (\<exists>t\<in>set ts. t \<le> x)" for d
    by (induction ts arbitrary: d) auto
  then show ?thesis by (simp add: breach_detected_def)
qed

lemma Reconcile_phases:
  assumes "kGet (oc_Client r) s (fst k) (snd k) = Inr fp" "Phase (Status fp) \<noteq> PolicyPhaseError"
    and "oc_CostStore r = Some store" "store (startOfMonth zone now) now (TargetNamespace (Spec fp)) s = Inr records"
  shows "Reconcile r zone now s k =
    (case kStatusUpdate (oc_Client r)
        (audit_phase r now fp (month_cost records)
          (mode_phase r now fp (breach_phase r now fp (month_cost records) s)))
        (costed now fp (month_cost records)) of
      (Some err, s4, _) \<Rightarrow> (Failed (EClient err), s4)
    | (None, s4, _) \<Rightarrow> (RequeueAfter (5 * minute), s4))"
proof -
  have drop: "(case x of (Some e, s1) \<Rightarrow> s1 | (None, s1) \<Rightarrow> s1) = snd x" for x :: "'e option \<times> 's"
    by (auto split: prod.split option.split)
  show ?thesis
    using assms
    by (simp add: Reconcile_def breach_phase_def mode_phase_def audit_phase_def costed_def breach_detected_ex
        Let_def drop)
qed

section \<open>Components that leave the resources alone\<close>

text \<open>
  The alert manager, the instance manager and the audit writer do not write policies: every call
  of theirs keeps a view of the state.
\<close>

definition keeps :: "('s \<Rightarrow> 'v) \<Rightarrow> ('s, 'f) OrchestratorReconciler \<Rightarrow> bool" where
  "keeps view r \<longleftrightarrow>
     (\<forall>send a s. oc_AlertManager r = Some send \<longrightarrow> view (snd (send a s)) = view s) \<and>
     (\<forall>w. oc_AuditWriter r = Some w \<longrightarrow> audit_writer w view) \<and>
     (\<forall>im. oc_InstanceManager r = Some im \<longrightarrow>
       (\<forall>s. view (snd (im_AnalyzeInstanceMix im s)) = view s) \<and>
       (\<forall>a ps s. view (snd (im_GenerateRecommendation im a ps s)) = view s) \<and>
       (\<forall>x s. view (snd (im_ApplyRecommendation im x s)) = view s))"

lemma keeps_audit: "keeps view r \<Longrightarrow> view (write_audit (oc_AuditWriter r) e s) = view s"
  unfolding keeps_def write_audit_def
  by (auto split: option.split prod.split) (metis audit_writer.keeps_view snd_conv)+

lemma keeps_breach: "keeps view r \<Longrightarrow> view (breach_phase r now fp cost s) = view s"
proof -
  assume k: "keeps view r"
  have "view (snd (executeBreachAction r now fp cost usage s)) = view s" for usage
  proof (cases "oc_AlertManager r")
    case None
    then show ?thesis by (simp add: executeBreachAction_def Let_def keeps_audit [OF k])
  next
    case (Some send)
    obtain e s1 where send: "send (breach_alert now fp cost usage) s = (e, s1)" by fastforce
    with k Some have "view s1 = view s" unfolding keeps_def by (metis snd_conv)
    then show ?thesis
      by (cases e) (simp_all add: executeBreachAction_def Let_def Some send keeps_audit [OF k])
  qed
  then show ?thesis by (simp add: breach_phase_def Let_def)
qed

lemma keeps_failure: "keeps view r \<Longrightarrow> view (handleOptimizationFailure r now fp err s) = view s"
proof -
  assume k: "keeps view r"
  let ?s1 = "write_audit (oc_AuditWriter r) (failure_entry now fp err) s"
  have "view (snd (send (failure_alert now fp err) ?s1)) = view s" if "oc_AlertManager r = Some send" for send
    using k that keeps_audit [OF k, of "failure_entry now fp err" s] unfolding keeps_def by simp
  then show ?thesis
    using keeps_audit [OF k, of "failure_entry now fp err" s]
    by (fastforce simp: handleOptimizationFailure_def Let_def split: option.split prod.split)
qed

lemma keeps_mode: "keeps view r \<Longrightarrow> view (mode_phase r now fp s) = view s"
proof -
  assume k: "keeps view r"
  show ?thesis
  proof (cases "oc_InstanceManager r")
    case None
    then show ?thesis
      by (simp add: mode_phase_def applyAutomaticOptimization_def generateAdvisoryRecommendation_def)
  next
    case (Some im)
    with k have step: "im_AnalyzeInstanceMix im s = (x, s') \<Longrightarrow> view s' = view s"
      "im_GenerateRecommendation im a ps s = (y, s') \<Longrightarrow> view s' = view s"
      "im_ApplyRecommendation im z s = (u, s') \<Longrightarrow> view s' = view s" for s s' x y z u a ps
      unfolding keeps_def by (metis snd_conv)+
    have "view (snd (applyAutomaticOptimization r fp s)) = view s" "view (generateAdvisoryRecommendation r fp s) = view s"
      by (auto simp: applyAutomaticOptimization_def generateAdvisoryRecommendation_def Some
          split: prod.split sum.split dest!: step)
    then show ?thesis
      by (auto simp: mode_phase_def keeps_failure [OF k] split: prod.split option.split)
  qed
qed

lemma keeps_audit_phase: "keeps view r \<Longrightarrow> view (audit_phase r now fp cost s) = view s"
  by (simp add: audit_phase_def Let_def keeps_audit)

lemmas keeps_phases = keeps_breach keeps_mode keeps_audit_phase

section \<open>The program's own components\<close>

text \<open>
  The instance manager and the alert manager of the program as components: \<open>ks\<close>, \<open>ks'\<close> and \<open>ks''\<close>
  are the orders of the loops over their maps.
\<close>

definition instance_manager ::
    "('s \<Rightarrow> go_error + KubeNode list) \<Rightarrow> ('f AuditLogEntry \<Rightarrow> 's \<Rightarrow> go_error option \<times> 's) option \<Rightarrow>
     string list \<Rightarrow> string list \<Rightarrow> string list \<Rightarrow> time \<Rightarrow>
     ('s, 'f::{zero,one,plus,minus,times,inverse,ord,size,scaleR}) InstanceManager" where
  "instance_manager listNodes w ks ks' ks'' now =
     \<lparr>im_AnalyzeInstanceMix = (\<lambda>s. (AnalyzeInstanceMix (listNodes s) ks now, s)),
      im_GenerateRecommendation = (\<lambda>a ps s. (GenerateRecommendation ks' now (Some a) ps, s)),
      im_ApplyRecommendation = (\<lambda>x s. ApplyRecommendation w ks' ks'' now (Some x) s)\<rparr>"

lemma instance_manager_keeps:
  assumes "\<forall>lg. w = Some lg \<longrightarrow> audit_writer lg view"
  shows "view (snd (im_AnalyzeInstanceMix (instance_manager listNodes w ks ks' ks'' now) s)) = view s"
    "view (snd (im_GenerateRecommendation (instance_manager listNodes w ks ks' ks'' now) a ps s)) = view s"
    "view (snd (im_ApplyRecommendation (instance_manager listNodes w ks ks' ks'' now) x s)) = view s"
proof -
  show "view (snd (im_ApplyRecommendation (instance_manager listNodes w ks ks' ks'' now) x s)) = view s"
  proof (cases w)
    case (Some lg)
    obtain e s1 where lg: "lg (recommendation_entry ks' ks'' now x) s = (e, s1)" by fastforce
    with assms Some audit_writer.keeps_view [of lg view "recommendation_entry ks' ks'' now x" s]
    have "view s1 = view s" by simp
    then show ?thesis
      by (cases e) (simp_all add: instance_manager_def ApplyRecommendation_def Some lg)
  qed (simp add: instance_manager_def ApplyRecommendation_def)
qed (simp_all add: instance_manager_def)

lemma send_from_keeps:
  assumes "\<And>s. view (snd (send s)) = view s" "\<And>d s. view (snd (wait d s)) = view s"
  shows "view (snd (send_from send wait m k a e s)) = view s"
proof (induction k arbitrary: a e s)
  case (Suc k)
  have "wait d s = (x, s1) \<Longrightarrow> view s1 = view s" "send s = (x, s1) \<Longrightarrow> view s1 = view s" for d s x s1
    using assms by (metis snd_conv)+
  with Suc show ?case by (auto split: prod.split option.split)
qed simp

lemma SendAlert_keeps:
  assumes "\<And>c n s. c \<in> set (am_channels m) \<Longrightarrow> view (snd (sn_Send c n s)) = view s"
    and "\<And>d s. view (snd (wait d s)) = view s"
  shows "view (snd (SendAlert wait now m a s)) = view s"
proof -
  have "set cs \<subseteq> set (am_channels m) \<Longrightarrow> view (snd (send_channels wait nt i cs s)) = view s" for i cs nt s
  proof (induction cs arbitrary: i s)
    case (Cons c cs)
    have "view (snd (sendWithRetry wait c nt 3 s)) = view s"
      unfolding sendWithRetry_def using Cons.prems assms by (intro send_from_keeps) auto
    with Cons show ?case by (auto split: prod.split) (metis snd_conv)
  qed simp
  from this [of "am_channels m" "build_notification a" 0 s] show ?thesis
    by (auto simp: SendAlert_def split: option.split prod.split)
qed

section \<open>Properties\<close>

text \<open>C3: a reconciliation writes nothing but the status of its policy, and only when it ends with
  the next one five minutes later: then the policy was not in the error phase, and its status has
  the costs of its target namespace since the first of the month, their percentage of the
  limit and the time; the phase, the conditions and the specification, with its mode, stay as they
  were, even after a failed optimization. This holds for every alert manager, instance manager
  and audit writer that does not write policies itself, whatever they answer.\<close>

theorem reconcile_reports_costs:
  fixes wf :: "'s \<Rightarrow> bool"
  assumes "kube_api (oc_Client r) wf objs" "keeps (\<lambda>s. (wf s, objs s)) r" "wf s"
    and "Reconcile r zone now s k = (res, s')"
  shows "wf s' \<and> (\<forall>j. j \<noteq> k \<longrightarrow> objs s' j = objs s j) \<and>
    (case res of RequeueAfter d \<Rightarrow> d = 5 * minute \<and> (\<exists>p q store records. objs s k = Some p \<and>
         Phase (Status p) \<noteq> PolicyPhaseError \<and> oc_CostStore r = Some store \<and>
         store (startOfMonth zone now) now (TargetNamespace (Spec p)) s = Inr records \<and>
         objs s' k = Some q \<and> same_body p q \<and>
         Status q = (Status p)\<lparr>CurrentCost := month_cost records, LastEvaluated := Some now,
           BudgetUsagePercent := budget_usage (month_cost records) (MonthlyLimit (Budget (Spec p)))\<rparr>)
     | _ \<Rightarrow> objs s' = objs s)"
proof (cases "\<exists>fp store records. kGet (oc_Client r) s (fst k) (snd k) = Inr fp \<and>
    Phase (Status fp) \<noteq> PolicyPhaseError \<and> oc_CostStore r = Some store \<and>
    store (startOfMonth zone now) now (TargetNamespace (Spec fp)) s = Inr records")
  case False
  then have "s' = s" "\<forall>d. res \<noteq> RequeueAfter d"
    using assms(4) by (auto simp: Reconcile_def split: sum.splits if_splits option.splits)
  with assms(3) show ?thesis by (auto split: reconcile_result.split)
next
  case True
  then obtain fp store records where fp: "kGet (oc_Client r) s (fst k) (snd k) = Inr fp"
    "Phase (Status fp) \<noteq> PolicyPhaseError" "oc_CostStore r = Some store"
    "store (startOfMonth zone now) now (TargetNamespace (Spec fp)) s = Inr records" by blast
  from kube_api.get_found [OF assms(1,3) fp(1)] kube_api.key_objs [OF assms(1,3)]
  have obj: "objs s k = Some fp" "key (costed now fp c) = k" for c by (simp_all add: costed_def key_def)
  define s3 where "s3 = audit_phase r now fp (month_cost records)
    (mode_phase r now fp (breach_phase r now fp (month_cost records) s))"
  have s3: "wf s3" "objs s3 = objs s"
    unfolding s3_def using keeps_phases [OF assms(2)] assms(3) by simp_all
  obtain e s4 p' where upd: "kStatusUpdate (oc_Client r) s3 (costed now fp (month_cost records)) = (e, s4, p')"
    by (metis prod_cases3)
  have run: "s' = s4 \<and> res = (case e of Some err \<Rightarrow> Failed (EClient err) | None \<Rightarrow> RequeueAfter (5 * minute))"
    using assms(4) upd by (simp add: Reconcile_phases [OF fp] s3_def split: option.splits)
  show ?thesis
  proof (cases e)
    case None
    from kube_api.status_ok [OF assms(1) s3(1) upd [unfolded None]] obj s3(2) fp run None
    show ?thesis by (fastforce simp: costed_def)
  next
    case (Some err)
    from kube_api.status_fails [OF assms(1) s3(1) upd [unfolded Some]] s3 run Some show ?thesis by simp
  qed
qed

text \<open>A reconciliation panics exactly when it has no cost store and finds a policy that is not in
  the error phase; the reconciler that the program starts has none.\<close>

lemma missing_store_panics:
  "(fst (Reconcile r zone now s k) = Panicked \<longleftrightarrow> oc_CostStore r = None \<and>
     (\<exists>fp. kGet (oc_Client r) s (fst k) (snd k) = Inr fp \<and> Phase (Status fp) \<noteq> PolicyPhaseError)) \<and>
   oc_CostStore (main_reconciler c) = None"
proof (cases "kGet (oc_Client r) s (fst k) (snd k)")
  case (Inr fp)
  then show ?thesis
    by (cases "oc_CostStore r") (auto simp: Reconcile_def main_reconciler_def Let_def
        split: sum.split prod.split option.split)
qed (simp add: Reconcile_def main_reconciler_def)

text \<open>C4: outside the automatic mode no recommendation is applied, and below every threshold no alert
  is sent: the outcome does not depend on what applying or sending would do.\<close>

theorem advisory_only_recommends:
  assumes "kGet (oc_Client r) s (fst k) (snd k) = Inr fp" "Mode (Spec fp) \<noteq> PolicyModeAutomatic"
  shows "Reconcile (r\<lparr>oc_InstanceManager := map_option (\<lambda>im. im\<lparr>im_ApplyRecommendation := f\<rparr>) (oc_InstanceManager r)\<rparr>)
      zone now s k = Reconcile r zone now s k \<and>
    ((\<forall>store records. oc_CostStore r = Some store \<longrightarrow>
        store (startOfMonth zone now) now (TargetNamespace (Spec fp)) s = Inr records \<longrightarrow>
        (\<forall>t\<in>set (AlertThresholds (Budget (Spec fp))).
          \<not> t \<le> budget_usage (month_cost records) (MonthlyLimit (Budget (Spec fp))))) \<longrightarrow>
     Reconcile (r\<lparr>oc_AlertManager := g\<rparr>) zone now s k = Reconcile r zone now s k)"
proof (cases "Phase (Status fp) \<noteq> PolicyPhaseError \<and> (\<exists>store records. oc_CostStore r = Some store \<and>
    store (startOfMonth zone now) now (TargetNamespace (Spec fp)) s = Inr records)")
  case False
  with assms show ?thesis by (auto simp: Reconcile_def split: option.split sum.split)
next
  case True
  then obtain store records where st: "Phase (Status fp) \<noteq> PolicyPhaseError" "oc_CostStore r = Some store"
    "store (startOfMonth zone now) now (TargetNamespace (Spec fp)) s = Inr records" by blast
  let ?apply = "\<lambda>r. r\<lparr>oc_InstanceManager := map_option (\<lambda>im. im\<lparr>im_ApplyRecommendation := f\<rparr>) (oc_InstanceManager r)\<rparr>"
  have same_action: "executeBreachAction (r\<lparr>oc_InstanceManager := x\<rparr>) now fp c u s = executeBreachAction r now fp c u s"
    for x c u s by (simp add: executeBreachAction_def cong: if_cong option.case_cong)
  have apply_phases: "breach_phase (?apply r) now fp c s = breach_phase r now fp c s"
    "mode_phase (?apply r) now fp s = mode_phase r now fp s"
    "audit_phase (?apply r) now fp c s = audit_phase r now fp c s" for c s
    using assms(2)
    by (auto simp: breach_phase_def same_action mode_phase_def generateAdvisoryRecommendation_def
        audit_phase_def Let_def split: option.split prod.split sum.split)
  have alert_phases: "mode_phase (r\<lparr>oc_AlertManager := g\<rparr>) now fp s = mode_phase r now fp s"
    "audit_phase (r\<lparr>oc_AlertManager := g\<rparr>) now fp c s = audit_phase r now fp c s" for c s
    using assms(2) by (simp_all add: mode_phase_def generateAdvisoryRecommendation_def audit_phase_def)
  have quiet: "breach_phase (r\<lparr>oc_AlertManager := g\<rparr>) now fp (month_cost records) s =
      breach_phase r now fp (month_cost records) s"
    if "\<forall>t\<in>set (AlertThresholds (Budget (Spec fp))).
      \<not> t \<le> budget_usage (month_cost records) (MonthlyLimit (Budget (Spec fp)))"
    using that by (auto simp: breach_phase_def Let_def)
  show ?thesis
    using Reconcile_phases [OF assms(1) st] Reconcile_phases [of "?apply r" s k fp store zone now records]
      Reconcile_phases [of "r\<lparr>oc_AlertManager := g\<rparr>" s k fp store zone now records] assms(1) st quiet
    by (simp add: apply_phases alert_phases)
qed

subsection \<open>The properties at work\<close>

definition demo_fp :: "f64 FinancialPolicy" where
  "demo_fp = \<lparr>Name = ''p'', Namespace = ''n'', Annotations = None, ResourceVersion = [],
     Spec = \<lparr>TargetNamespace = ''shop'',
       Budget = \<lparr>MonthlyLimit = mk 10, AlertThresholds = [mk 80], BreachAction = BreachActionAlert\<rparr>,
       InstanceMix = None, Mode = PolicyModeAdvisory, Alerting = None, Version = 0\<rparr>,
     Status = \<lparr>Phase = PolicyPhaseActive, CurrentCost = 0, BudgetUsagePercent = 0, LastEvaluated = None,
       Conditions = []\<rparr>\<rparr>"

definition demo_state :: "f64 mem_server" where
  "demo_state = \<lparr>stored = [demo_fp], revision = 1\<rparr>"

definition demo_manager :: "(f64 mem_server, f64) DefaultAlertManager" where
  "demo_manager = \<lparr>am_channels = [NewSlackSender Map.empty], am_silenceWindows = []\<rparr>"

definition demo_reconciler :: "(f64 mem_server, f64) OrchestratorReconciler" where
  "demo_reconciler = \<lparr>oc_Client = mem_client, oc_AlertManager = Some (SendAlert sleep_on 9 demo_manager),
     oc_InstanceManager = Some (instance_manager (\<lambda>s. Inr []) (Some NoopWriteEntry) [] [''on_demand'', ''spot''] [] 9),
     oc_CostStore = Some (\<lambda>start till ns s. Inr [\<lparr>dr_Date = 0, dr_Namespace = ''shop'', dr_TotalCost = mk 9,
       dr_DayOfWeek = 4, dr_DayOfMonth = 1\<rparr>]),
     oc_AuditWriter = Some NoopWriteEntry\<rparr>"

lemma demo_keeps: "keeps view demo_reconciler"
proof -
  have "view (snd (SendAlert sleep_on 9 demo_manager a s)) = view s" for a s
    by (rule SendAlert_keeps) (simp_all add: demo_manager_def NewSlackSender_def sleep_on_def)
  moreover have w: "audit_writer (NoopWriteEntry :: f64 AuditLogEntry \<Rightarrow> _) view" by (rule noop_writer.audit_writer_axioms)
  then have "\<forall>lg. Some (NoopWriteEntry :: f64 AuditLogEntry \<Rightarrow> _) = Some lg \<longrightarrow> audit_writer lg view" by simp
  note instance_manager_keeps [OF this]
  ultimately show ?thesis using w by (simp add: keeps_def demo_reconciler_def)
qed

lemma demo_run: "fst (Reconcile demo_reconciler 0 9 demo_state (''p'', ''n'')) = RequeueAfter (5 * minute)"
proof -
  have key: "key demo_fp = (''p'', ''n'')" "key (costed 9 demo_fp c) = (''p'', ''n'')" for c
    by (simp_all add: key_def demo_fp_def costed_def)
  have found: "mem_objs demo_state (''p'', ''n'') = Some demo_fp"
    by (simp add: mem_objs_def demo_state_def key)
  have get: "kGet (oc_Client demo_reconciler) demo_state (fst (''p'', ''n'')) (snd (''p'', ''n'')) = Inr demo_fp"
    by (simp add: demo_reconciler_def found)
  have "Phase (Status demo_fp) \<noteq> PolicyPhaseError" by (simp add: demo_fp_def policy_constants)
  note run = Reconcile_phases [OF get this, of "the (oc_CostStore demo_reconciler)" 0 9]
  show ?thesis
    by (subst run) (simp_all add: keeps_phases [OF demo_keeps [where view = "\<lambda>s. s"]],
      simp_all add: demo_reconciler_def mem_status_update_def found key Let_def, simp_all add: costed_def demo_fp_def)
qed

lemma reconcile_reports_costs_witness:
  "\<exists>s' q. Reconcile demo_reconciler 0 9 demo_state (''p'', ''n'') = (RequeueAfter (5 * minute), s') \<and>
     mem_objs s' (''p'', ''n'') = Some q \<and> CurrentCost (Status q) = mk 9 \<and> Mode (Spec q) = PolicyModeAdvisory"
proof -
  obtain s' where run: "Reconcile demo_reconciler 0 9 demo_state (''p'', ''n'') = (RequeueAfter (5 * minute), s')"
    using demo_run by (metis prod.collapse)
  have wf: "mem_wf demo_state" by (simp add: mem_wf_def demo_state_def)
  have "kube_api (oc_Client demo_reconciler) mem_wf mem_objs"
    using mem.kube_api_axioms by (simp add: demo_reconciler_def)
  from reconcile_reports_costs [OF this demo_keeps wf run]
  obtain p q store records where q: "mem_objs demo_state (''p'', ''n'') = Some p" "oc_CostStore demo_reconciler = Some store"
    "store (startOfMonth 0 9) 9 (TargetNamespace (Spec p)) demo_state = Inr records"
    "mem_objs s' (''p'', ''n'') = Some q" "same_body p q" "CurrentCost (Status q) = month_cost records"
    by auto
  have "p = demo_fp" using q(1) by (simp add: mem_objs_def demo_state_def split: if_splits)
  moreover have "month_cost records = mk 9"
    using q(2,3) mk_add [of 0 9] by (auto simp: demo_reconciler_def month_cost_def mk_0)
  ultimately show ?thesis using run q by (auto simp: same_body_def demo_fp_def)
qed

lemma advisory_only_recommends_witness:
  "Reconcile (demo_reconciler\<lparr>oc_InstanceManager := map_option
       (\<lambda>im. im\<lparr>im_ApplyRecommendation := (\<lambda>x s. (Inl EAnalysisNil, s\<lparr>stored := []\<rparr>))\<rparr>)
       (oc_InstanceManager demo_reconciler)\<rparr>) 0 9 demo_state (''p'', ''n'') =
   Reconcile demo_reconciler 0 9 demo_state (''p'', ''n'')"
proof -
  have get: "kGet (oc_Client demo_reconciler) demo_state (fst (''p'', ''n'')) (snd (''p'', ''n'')) = Inr demo_fp"
    by (simp add: demo_reconciler_def mem_objs_def demo_state_def key_def demo_fp_def)
  have "Mode (Spec demo_fp) \<noteq> PolicyModeAutomatic" by (simp add: demo_fp_def policy_constants)
  from advisory_only_recommends [OF get this] show ?thesis by blast
qed

end
