(* ===== verification/Versioned_Api.thy ===== *)
theory Versioned_Api
  imports Kube_Api
begin

text \<open>
  The API server with its resource versions: the locale \<open>versioned_api\<close> extends the contract
  \<open>kube_api\<close> by optimistic locking, and the server in memory that remembers all objects it has had
  meets it.
\<close>

section \<open>Resource versions\<close>

text \<open>
  \<open>had s k\<close> are the objects there have been under a key, the deleted ones included; no two have
  the same resource version. An update fails unless it carries the version that is stored, or none.
  The answer of an update carries the new version, and its status is the stored one decoded over
  the one that was sent; a created object has no status.
\<close>

locale versioned_api = kube_api c wf objs
  for c :: "('s, 'f::{zero,one,plus,minus,times,inverse,ord,scaleR}) Client"
    and wf :: "'s \<Rightarrow> bool"
    and objs :: "'s \<Rightarrow> (string \<times> string \<rightharpoonup> 'f FinancialPolicy)" +
  fixes had :: "'s \<Rightarrow> string \<times> string \<Rightarrow> 'f FinancialPolicy set"
  assumes had_now: "wf s \<Longrightarrow> objs s k = Some p \<Longrightarrow> p \<in> had s k"
    and had_unique: "wf s \<Longrightarrow> p \<in> had s k \<Longrightarrow> q \<in> had s k \<Longrightarrow> ResourceVersion p = ResourceVersion q \<Longrightarrow> p = q"
    and had_version: "wf s \<Longrightarrow> p \<in> had s k \<Longrightarrow> key p = k \<and> ResourceVersion p \<noteq> []"
    and had_create: "wf s \<Longrightarrow> kCreate c s p = (r, s', p') \<Longrightarrow> had s' k = had s k \<union> {q. objs s' k = Some q}"
    and had_update: "wf s \<Longrightarrow> kUpdate c s p = (r, s', p') \<Longrightarrow> had s' k = had s k \<union> {q. objs s' k = Some q}"
    and had_status: "wf s \<Longrightarrow> kStatusUpdate c s p = (r, s', p') \<Longrightarrow> had s' k = had s k \<union> {q. objs s' k = Some q}"
    and create_phase: "wf s \<Longrightarrow> kCreate c s p = (None, s', p') \<Longrightarrow> objs s' (key p) = Some q \<Longrightarrow>
      Phase (Status q) = []"
    and status_locked: "wf s \<Longrightarrow> kStatusUpdate c s p = (None, s', p') \<Longrightarrow> objs s (key p) = Some old \<Longrightarrow>
      ResourceVersion p = [] \<or> ResourceVersion p = ResourceVersion old"
    and update_locked: "wf s \<Longrightarrow> kUpdate c s p = (None, s', p') \<Longrightarrow> objs s (key p) = Some old \<Longrightarrow>
      ResourceVersion p = [] \<or> ResourceVersion p = ResourceVersion old"
    and update_answers: "wf s \<Longrightarrow> kUpdate c s p = (None, s', p') \<Longrightarrow> objs s' (key p) = Some q \<Longrightarrow>
      ResourceVersion p' = ResourceVersion q \<and>
      Phase (Status p') = (if Phase (Status q) = [] then Phase (Status p) else Phase (Status q))"
begin

text \<open>A status update of a version there has been only succeeds on that version.\<close>

lemma status_of_read:
  assumes "wf s" "kStatusUpdate c s p = (None, s', p')" "q \<in> had s (key p)" "ResourceVersion p = ResourceVersion q"
  shows "objs s (key p) = Some q \<and> wf s' \<and>
    (\<exists>x. same_body q x \<and> Status x = Status p \<and> objs s' = (objs s)(key p \<mapsto> x))"
proof -
  from status_ok [OF assms(1,2)] obtain old x where
    x: "wf s'" "objs s (key p) = Some old" "same_body old x" "Status x = Status p" "objs s' = (objs s)(key p \<mapsto> x)"
    by blast
  have "ResourceVersion old = ResourceVersion q"
    using status_locked [OF assms(1,2) x(2)] had_version [OF assms(1,3)] assms(4) by simp
  then have "old = q" by (rule had_unique [OF assms(1) had_now [OF assms(1) x(2)] assms(3)])
  with x show ?thesis by blast
qed

end

section \<open>A server with its past\<close>

text \<open>The server in memory with all objects it has had.\<close>

type_synonym 'f past_server = "'f mem_server \<times> 'f FinancialPolicy list"

definition remember :: "'f FinancialPolicy list \<Rightarrow> kube_error option \<times> 'f mem_server \<times> 'f FinancialPolicy \<Rightarrow>
    kube_error option \<times> 'f past_server \<times> 'f FinancialPolicy" where
  "remember past ans = (case ans of (r, s', p') \<Rightarrow> (r, (s', past @ stored s'), p'))"

definition past_client :: "('f::zero past_server, 'f) Client" where
  "past_client =
     \<lparr>kGet = (\<lambda>s. kGet mem_client (fst s)), kList = (\<lambda>s. kList mem_client (fst s)),
      kCreate = (\<lambda>s p. remember (snd s) (mem_create (fst s) p)),
      kUpdate = (\<lambda>s p. remember (snd s) (mem_update (fst s) p)),
      kStatusUpdate = (\<lambda>s p. remember (snd s) (mem_status_update (fst s) p))\<rparr>"

definition past_objs :: "'f past_server \<Rightarrow> (string \<times> string \<rightharpoonup> 'f FinancialPolicy)" where
  "past_objs s = mem_objs (fst s)"

definition past_had :: "'f past_server \<Rightarrow> string \<times> string \<Rightarrow> 'f FinancialPolicy set" where
  "past_had s k = {p \<in> set (snd s). key p = k}"

definition past_wf :: "'f past_server \<Rightarrow> bool" where
  "past_wf s \<longleftrightarrow> mem_wf (fst s) \<and> set (stored (fst s)) \<subseteq> set (snd s) \<and>
     (\<exists>m. revision (fst s) = int m \<and> (\<forall>p\<in>set (snd s). \<exists>n<m. ResourceVersion p = itoa (int n))) \<and>
     (\<forall>p\<in>set (snd s). \<forall>q\<in>set (snd s). key p = key q \<longrightarrow> ResourceVersion p = ResourceVersion q \<longrightarrow> p = q)"

text \<open>A call changes nothing or stores one object, with the next version.\<close>

definition adds_one :: "'f mem_server \<Rightarrow> 'f mem_server \<Rightarrow> bool" where
  "adds_one s s' \<longleftrightarrow> (\<exists>q. set (stored s') \<subseteq> insert q (set (stored s)) \<and>
     ResourceVersion q = itoa (revision s) \<and> revision s' = revision s + 1)"

lemma put_adds: "ResourceVersion q = itoa (revision s) \<Longrightarrow> adds_one s (put q s)"
  unfolding adds_one_def by (rule exI [of _ q]) (auto simp: put_def)

lemma calls_add:
  "mem_create s p = (r, s', p') \<Longrightarrow> s' = s \<or> adds_one s s'"
  "mem_update s p = (r, s', p') \<Longrightarrow> s' = s \<or> adds_one s s'"
  "mem_status_update s p = (r, s', p') \<Longrightarrow> s' = s \<or> adds_one s s'"
proof -
  show "mem_create s p = (r, s', p') \<Longrightarrow> s' = s \<or> adds_one s s'"
    unfolding adds_one_def
    by (auto simp: mem_create_def Let_def split: option.splits
        intro!: exI [of _ "p\<lparr>Status := empty_status, ResourceVersion := itoa (revision s)\<rparr>"])
qed (auto simp: mem_update_def mem_status_update_def Let_def put_adds split: option.splits if_splits)

lemma past_wf_adds:
  assumes "past_wf (s, past)" "mem_wf s'" "s' = s \<or> adds_one s s'"
  shows "past_wf (s', past @ stored s')"
  using assms(3)
proof
  assume "s' = s"
  with assms(1) have "set (past @ stored s') = set past" by (auto simp: past_wf_def)
  with assms(1) \<open>s' = s\<close> show ?thesis by (auto simp: past_wf_def)
next
  assume "adds_one s s'"
  then obtain q where q: "set (stored s') \<subseteq> insert q (set (stored s))" "ResourceVersion q = itoa (revision s)"
    "revision s' = revision s + 1" by (auto simp: adds_one_def)
  from assms(1) obtain m where m: "revision s = int m" "\<forall>p\<in>set past. \<exists>n<m. ResourceVersion p = itoa (int n)"
    and sub: "set (stored s) \<subseteq> set past"
    and uniq: "\<forall>p\<in>set past. \<forall>q\<in>set past. key p = key q \<longrightarrow> ResourceVersion p = ResourceVersion q \<longrightarrow> p = q"
    by (auto simp: past_wf_def)
  have all: "set (past @ stored s') \<subseteq> insert q (set past)" using q(1) sub by auto
  have new: "p \<in> set past \<Longrightarrow> ResourceVersion p \<noteq> ResourceVersion q" for p
    using m q(2) itoa_inj by fastforce
  have "revision s' = int (Suc m)" using q(3) m(1) by simp
  moreover have "\<forall>p\<in>insert q (set past). \<exists>n<Suc m. ResourceVersion p = itoa (int n)"
    using m q(2) less_SucI by (metis insert_iff lessI)
  moreover have "\<forall>p\<in>insert q (set past). \<forall>x\<in>insert q (set past). key p = key x \<longrightarrow>
      ResourceVersion p = ResourceVersion x \<longrightarrow> p = x"
    using uniq new by (metis insert_iff)
  ultimately have "\<exists>m. revision s' = int m \<and> (\<forall>p\<in>set (past @ stored s'). \<exists>n<m. ResourceVersion p = itoa (int n))"
    "\<forall>p\<in>set (past @ stored s'). \<forall>x\<in>set (past @ stored s'). key p = key x \<longrightarrow>
      ResourceVersion p = ResourceVersion x \<longrightarrow> p = x"
    using all by (meson subsetD)+
  moreover have "set (stored s') \<subseteq> set (past @ stored s')" by simp
  ultimately show ?thesis using assms(2) unfolding past_wf_def fst_conv snd_conv by blast
qed

lemma itoa_not_Nil: "itoa (int n) \<noteq> []"
  by (simp add: itoa_def digits_of.simps [of n])

text \<open>The laws of \<open>past_client\<close> are those of \<open>mem_client\<close>.\<close>

lemma past_call:
  assumes "past_wf s" "remember (snd s) ans = (r, s', p')"
    and call: "\<And>t. ans = (r, t, p') \<Longrightarrow> mem_wf t \<and> (t = fst s \<or> adds_one (fst s) t)"
  shows "past_wf s'" "ans = (r, fst s', p')" "past_had s' k = past_had s k \<union> {q. past_objs s' k = Some q}"
proof -
  obtain t where t: "ans = (r, t, p')" "s' = (t, snd s @ stored t)"
    using assms(2) by (auto simp: remember_def split: prod.splits)
  show "ans = (r, fst s', p')" by (simp add: t)
  show "past_wf s'" using past_wf_adds [of "fst s" "snd s" t] assms(1) call [OF t(1)] by (simp add: t(2))
  have "{q. mem_objs t k = Some q} = {q \<in> set (stored t). key q = k}"
    using mem_objs_unique [of t] call [OF t(1)] mem_objs_in [of t k] mem_objs_key [of t k] by blast
  then show "past_had s' k = past_had s k \<union> {q. past_objs s' k = Some q}"
    by (auto simp: past_had_def past_objs_def t(2))
qed

lemma mem_wf_calls:
  "mem_wf s \<Longrightarrow> mem_create s p = (r, s', p') \<Longrightarrow> mem_wf s'"
  "mem_wf s \<Longrightarrow> mem_update s p = (r, s', p') \<Longrightarrow> mem_wf s'"
  "mem_wf s \<Longrightarrow> mem_status_update s p = (r, s', p') \<Longrightarrow> mem_wf s'"
  by (cases r; auto dest: mem_create_ok mem_update_ok mem_status_ok mem_fails)+

lemma past_create:
  assumes "past_wf s" "kCreate past_client s p = (r, s', p')"
  shows "past_wf s'" "mem_create (fst s) p = (r, fst s', p')"
    "past_had s' k = past_had s k \<union> {q. past_objs s' k = Some q}"
  using past_call [of s "mem_create (fst s) p" r s' p'] assms mem_wf_calls(1) [of "fst s" p] calls_add(1) [of "fst s" p]
  by (auto simp: past_client_def past_wf_def)

lemma past_update:
  assumes "past_wf s" "kUpdate past_client s p = (r, s', p')"
  shows "past_wf s'" "mem_update (fst s) p = (r, fst s', p')"
    "past_had s' k = past_had s k \<union> {q. past_objs s' k = Some q}"
  using past_call [of s "mem_update (fst s) p" r s' p'] assms mem_wf_calls(2) [of "fst s" p] calls_add(2) [of "fst s" p]
  by (auto simp: past_client_def past_wf_def)

lemma past_status:
  assumes "past_wf s" "kStatusUpdate past_client s p = (r, s', p')"
  shows "past_wf s'" "mem_status_update (fst s) p = (r, fst s', p')"
    "past_had s' k = past_had s k \<union> {q. past_objs s' k = Some q}"
  using past_call [of s "mem_status_update (fst s) p" r s' p'] assms mem_wf_calls(3) [of "fst s" p] calls_add(3) [of "fst s" p]
  by (auto simp: past_client_def past_wf_def)

interpretation past: kube_api past_client past_wf past_objs
proof
  fix s s' :: "'f::{ord,zero,one,minus,scaleR} past_server" and p p' :: "'f FinancialPolicy" and k n ns ps e
  show "past_wf s \<Longrightarrow> past_objs s k = Some p \<Longrightarrow> key p = k"
    by (simp add: past_objs_def mem_objs_key)
  show "past_wf s \<Longrightarrow> kGet past_client s n ns = Inr p \<Longrightarrow> past_objs s (n, ns) = Some p"
    "past_wf s \<Longrightarrow> kGet past_client s n ns = Inl KNotFound \<Longrightarrow> past_objs s (n, ns) = None"
    by (simp_all add: past_objs_def past_client_def split: option.splits)
  have lists: "kList past_client s x = kList mem_client (fst s) x" for x
    by (simp only: past_client_def Client.select_convs)
  show "set ps = ran (past_objs s)" if "past_wf s" "kList past_client s None = Inr ps"
    using mem.list_all [of "fst s" ps] that unfolding lists past_objs_def past_wf_def by blast
  show "set ps = {p \<in> ran (past_objs s). Namespace p = ns}" if "past_wf s" "kList past_client s (Some ns) = Inr ps"
    using mem.list_in [of "fst s" ns ps] that unfolding lists past_objs_def past_wf_def by blast
  show "past_wf s' \<and> past_objs s (key p) = None \<and>
      (\<exists>q. same_body p q \<and> past_objs s' = (past_objs s)(key p \<mapsto> q)) \<and> same_body p p'"
    if "past_wf s" "kCreate past_client s p = (None, s', p')"
    using past_create [OF that] mem_create_ok [of "fst s" p "fst s'" p'] that(1)
    by (simp add: past_objs_def [abs_def] past_wf_def [of s])
  show "past_wf s' \<and> (\<exists>old q. past_objs s (key p) = Some old \<and> same_body p q \<and> Status q = Status old \<and>
        past_objs s' = (past_objs s)(key p \<mapsto> q) \<and> same_body p p' \<and>
        (Phase (Status old) \<noteq> [] \<longrightarrow> Phase (Status p') = Phase (Status old)))"
    if "past_wf s" "kUpdate past_client s p = (None, s', p')"
    using past_update [OF that] mem_update_ok [of "fst s" p "fst s'" p'] that(1)
    by (simp add: past_objs_def [abs_def] past_wf_def [of s])
  show "past_wf s' \<and> (\<exists>old q. past_objs s (key p) = Some old \<and> same_body old q \<and> Status q = Status p \<and>
        past_objs s' = (past_objs s)(key p \<mapsto> q))"
    if "past_wf s" "kStatusUpdate past_client s p = (None, s', p')"
    using past_status [OF that] mem_status_ok [of "fst s" p "fst s'" p'] that(1)
    by (simp add: past_objs_def [abs_def] past_wf_def [of s])
  show "past_wf s' \<and> past_objs s' = past_objs s" if "past_wf s" "kCreate past_client s p = (Some e, s', p')"
    using past_create [OF that] mem_fails(1) [of "fst s" p e "fst s'" p'] that(1)
    by (simp add: past_objs_def [abs_def] past_wf_def [of s])
  show "past_wf s' \<and> past_objs s' = past_objs s" if "past_wf s" "kUpdate past_client s p = (Some e, s', p')"
    using past_update [OF that] mem_fails(2) [of "fst s" p e "fst s'" p'] that(1)
    by (simp add: past_objs_def [abs_def] past_wf_def [of s])
  show "past_wf s' \<and> past_objs s' = past_objs s" if "past_wf s" "kStatusUpdate past_client s p = (Some e, s', p')"
    using past_status [OF that] mem_fails(3) [of "fst s" p e "fst s'" p'] that(1)
    by (simp add: past_objs_def [abs_def] past_wf_def [of s])
qed

interpretation past_versions: versioned_api past_client past_wf past_objs past_had
proof
  fix s s' :: "'f::{zero,one,plus,minus,times,inverse,ord,scaleR} past_server"
    and p p' q old :: "'f FinancialPolicy" and k r
  show "past_objs s k = Some p \<Longrightarrow> p \<in> past_had s k" if "past_wf s"
    using that mem_objs_in [of "fst s" k p] mem_objs_key [of "fst s" k p]
    by (auto simp: past_objs_def past_had_def past_wf_def)
  show "p = q" if "past_wf s" "p \<in> past_had s k" "q \<in> past_had s k" "ResourceVersion p = ResourceVersion q"
    using that by (auto simp: past_wf_def past_had_def)
  show "key p = k \<and> ResourceVersion p \<noteq> []" if "past_wf s" "p \<in> past_had s k"
    using that by (auto simp: past_wf_def past_had_def itoa_not_Nil dest: bspec)
  show "past_had s' k = past_had s k \<union> {q. past_objs s' k = Some q}"
    if "past_wf s" "kCreate past_client s p = (r, s', p')" by (rule past_create(3) [OF that])
  show "past_had s' k = past_had s k \<union> {q. past_objs s' k = Some q}"
    if "past_wf s" "kUpdate past_client s p = (r, s', p')" by (rule past_update(3) [OF that])
  show "past_had s' k = past_had s k \<union> {q. past_objs s' k = Some q}"
    if "past_wf s" "kStatusUpdate past_client s p = (r, s', p')" by (rule past_status(3) [OF that])
  show "Phase (Status q) = []"
    if "past_wf s" "kCreate past_client s p = (None, s', p')" "past_objs s' (key p) = Some q"
  proof -
    have "mem_objs (fst s) (key p) = None" "fst s' = (fst s)\<lparr>stored := stored (fst s) @
        [p\<lparr>Status := empty_status, ResourceVersion := itoa (revision (fst s))\<rparr>], revision := revision (fst s) + 1\<rparr>"
      using past_create(2) [OF that(1,2)] by (auto simp: mem_create_def Let_def split: option.splits)
    then show ?thesis
      using that(3) mem_objs_append [of "fst s" "p\<lparr>Status := empty_status, ResourceVersion := itoa (revision (fst s))\<rparr>"]
      by (auto simp: past_objs_def empty_status_def)
  qed
  show "ResourceVersion p = [] \<or> ResourceVersion p = ResourceVersion old"
    if "past_wf s" "kStatusUpdate past_client s p = (None, s', p')" "past_objs s (key p) = Some old"
    using past_status(2) [OF that(1,2)] that(3)
    by (auto simp: past_objs_def mem_status_update_def Let_def split: if_splits)
  show "ResourceVersion p = [] \<or> ResourceVersion p = ResourceVersion old"
    if "past_wf s" "kUpdate past_client s p = (None, s', p')" "past_objs s (key p) = Some old"
    using past_update(2) [OF that(1,2)] that(3)
    by (auto simp: past_objs_def mem_update_def Let_def split: if_splits)
  show "ResourceVersion p' = ResourceVersion q \<and>
      Phase (Status p') = (if Phase (Status q) = [] then Phase (Status p) else Phase (Status q))"
    if "past_wf s" "kUpdate past_client s p = (None, s', p')" "past_objs s' (key p) = Some q"
  proof -
    note upd = past_update(2) [OF that(1,2)]
    obtain old where old: "mem_objs (fst s) (key p) = Some old"
      and s': "fst s' = put (p\<lparr>Status := Status old, ResourceVersion := itoa (revision (fst s))\<rparr>) (fst s)"
      and p': "p' = p\<lparr>Status := decode_status (Status old) (Status p), ResourceVersion := itoa (revision (fst s))\<rparr>"
      using upd by (auto simp: mem_update_def Let_def split: option.splits if_splits)
    have "q = p\<lparr>Status := Status old, ResourceVersion := itoa (revision (fst s))\<rparr>"
      using that(3) mem_objs_put [of "fst s" "p\<lparr>Status := Status old, ResourceVersion := itoa (revision (fst s))\<rparr>"] old
      by (simp add: past_objs_def s')
    then show ?thesis by (simp add: p' decode_status_def)
  qed
qed

end
