(* ===== verification/Interleaving.thy ===== *)
theory Interleaving
  imports Policy_Controller Policy_Manager Orchestrator Versioned_Api
begin

text \<open>
  The two controllers, the policy manager and the users of the cluster at work on the same
  policies. A reconciliation is two calls to the API server, a read and a status update, and a
  rollback three; between them, the others may do anything. Reads may be answered by the cache of
  the client, which lags behind: a read gives any version of the object there has been. What keeps
  the parts from overwriting each other's verdicts is the resource version, which an update has
  to carry (theory \<^verbatim>\<open>Versioned_Api\<close>).
\<close>

section \<open>The system\<close>

text \<open>
  \<open>evaluating\<close> and \<open>enforcing\<close> are the policies the two controllers have read and not yet written
  (a controller works on one request for a key at a time), \<open>rolling\<close> the answers of the updates of
  rollbacks whose status update is still to come. \<open>verdict\<close> is the specification the policy
  controller has evaluated last, which no part of the program stores.
\<close>

record ('s, 'f) system =
  server :: 's
  evaluating :: "string \<times> string \<rightharpoonup> 'f FinancialPolicy"
  enforcing :: "string \<times> string \<rightharpoonup> 'f FinancialPolicy"
  rolling :: "'f FinancialPolicy set"
  verdict :: "string \<times> string \<rightharpoonup> 'f FinancialPolicySpec"

text \<open>
  The object a rollback sends: the specification of a version, numbered anew, with the phase set.
\<close>

definition rolled_back ::
    "time \<Rightarrow> 'f::{zero,minus} FinancialPolicy \<Rightarrow> 'f FinancialPolicySpec \<Rightarrow> 'f FinancialPolicy \<Rightarrow> bool" where
  "rolled_back now old target p \<longleftrightarrow>
     (\<exists>policy1. appendVersionHistory now old = Inr policy1 \<and>
        p = set_phase PolicyPhaseRolledBack
              (set_version (int64 (Version (Spec policy1) + 1)) (policy1\<lparr>Spec := target\<rparr>)))"

text \<open>
  The steps. \<open>create\<close> and \<open>update\<close> are calls of anybody, among them the manager's; \<open>delete\<close> and
  \<open>other\<close> are what the program does not do itself: deletions, and changes of the state that leave
  the policies alone, such as sending alerts and writing the audit log.
\<close>

inductive control_step ::
    "('s, 'f::{zero,one,plus,minus,times,inverse,ord,scaleR}) Client \<Rightarrow> ('s \<Rightarrow> bool) \<Rightarrow>
     ('s \<Rightarrow> (string \<times> string \<rightharpoonup> 'f FinancialPolicy)) \<Rightarrow> ('s \<Rightarrow> string \<times> string \<Rightarrow> 'f FinancialPolicy set) \<Rightarrow>
     ('s, 'f) system \<Rightarrow> ('s, 'f) system \<Rightarrow> bool"
  for c good objs had
where
  create: "kCreate c (server x) p = (r, s', p') \<Longrightarrow> control_step c good objs had x (x\<lparr>server := s'\<rparr>)"
| update: "kUpdate c (server x) p = (r, s', p') \<Longrightarrow> control_step c good objs had x (x\<lparr>server := s'\<rparr>)"
| delete: "good s' \<Longrightarrow> objs s' = (objs (server x))(k := None) \<Longrightarrow> had s' = had (server x) \<Longrightarrow>
    control_step c good objs had x (x\<lparr>server := s', verdict := (verdict x)(k := None)\<rparr>)"
| other: "good s' \<Longrightarrow> objs s' = objs (server x) \<Longrightarrow> had s' = had (server x) \<Longrightarrow>
    control_step c good objs had x (x\<lparr>server := s'\<rparr>)"
| evaluate_read: "p \<in> had (server x) k \<Longrightarrow>
    control_step c good objs had x (x\<lparr>evaluating := (evaluating x)(k \<mapsto> p)\<rparr>)"
| evaluate_write: "evaluating x k = Some p \<Longrightarrow> kStatusUpdate c (server x) (evaluated now p) = (r, s', p') \<Longrightarrow>
    control_step c good objs had x (x\<lparr>server := s',
      verdict := (if r = None then (verdict x)(k \<mapsto> Spec p) else verdict x),
      evaluating := (evaluating x)(k := None)\<rparr>)"
| enforce_read: "p \<in> had (server x) k \<Longrightarrow> Phase (Status p) \<noteq> PolicyPhaseError \<Longrightarrow>
    control_step c good objs had x (x\<lparr>enforcing := (enforcing x)(k \<mapsto> p)\<rparr>)"
| enforce_write: "enforcing x k = Some p \<Longrightarrow> kStatusUpdate c (server x) (costed now p cost) = (r, s', p') \<Longrightarrow>
    control_step c good objs had x (x\<lparr>server := s', enforcing := (enforcing x)(k := None)\<rparr>)"
| rollback_write: "old \<in> had (server x) k \<Longrightarrow> rolled_back now old target p \<Longrightarrow>
    kUpdate c (server x) p = (None, s', p') \<Longrightarrow>
    control_step c good objs had x (x\<lparr>server := s', rolling := insert p' (rolling x)\<rparr>)"
| rollback_status: "p \<in> rolling x \<Longrightarrow> kStatusUpdate c (server x) p = (r, s', p') \<Longrightarrow>
    control_step c good objs had x (x\<lparr>server := s', rolling := rolling x - {p}\<rparr>)"

definition phases :: "string set" where
  "phases = {[], PolicyPhaseActive, PolicyPhaseError, PolicyPhaseRolledBack}"

text \<open>The start: nothing is in flight, nothing has been evaluated.\<close>

definition initial ::
    "('s \<Rightarrow> bool) \<Rightarrow> ('s \<Rightarrow> string \<times> string \<Rightarrow> 'f FinancialPolicy set) \<Rightarrow> ('s, 'f) system \<Rightarrow> bool" where
  "initial good had x \<longleftrightarrow> good (server x) \<and> evaluating x = Map.empty \<and> enforcing x = Map.empty \<and> rolling x = {} \<and>
     verdict x = Map.empty \<and> (\<forall>k. \<forall>p\<in>had (server x) k. Phase (Status p) \<in> phases)"

inductive reachable ::
    "('s, 'f::{zero,one,plus,minus,times,inverse,ord,scaleR}) Client \<Rightarrow> ('s \<Rightarrow> bool) \<Rightarrow>
     ('s \<Rightarrow> (string \<times> string \<rightharpoonup> 'f FinancialPolicy)) \<Rightarrow> ('s \<Rightarrow> string \<times> string \<Rightarrow> 'f FinancialPolicy set) \<Rightarrow>
     ('s, 'f) system \<Rightarrow> bool"
  for c good objs had
where
  start: "initial good had x \<Longrightarrow> reachable c good objs had x"
| step: "reachable c good objs had x \<Longrightarrow> control_step c good objs had x y \<Longrightarrow> reachable c good objs had y"

section \<open>The invariant\<close>

definition verdict_phase :: "'f::{ord,zero,scaleR,one} FinancialPolicySpec \<Rightarrow> string" where
  "verdict_phase spec = (if valid_spec spec then PolicyPhaseActive else PolicyPhaseError)"

text \<open>The answer of a rollback's update: the version that was stored, its empty phase replaced.\<close>

definition awaits :: "'f FinancialPolicy set \<Rightarrow> 'f FinancialPolicy \<Rightarrow> bool" where
  "awaits H p \<longleftrightarrow> (\<exists>q\<in>H. ResourceVersion p = ResourceVersion q \<and>
     Phase (Status p) = (if Phase (Status q) = [] then PolicyPhaseRolledBack else Phase (Status q)))"

text \<open>
  What is in flight is a version there has been; a stored policy that has been evaluated has the phase
  of the specification that was evaluated last.
\<close>

definition controlled ::
    "('s \<Rightarrow> bool) \<Rightarrow> ('s \<Rightarrow> (string \<times> string \<rightharpoonup> 'f FinancialPolicy)) \<Rightarrow>
     ('s \<Rightarrow> string \<times> string \<Rightarrow> 'f::{ord,zero,scaleR,one} FinancialPolicy set) \<Rightarrow> ('s, 'f) system \<Rightarrow> bool" where
  "controlled good objs had x \<longleftrightarrow>
     good (server x) \<and>
     (\<forall>k p. evaluating x k = Some p \<longrightarrow> p \<in> had (server x) k) \<and>
     (\<forall>k p. enforcing x k = Some p \<longrightarrow> p \<in> had (server x) k \<and> Phase (Status p) \<noteq> PolicyPhaseError) \<and>
     (\<forall>p\<in>rolling x. awaits (had (server x) (key p)) p) \<and>
     (\<forall>k p spec. objs (server x) k = Some p \<longrightarrow> verdict x k = Some spec \<longrightarrow> Phase (Status p) = verdict_phase spec) \<and>
     (\<forall>k. verdict x k \<noteq> None \<longrightarrow> objs (server x) k \<noteq> None) \<and>
     (\<forall>k. \<forall>p\<in>had (server x) k. Phase (Status p) \<in> phases)"

lemma verdict_phase_simps [simp]: "verdict_phase spec \<in> phases" "verdict_phase spec \<noteq> []"
  by (simp_all add: verdict_phase_def phases_def policy_constants)

lemma evaluated_phase: "Phase (Status (evaluated now p)) = verdict_phase (Spec p)"
  using evaluated_tells [of p now] by (simp add: status_tells_def verdict_phase_def)

lemma costed_simps [simp]:
  "Phase (Status (costed now p cost)) = Phase (Status p)" "key (costed now p cost) = key p"
  "ResourceVersion (costed now p cost) = ResourceVersion p"
  by (simp_all add: costed_def key_def)

lemma evaluated_version [simp]: "ResourceVersion (evaluated now p) = ResourceVersion p"
  by (simp add: evaluated_def setCondition_def Let_def)

lemma rolled_back_simps:
  assumes "rolled_back now old target p"
  shows "key p = key old" "ResourceVersion p = ResourceVersion old" "Phase (Status p) = PolicyPhaseRolledBack"
proof -
  obtain policy1 where 1: "appendVersionHistory now old = Inr policy1"
    and p: "p = set_phase PolicyPhaseRolledBack
      (set_version (int64 (Version (Spec policy1) + 1)) (policy1\<lparr>Spec := target\<rparr>))"
    using assms by (auto simp: rolled_back_def)
  obtain ann where "policy1 = old\<lparr>Annotations := Some ann\<rparr>" using append_body [OF 1] by blast
  then show "key p = key old" "ResourceVersion p = ResourceVersion old" "Phase (Status p) = PolicyPhaseRolledBack"
    by (simp_all add: p set_phase_def set_version_def key_def)
qed

text \<open>A change of the server, and of the verdicts, that keeps the invariant.\<close>

lemma controlled_server:
  assumes "controlled good objs had x" "good s'"
    and "\<And>k. had s' k = had (server x) k \<union> {q. objs s' k = Some q}"
    and "\<And>k q. objs s' k = Some q \<Longrightarrow> Phase (Status q) \<in> phases"
    and "\<And>k q spec. objs s' k = Some q \<Longrightarrow> v k = Some spec \<Longrightarrow> Phase (Status q) = verdict_phase spec"
    and "\<And>k. v k \<noteq> None \<Longrightarrow> objs s' k \<noteq> None"
  shows "controlled good objs had (x\<lparr>server := s', verdict := v\<rparr>)"
proof -
  have grow: "had (server x) k \<subseteq> had s' k" for k using assms(3) by blast
  have "\<forall>p\<in>rolling x. awaits (had s' (key p)) p"
    using assms(1) grow unfolding controlled_def awaits_def by blast
  moreover have "\<forall>k. \<forall>p\<in>had s' k. Phase (Status p) \<in> phases"
    using assms(1,4) unfolding controlled_def assms(3) by blast
  moreover have "\<forall>k p. evaluating x k = Some p \<longrightarrow> p \<in> had s' k"
    "\<forall>k p. enforcing x k = Some p \<longrightarrow> p \<in> had s' k \<and> Phase (Status p) \<noteq> PolicyPhaseError"
    using assms(1) grow unfolding controlled_def by blast+
  ultimately show ?thesis using assms(2,5,6) by (simp add: controlled_def)
qed

lemma controlledD:
  assumes "controlled good objs had x"
  shows "good (server x)"
    and "evaluating x k = Some p \<Longrightarrow> p \<in> had (server x) k"
    and "enforcing x k = Some p \<Longrightarrow> p \<in> had (server x) k"
    and "enforcing x k = Some p \<Longrightarrow> Phase (Status p) \<noteq> PolicyPhaseError"
    and "p \<in> rolling x \<Longrightarrow> awaits (had (server x) (key p)) p"
    and "verdict x k \<noteq> None \<Longrightarrow> objs (server x) k \<noteq> None"
    and "p \<in> had (server x) k \<Longrightarrow> Phase (Status p) \<in> phases"
  using assms unfolding controlled_def by blast+

lemma controlled_in_flight:
  assumes "controlled good objs had x"
  shows "controlled good objs had (x\<lparr>evaluating := (evaluating x)(k := None)\<rparr>)"
    and "controlled good objs had (x\<lparr>enforcing := (enforcing x)(k := None)\<rparr>)"
    and "controlled good objs had (x\<lparr>rolling := rolling x - {p}\<rparr>)"
    and "p \<in> had (server x) k \<Longrightarrow> controlled good objs had (x\<lparr>evaluating := (evaluating x)(k \<mapsto> p)\<rparr>)"
    and "p \<in> had (server x) k \<Longrightarrow> Phase (Status p) \<noteq> PolicyPhaseError \<Longrightarrow>
      controlled good objs had (x\<lparr>enforcing := (enforcing x)(k \<mapsto> p)\<rparr>)"
    and "awaits (had (server x) (key p)) p \<Longrightarrow>
      controlled good objs had (x\<lparr>rolling := insert p (rolling x)\<rparr>)"
  using assms unfolding controlled_def by auto

context versioned_api
begin

lemma controlled_stored:
  assumes "controlled wf objs had x" "objs (server x) k = Some p"
  shows "wf (server x)" "Phase (Status p) \<in> phases"
    "verdict x k = Some spec \<Longrightarrow> Phase (Status p) = verdict_phase spec"
  using assms had_now [of "server x" k p] unfolding controlled_def by blast+

text \<open>A write changes no object, or one.\<close>

lemma controlled_same:
  assumes x: "controlled wf objs had x" and "wf s'" "objs s' = objs (server x)"
    and had: "\<And>k. had s' k = had (server x) k \<union> {q. objs s' k = Some q}"
  shows "controlled wf objs had (x\<lparr>server := s'\<rparr>)"
proof -
  have "controlled wf objs had (x\<lparr>server := s', verdict := verdict x\<rparr>)"
  proof (rule controlled_server [OF x \<open>wf s'\<close> had])
    show "verdict x k \<noteq> None \<Longrightarrow> objs s' k \<noteq> None" for k
      using controlledD(6) [OF x] assms(3) by simp
  qed (use assms(3) controlled_stored [OF x] in simp_all)
  then show ?thesis by simp
qed

lemma controlled_put:
  assumes x: "controlled wf objs had x" and "wf s'" and put: "objs s' = (objs (server x))(j \<mapsto> n)"
    and had: "\<And>k. had s' k = had (server x) k \<union> {q. objs s' k = Some q}"
    and phase: "Phase (Status n) \<in> phases" "\<And>spec. v j = Some spec \<Longrightarrow> Phase (Status n) = verdict_phase spec"
    and v: "\<And>k. k \<noteq> j \<Longrightarrow> v k = verdict x k"
  shows "controlled wf objs had (x\<lparr>server := s', verdict := v\<rparr>)"
proof (rule controlled_server [OF x \<open>wf s'\<close> had])
  fix k q spec assume k: "objs s' k = Some q"
  show "Phase (Status q) \<in> phases"
    using k put phase(1) controlled_stored(2) [OF x, of k q] by (cases "k = j") simp_all
  show "v k = Some spec \<Longrightarrow> Phase (Status q) = verdict_phase spec"
    using k put phase(2) v [of k] controlled_stored(3) [OF x, of k q] by (cases "k = j") simp_all
next
  fix k assume "v k \<noteq> None"
  then show "objs s' k \<noteq> None"
    using put v [of k] controlledD(6) [OF x, of k] by (cases "k = j") simp_all
qed

lemma status_update_controlled:
  assumes x: "controlled wf objs had x" and run: "kStatusUpdate c (server x) p = (r, s', p')"
    and q: "q \<in> had (server x) (key p)" "ResourceVersion p = ResourceVersion q"
    and phase: "Phase (Status p) \<in> phases"
    and told: "\<And>spec. r = None \<Longrightarrow> objs (server x) (key p) = Some q \<Longrightarrow> v (key p) = Some spec \<Longrightarrow>
      Phase (Status p) = verdict_phase spec"
    and v: "\<And>k. k \<noteq> key p \<Longrightarrow> v k = verdict x k" "r \<noteq> None \<Longrightarrow> v = verdict x"
  shows "controlled wf objs had (x\<lparr>server := s', verdict := v\<rparr>)"
proof -
  have wf: "wf (server x)" by (rule controlledD(1) [OF x])
  note had = had_status [OF wf run]
  show ?thesis
  proof (cases r)
    case None
    from status_of_read [OF wf run [unfolded None] q] obtain n where
      n: "objs (server x) (key p) = Some q" "wf s'" "Status n = Status p" "objs s' = (objs (server x))(key p \<mapsto> n)"
      by blast
    show ?thesis
      by (rule controlled_put [OF x n(2,4) had]) (use n(3) phase told [OF None n(1)] v(1) in simp_all)
  next
    case (Some e)
    with status_fails [OF wf run [unfolded Some]] v(2) controlled_same [OF x _ _ had] show ?thesis by simp
  qed
qed

text \<open>What any other write stores has the old status or none.\<close>

lemma update_controlled:
  assumes x: "controlled wf objs had x" and run: "kUpdate c (server x) p = (r, s', p')"
  shows "controlled wf objs had (x\<lparr>server := s'\<rparr>)"
proof -
  have wf: "wf (server x)" by (rule controlledD(1) [OF x])
  note had = had_update [OF wf run]
  show ?thesis
  proof (cases r)
    case None
    from update_ok [OF wf run [unfolded None]] obtain old n where
      n: "wf s'" "objs (server x) (key p) = Some old" "Status n = Status old" "objs s' = (objs (server x))(key p \<mapsto> n)"
      by blast
    have "controlled wf objs had (x\<lparr>server := s', verdict := verdict x\<rparr>)"
      by (rule controlled_put [OF x n(1,4) had]) (use n(3) controlled_stored [OF x n(2)] in simp_all)
    then show ?thesis by simp
  next
    case (Some e)
    with update_fails [OF wf run [unfolded Some]] controlled_same [OF x _ _ had] show ?thesis by simp
  qed
qed

lemma create_controlled:
  assumes x: "controlled wf objs had x" and run: "kCreate c (server x) p = (r, s', p')"
  shows "controlled wf objs had (x\<lparr>server := s'\<rparr>)"
proof -
  have wf: "wf (server x)" by (rule controlledD(1) [OF x])
  note had = had_create [OF wf run]
  show ?thesis
  proof (cases r)
    case None
    from create_ok [OF wf run [unfolded None]] obtain n where
      n: "wf s'" "objs (server x) (key p) = None" "objs s' = (objs (server x))(key p \<mapsto> n)" by blast
    have "Phase (Status n) = []" using create_phase [OF wf run [unfolded None]] n(3) by simp
    moreover have "verdict x (key p) = None"
      using controlledD(6) [OF x, of "key p"] n(2) by (cases "verdict x (key p)") simp_all
    ultimately have "controlled wf objs had (x\<lparr>server := s', verdict := verdict x\<rparr>)"
      by (intro controlled_put [OF x n(1,3) had]) (simp_all add: phases_def)
    then show ?thesis by simp
  next
    case (Some e)
    with create_fails [OF wf run [unfolded Some]] controlled_same [OF x _ _ had] show ?thesis by simp
  qed
qed


lemma step_controlled:
  assumes "control_step c wf objs had x y" and x: "controlled wf objs had x"
  shows "controlled wf objs had y"
  using assms(1)
proof cases
  case (create p r s' p')
  then show ?thesis using create_controlled [OF x] by simp
next
  case (update p r s' p')
  then show ?thesis using update_controlled [OF x] by simp
next
  case (delete s' k)
  show ?thesis unfolding delete(1)
  proof (rule controlled_server [OF x delete(2)])
    show "had s' j = had (server x) j \<union> {q. objs s' j = Some q}" for j
      using had_now [OF delete(2), of j] delete(4) by auto
  next
    fix j q assume "objs s' j = Some q"
    then have q: "j \<noteq> k" "objs (server x) j = Some q" using delete(3) by (auto split: if_splits)
    show "Phase (Status q) \<in> phases" by (rule controlled_stored(2) [OF x q(2)])
    show "((verdict x)(k := None)) j = Some spec \<Longrightarrow> Phase (Status q) = verdict_phase spec" for spec
      using controlled_stored(3) [OF x q(2)] q(1) by simp
  next
    fix j assume "((verdict x)(k := None)) j \<noteq> None"
    then have "j \<noteq> k" "verdict x j \<noteq> None" by (simp_all split: if_splits)
    then show "objs s' j \<noteq> None" using controlledD(6) [OF x, of j] delete(3) by simp
  qed
next
  case (other s')
  have "had s' j = had (server x) j \<union> {q. objs s' j = Some q}" for j
    using had_now [OF other(2), of j] other(4) by auto
  then show ?thesis unfolding other(1) by (rule controlled_same [OF x other(2,3)])
next
  case (evaluate_read p k)
  then show ?thesis using controlled_in_flight(4) [OF x] by simp
next
  case (evaluate_write k p now r s' p')
  have p: "p \<in> had (server x) k" "wf (server x)" using controlledD [OF x] evaluate_write(2) by blast+
  have k: "key p = k" using had_version [OF p(2,1)] by simp
  have "controlled wf objs had (x\<lparr>server := s', verdict := (if r = None then (verdict x)(k \<mapsto> Spec p) else verdict x)\<rparr>)"
    by (rule status_update_controlled [OF x evaluate_write(3), of p])
      (use p k in \<open>auto simp: evaluated_phase\<close>)
  from controlled_in_flight(1) [OF this, of k] show ?thesis by (simp add: evaluate_write(1))
next
  case (enforce_read p k)
  then show ?thesis using controlled_in_flight(5) [OF x] by simp
next
  case (enforce_write k p now cost r s' p')
  have p: "p \<in> had (server x) k" "wf (server x)" using controlledD [OF x] enforce_write(2) by blast+
  have k: "key p = k" using had_version [OF p(2,1)] by simp
  have "Phase (Status p) \<in> phases" by (rule controlledD(7) [OF x p(1)])
  then have "controlled wf objs had (x\<lparr>server := s', verdict := verdict x\<rparr>)"
    by (intro status_update_controlled [OF x enforce_write(3), of p])
      (use p k controlled_stored(3) [OF x] in auto)
  then have "controlled wf objs had (x\<lparr>server := s'\<rparr>)" by simp
  from controlled_in_flight(2) [OF this, of k] show ?thesis unfolding enforce_write(1) by simp
next
  case (rollback_write old k now target p s' p')
  have wf: "wf (server x)" by (rule controlledD(1) [OF x])
  from update_ok [OF wf rollback_write(4)] obtain q where
    q: "objs s' (key p) = Some q" "same_body p p'" by auto
  have "awaits (had s' (key p')) p'"
    using q had_update [OF wf rollback_write(4), of "key p"] update_answers [OF wf rollback_write(4) q(1)]
      rolled_back_simps(3) [OF rollback_write(3)] by (auto simp: awaits_def same_body_def)
  then show ?thesis
    using controlled_in_flight(6) [OF update_controlled [OF x rollback_write(4)], of p'] by (simp add: rollback_write(1))
next
  case (rollback_status p r s' p')
  have "awaits (had (server x) (key p)) p" by (rule controlledD(5) [OF x rollback_status(2)])
  then obtain q where q: "q \<in> had (server x) (key p)" "ResourceVersion p = ResourceVersion q"
    "Phase (Status p) = (if Phase (Status q) = [] then PolicyPhaseRolledBack else Phase (Status q))"
    by (auto simp: awaits_def)
  have "Phase (Status q) \<in> phases" by (rule controlledD(7) [OF x q(1)])
  then have "Phase (Status p) \<in> phases" by (auto simp: q(3) phases_def)
  then have "controlled wf objs had (x\<lparr>server := s', verdict := verdict x\<rparr>)"
    by (intro status_update_controlled [OF x rollback_status(3) q(1,2)])
      (use q(3) controlled_stored(3) [OF x, of "key p" q] in auto)
  then have "controlled wf objs had (x\<lparr>server := s'\<rparr>)" by simp
  from controlled_in_flight(3) [OF this, of p] show ?thesis unfolding rollback_status(1) by simp
qed

lemma reachable_controlled: "reachable c wf objs had x \<Longrightarrow> controlled wf objs had x"
proof (induction rule: reachable.induct)
  case (start x)
  then have "p \<in> had (server x) k \<Longrightarrow> Phase (Status p) \<in> phases" for p k
    unfolding initial_def by blast
  with start show ?case by (simp add: initial_def controlled_def)
next
  case (step x y)
  then show ?case using step_controlled by blast
qed


section \<open>The handlers\<close>

text \<open>
  Run without interruption, the handlers of the program are sequences of the steps.
\<close>

lemma policy_reconcile_steps:
  assumes x: "reachable c wf objs had x" and run: "Policy_Controller.Reconcile c now (server x) k = (r, s')"
  shows "\<exists>y. reachable c wf objs had y \<and> server y = s'"
proof (cases "kGet c (server x) (fst k) (snd k)")
  case (Inl err)
  with x run show ?thesis by (auto simp: Policy_Controller.Reconcile_def split: if_splits)
next
  case (Inr p)
  have wf: "wf (server x)" by (rule controlledD(1) [OF reachable_controlled [OF x]])
  have "p \<in> had (server x) k" using get_found [OF wf Inr] had_now [OF wf] by simp
  from reachable.step [OF x control_step.evaluate_read [where had = had and x = x and k = k and p = p, OF this]]
  have y: "reachable c wf objs had (x\<lparr>evaluating := (evaluating x)(k \<mapsto> p)\<rparr>)" .
  obtain r1 s1 p1 where upd: "kStatusUpdate c (server x) (evaluated now p) = (r1, s1, p1)" by (metis prod_cases3)
  have "s1 = s'" using run Inr upd by (auto simp: Policy_Controller.Reconcile_def split: option.splits)
  moreover from reachable.step [OF y control_step.evaluate_write [where now = now and r = r1 and s' = s1 and p' = p1 and k = k and p = p]] upd
  obtain z where "reachable c wf objs had z" "server z = s1" by auto
  ultimately show ?thesis by blast
qed

lemma orchestrator_reconcile_steps:
  assumes x: "reachable c wf objs had x" and r: "oc_Client r = c" "keeps (\<lambda>s. (wf s, objs s, had s)) r"
    and run: "Orchestrator.Reconcile r zone now (server x) k = (res, s')"
  shows "\<exists>y. reachable c wf objs had y \<and> server y = s'"
proof (cases "\<exists>fp store records. kGet c (server x) (fst k) (snd k) = Inr fp \<and>
    Phase (Status fp) \<noteq> PolicyPhaseError \<and> oc_CostStore r = Some store \<and>
    store (startOfMonth zone now) now (TargetNamespace (Spec fp)) (server x) = Inr records")
  case False
  then have "s' = server x"
    using run r(1) by (auto simp: Orchestrator.Reconcile_def split: sum.splits if_splits option.splits)
  with x show ?thesis by blast
next
  case True
  then obtain fp store records where fp: "kGet (oc_Client r) (server x) (fst k) (snd k) = Inr fp"
    "Phase (Status fp) \<noteq> PolicyPhaseError" "oc_CostStore r = Some store"
    "store (startOfMonth zone now) now (TargetNamespace (Spec fp)) (server x) = Inr records"
    unfolding r(1) by blast
  have wf: "wf (server x)" by (rule controlledD(1) [OF reachable_controlled [OF x]])
  have "fp \<in> had (server x) k" using get_found [OF wf, of "fst k" "snd k" fp] fp(1) had_now [OF wf] r(1) by simp
  from reachable.step [OF x control_step.enforce_read [where had = had and x = x and k = k and p = fp, OF this fp(2)]]
  have y: "reachable c wf objs had (x\<lparr>enforcing := (enforcing x)(k \<mapsto> fp)\<rparr>)" .
  define s3 where "s3 = audit_phase r now fp (month_cost records)
    (mode_phase r now fp (breach_phase r now fp (month_cost records) (server x)))"
  have "wf s3" "objs s3 = objs (server x)" "had s3 = had (server x)"
    unfolding s3_def using keeps_phases [OF r(2)] wf by simp_all
  then have z: "reachable c wf objs had (x\<lparr>enforcing := (enforcing x)(k \<mapsto> fp), server := s3\<rparr>)"
    using reachable.step [OF y control_step.other, of s3] by simp
  obtain e s4 p' where upd: "kStatusUpdate c s3 (costed now fp (month_cost records)) = (e, s4, p')"
    by (metis prod_cases3)
  have "s4 = s'" using run upd r(1) by (simp add: Reconcile_phases [OF fp] s3_def split: option.splits)
  moreover from reachable.step [OF z control_step.enforce_write [where now = now and cost = "month_cost records" and r = e and s' = s4 and p' = p' and k = k and p = fp]] upd
  obtain z' where "reachable c wf objs had z'" "server z' = s4" by auto
  ultimately show ?thesis by blast
qed

lemma apply_steps:
  assumes x: "reachable c wf objs had x" and run: "ApplyPolicy c now (server x) p = (r, s', p')"
  shows "\<exists>y. reachable c wf objs had y \<and> server y = s'"
proof -
  have "s' = server x \<or> (\<exists>q r' p''. kCreate c (server x) q = (r', s', p'') \<or> kUpdate c (server x) q = (r', s', p''))"
    using run by (auto simp: ApplyPolicy_def Let_def split: if_splits sum.splits prod.splits option.splits)
  then show ?thesis
  proof (elim disjE exE)
    fix q r' p'' assume "kCreate c (server x) q = (r', s', p'')"
    from reachable.step [OF x control_step.create [OF this]] show ?thesis by fastforce
  next
    fix q r' p'' assume "kUpdate c (server x) q = (r', s', p'')"
    from reachable.step [OF x control_step.update [OF this]] show ?thesis by fastforce
  qed (use x in blast)
qed

lemma rollback_steps:
  assumes x: "reachable c wf objs had x" and run: "RollbackPolicy c now (server x) name v = (r, s')"
  shows "\<exists>y. reachable c wf objs had y \<and> server y = s'"
proof (cases "s' = server x")
  case False
  have wf: "wf (server x)" by (rule controlledD(1) [OF reachable_controlled [OF x]])
  from run False obtain old h t policy1 where
    old: "findPolicyByName c (server x) name = Inr old" and h: "parseVersionHistory old = Inr h"
    and t: "find (\<lambda>x. pv_Version x = v) h = Some t" and app: "appendVersionHistory now old = Inr policy1"
    by (auto simp: RollbackPolicy_def split: sum.splits option.splits)
  define p where "p = set_phase PolicyPhaseRolledBack
    (set_version (int64 (Version (Spec policy1) + 1)) (policy1\<lparr>Spec := pv_Spec t\<rparr>))"
  have rb: "rolled_back now old (pv_Spec t) p" using app by (auto simp: rolled_back_def p_def)
  obtain ps where "kList c (server x) None = Inr ps" "old \<in> set ps" using find_by_name [OF old] by blast
  then have had: "old \<in> had (server x) (key old)" by (rule had_now [OF wf list_member [OF wf]])
  obtain r1 s1 p1 where upd: "kUpdate c (server x) p = (r1, s1, p1)" by (metis prod_cases3)
  show ?thesis
  proof (cases r1)
    case (Some e)
    then have "s' = s1" using run upd by (simp add: RollbackPolicy_def old h t app p_def Let_def)
    with reachable.step [OF x control_step.update [OF upd]] show ?thesis by fastforce
  next
    case None
    from reachable.step [OF x control_step.rollback_write [where had = had and x = x and k = "key old" and old = old, OF had rb upd [unfolded None]]]
    have y: "reachable c wf objs had (x\<lparr>server := s1, rolling := insert p1 (rolling x)\<rparr>)" .
    obtain r2 s2 p2 where st: "kStatusUpdate c s1 p1 = (r2, s2, p2)" by (metis prod_cases3)
    have "s' = s2" using run upd st None by (simp add: RollbackPolicy_def old h t app p_def Let_def split: option.splits)
    moreover from reachable.step [OF y control_step.rollback_status [where p = p1 and r = r2 and s' = s2 and p' = p2]] st
    obtain z where "reachable c wf objs had z" "server z = s2" by auto
    ultimately show ?thesis by blast
  qed
qed (use x in blast)

text \<open>What a status update of either controller says when it succeeds.\<close>

lemma evaluation_told:
  assumes x: "controlled wf objs had x"
    and "evaluating x k = Some q" "kStatusUpdate c (server x) (evaluated now q) = (None, s', q')"
  shows "\<exists>p'. objs s' k = Some p' \<and> Spec p' = Spec q \<and> status_tells (Spec p') (Status p')"
proof -
  have q: "wf (server x)" "q \<in> had (server x) k" using controlledD [OF x] assms(2) by blast+
  have k: "key q = k" using had_version [OF q] by simp
  from status_of_read [OF q(1) assms(3), of q] q(2) k obtain n where
    "same_body q n" "Status n = Status (evaluated now q)" "objs s' = (objs (server x))(k \<mapsto> n)" by auto
  then show ?thesis using evaluated_tells [of q now] by (auto simp: same_body_def)
qed

lemma enforced_valid:
  assumes x: "controlled wf objs had x" and "enforcing x k = Some q"
    and "kStatusUpdate c (server x) (costed now q cost) = (None, s', q')" "verdict x k = Some spec"
  shows "valid_spec spec"
proof -
  have q: "wf (server x)" "q \<in> had (server x) k" "Phase (Status q) \<noteq> PolicyPhaseError"
    using controlledD [OF x] assms(2) by blast+
  have k: "key q = k" using had_version [OF q(1,2)] by simp
  from status_of_read [OF q(1) assms(3), of q] q(2) k have "objs (server x) k = Some q" by simp
  from controlled_stored(3) [OF x this assms(4)] q(3) show ?thesis
    by (simp add: verdict_phase_def split: if_splits)
qed

end

text \<open>The state of the server after one call of a handler of the program.\<close>

inductive handled ::
    "('s, 'f::{zero,one,plus,minus,times,inverse,ord,scaleR}) Client \<Rightarrow> (('s, 'f) OrchestratorReconciler \<Rightarrow> bool) \<Rightarrow>
     's \<Rightarrow> 's \<Rightarrow> bool"
  for c component
where
  "Policy_Controller.Reconcile c now s k = (r, s') \<Longrightarrow> handled c component s s'"
| "oc_Client oc = c \<Longrightarrow> component oc \<Longrightarrow> Orchestrator.Reconcile oc zone now s k = (res, s') \<Longrightarrow>
    handled c component s s'"
| "ApplyPolicy c now s p = (e, s', p') \<Longrightarrow> handled c component s s'"
| "RollbackPolicy c now s name v = (e, s') \<Longrightarrow> handled c component s s'"

section \<open>Properties\<close>

text \<open>C11: the steps are those of the program: whatever the two reconcilers, \<^verbatim>\<open>ApplyPolicy\<close> and
  \<^verbatim>\<open>RollbackPolicy\<close> make of a reachable server, called one after the other, is reachable by the
  steps into which they are taken apart here; the orchestrator's components only have to
  leave the policies alone.\<close>

theorem handlers_take_steps:
  assumes "versioned_api c good objs had" "reachable c good objs had x"
    and "handled c (keeps (\<lambda>s. (good s, objs s, had s))) (server x) s'"
  shows "\<exists>y. reachable c good objs had y \<and> server y = s'"
  using assms(3)
proof cases
  case (1 now k r)
  then show ?thesis by (rule versioned_api.policy_reconcile_steps [OF assms(1,2)])
next
  case (2 oc zone now k res)
  then show ?thesis by (rule versioned_api.orchestrator_reconcile_steps [OF assms(1,2)])
next
  case (3 now p e p')
  then show ?thesis by (rule versioned_api.apply_steps [OF assms(1,2)])
next
  case (4 now name v e)
  then show ?thesis by (rule versioned_api.rollback_steps [OF assms(1,2)])
qed

text \<open>C6: in every interleaving of the controllers, of applications, rollbacks, edits and deletions, with
  reads that lag behind: once a policy has been evaluated, its phase tells whether the
  specification that was evaluated last is valid, and no costs, rollback or edit overwrite it; a
  verdict that is stored is one about the specification it is stored with; and when the orchestrator
  succeeds in writing costs to an evaluated policy, the specification evaluated last was
  valid.\<close>

theorem controllers_agree:
  assumes "versioned_api c good objs had" "reachable c good objs had x"
  shows "(objs (server x) k = Some p \<and> verdict x k = Some spec \<longrightarrow>
      Phase (Status p) = (if valid_spec spec then PolicyPhaseActive else PolicyPhaseError)) \<and>
    (evaluating x k = Some q \<and> kStatusUpdate c (server x) (evaluated now q) = (None, s', q') \<longrightarrow>
      (\<exists>p'. objs s' k = Some p' \<and> Spec p' = Spec q \<and> status_tells (Spec p') (Status p'))) \<and>
    (enforcing x k = Some q \<and> kStatusUpdate c (server x) (costed now q cost) = (None, s', q') \<and>
       verdict x k = Some spec \<longrightarrow> valid_spec spec)"
proof -
  note x = versioned_api.reachable_controlled [OF assms]
  show ?thesis
    using versioned_api.controlled_stored(3) [OF assms(1) x] versioned_api.evaluation_told [OF assms(1) x]
      versioned_api.enforced_valid [OF assms(1) x]
    unfolding verdict_phase_def by blast
qed

text \<open>C12: every phase a policy ever has is one the resource definition lists, or empty before the first
  evaluation; \<^verbatim>\<open>Validating\<close> never occurs.\<close>

theorem phases_listed:
  assumes "versioned_api c good objs had" "reachable c good objs had x" "objs (server x) k = Some p"
  shows "Phase (Status p) \<in> {[], PolicyPhaseActive, PolicyPhaseError, PolicyPhaseRolledBack}"
  using versioned_api.controlled_stored(2) [OF assms(1) versioned_api.reachable_controlled [OF assms(1,2)] assms(3)]
  by (simp add: phases_def)

subsection \<open>The properties at work\<close>

text \<open>A policy that is not valid, evaluated by the policy controller.\<close>

definition stored_bad :: "f64 FinancialPolicy" where
  "stored_bad = demo_bad\<lparr>ResourceVersion := ''0''\<rparr>"

definition demo_start :: "(f64 past_server, f64) system" where
  "demo_start = \<lparr>server = (\<lparr>stored = [stored_bad], revision = 1\<rparr>, [stored_bad]), evaluating = Map.empty,
     enforcing = Map.empty, rolling = {}, verdict = Map.empty\<rparr>"

lemma demo_key: "key stored_bad = (''p'', ''n'')"
  by (simp add: stored_bad_def demo_bad_def key_def)

lemma demo_stored: "past_objs (server demo_start) (''p'', ''n'') = Some stored_bad"
  by (simp add: past_objs_def mem_objs_def demo_start_def demo_key)

lemma demo_reachable: "reachable past_client past_wf past_objs past_had demo_start"
proof (rule reachable.start)
  have "itoa (int 0) = ''0''" by code_simp
  then have "past_wf (server demo_start)"
    by (auto simp: past_wf_def demo_start_def mem_wf_def stored_bad_def intro!: exI [of _ 0])
  moreover have "Phase (Status stored_bad) \<in> phases" by (simp add: stored_bad_def demo_bad_def phases_def)
  ultimately show "initial past_wf past_had demo_start"
    by (auto simp: initial_def demo_start_def past_had_def)
qed

lemma demo_write:
  "\<exists>s' p'. kStatusUpdate past_client (server demo_start) (evaluated 9 stored_bad) = (None, s', p')"
  using demo_stored
  by (simp add: past_client_def remember_def mem_status_update_def past_objs_def demo_key Let_def split: prod.split)

lemma demo_evaluated:
  "\<exists>x p. reachable past_client past_wf past_objs past_had x \<and> verdict x (''p'', ''n'') = Some (Spec stored_bad) \<and>
     past_objs (server x) (''p'', ''n'') = Some p"
proof -
  have had: "stored_bad \<in> past_had (server demo_start) (''p'', ''n'')"
    by (simp add: past_had_def demo_start_def demo_key)
  define x where "x = demo_start\<lparr>evaluating := (evaluating demo_start)((''p'', ''n'') \<mapsto> stored_bad)\<rparr>"
  have "reachable past_client past_wf past_objs past_had x"
    unfolding x_def by (rule reachable.step [OF demo_reachable control_step.evaluate_read
        [where had = past_had and x = demo_start and k = "(''p'', ''n'')", OF had]])
  moreover obtain s' p' where upd: "kStatusUpdate past_client (server x) (evaluated 9 stored_bad) = (None, s', p')"
    using demo_write by (auto simp: x_def)
  moreover have "evaluating x (''p'', ''n'') = Some stored_bad" by (simp add: x_def)
  ultimately have y: "reachable past_client past_wf past_objs past_had (x\<lparr>server := s',
      verdict := (verdict x)((''p'', ''n'') \<mapsto> Spec stored_bad), evaluating := (evaluating x)((''p'', ''n'') := None)\<rparr>)"
    using reachable.step [OF _ control_step.evaluate_write [where k = "(''p'', ''n'')" and p = stored_bad and now = 9
        and r = None and x = x and c = past_client and s' = s' and p' = p'
        and good = past_wf and objs = past_objs and had = past_had]] by simp
  from controlledD(6) [OF past_versions.reachable_controlled [OF y], of "(''p'', ''n'')"] y
  show ?thesis by fastforce
qed

theorem controllers_agree_witness:
  "\<exists>(x :: (f64 past_server, f64) system) p. reachable past_client past_wf past_objs past_had x \<and>
     past_objs (server x) (''p'', ''n'') = Some p \<and> Phase (Status p) = PolicyPhaseError"
proof -
  obtain x p where x: "reachable past_client past_wf past_objs past_had x"
    "verdict x (''p'', ''n'') = Some (Spec stored_bad)" "past_objs (server x) (''p'', ''n'') = Some p"
    using demo_evaluated by blast
  have "\<not> valid_spec (Spec stored_bad)" by (simp add: valid_spec_def stored_bad_def demo_bad_def)
  with controllers_agree [OF past_versions.versioned_api_axioms x(1), of "(''p'', ''n'')" p "Spec stored_bad"] x(2,3)
  have "Phase (Status p) = PolicyPhaseError" by simp
  with x show ?thesis by blast
qed

theorem phases_listed_witness:
  "Phase (Status stored_bad) \<in> {[], PolicyPhaseActive, PolicyPhaseError, PolicyPhaseRolledBack}"
  by (rule phases_listed [OF past_versions.versioned_api_axioms demo_reachable demo_stored])

theorem handlers_take_steps_witness:
  "\<exists>s' y. Policy_Controller.Reconcile past_client 9 (server demo_start) (''p'', ''n'') = (None, s') \<and>
     reachable past_client past_wf past_objs past_had y \<and> server y = s'"
proof -
  obtain s' p' where upd: "kStatusUpdate past_client (server demo_start) (evaluated 9 stored_bad) = (None, s', p')"
    using demo_write by blast
  have "kGet past_client (server demo_start) ''p'' ''n'' = Inr stored_bad"
    using demo_stored by (simp add: past_client_def past_objs_def)
  then have run: "Policy_Controller.Reconcile past_client 9 (server demo_start) (''p'', ''n'') = (None, s')"
    by (simp add: Policy_Controller.Reconcile_def upd)
  from handlers_take_steps [OF past_versions.versioned_api_axioms demo_reachable handled.intros(1) [OF run]] run
  show ?thesis by blast
qed

end
