(* ===== verification/Startup.thy ===== *)
theory Startup
  imports Orchestrator
begin

text \<open>
  \<^verbatim>\<open>main.go\<close>: the flags, the registration of the types (\<^verbatim>\<open>groupversion_info.go\<close> and the \<^verbatim>\<open>init\<close>
  functions of the types), and the start of the controller manager. Parsing of the command line is
  that of the package \<^verbatim>\<open>flag\<close>. The controller runtime and the schemes are parameters that act on
  the state of the process; the locale \<open>controller_runtime\<close> states what its documentation says of
  the names of controllers.
\<close>

section \<open>Flags\<close>

record flag_values =
  metricsAddr :: string
  probeAddr :: string
  enableLeaderElection :: bool

definition flag_defaults :: flag_values where
  "flag_defaults = \<lparr>metricsAddr = '':8080'', probeAddr = '':8081'', enableLeaderElection = False\<rparr>"

text \<open>
  The flags other packages register, those of \<^verbatim>\<open>zap\<close> and of the client configuration, are a parameter:
  whether a flag is boolean and which values it takes.
\<close>

type_synonym other_flags = "string \<Rightarrow> (bool \<times> (string \<Rightarrow> bool)) option"

definition ParseBool :: "string \<Rightarrow> bool option" where
  "ParseBool s =
     (if s \<in> set [''1'', ''t'', ''T'', ''true'', ''TRUE'', ''True''] then Some True
      else if s \<in> set [''0'', ''f'', ''F'', ''false'', ''FALSE'', ''False''] then Some False
      else None)"

text \<open>Whether a registered flag is boolean, and the assignment of a text to a flag.\<close>

definition formal :: "other_flags \<Rightarrow> string \<Rightarrow> bool option" where
  "formal other name =
     (if name = ''metrics-bind-address'' \<or> name = ''health-probe-bind-address'' then Some False
      else if name = ''leader-elect'' then Some True
      else map_option fst (other name))"

definition set_flag :: "other_flags \<Rightarrow> string \<Rightarrow> string \<Rightarrow> flag_values \<Rightarrow> flag_values option" where
  "set_flag other name arg v =
     (if name = ''metrics-bind-address'' then Some (v\<lparr>metricsAddr := arg\<rparr>)
      else if name = ''health-probe-bind-address'' then Some (v\<lparr>probeAddr := arg\<rparr>)
      else if name = ''leader-elect'' then map_option (\<lambda>b. v\<lparr>enableLeaderElection := b\<rparr>) (ParseBool arg)
      else (case other name of None \<Rightarrow> None | Some (_, ok) \<Rightarrow> if ok arg then Some v else None))"

text \<open>
  \<^verbatim>\<open>flag.Parse\<close> with \<^verbatim>\<open>ExitOnError\<close>: the exit status, 0 when help was asked for, or the values.
\<close>

fun parse_flags :: "other_flags \<Rightarrow> string list \<Rightarrow> flag_values \<Rightarrow> int + flag_values" where
  "parse_flags other [] v = Inr v"
| "parse_flags other (s # args) v =
     (if length s < 2 \<or> hd s \<noteq> CHR ''-'' \<or> s = ''--'' then Inr v
      else (let s' = drop (if s ! 1 = CHR ''-'' then 2 else 1) s in
        if s' = [] \<or> hd s' = CHR ''-'' \<or> hd s' = CHR ''='' then Inl 2
        else (let name = takeWhile (\<lambda>c. c \<noteq> CHR ''='') s'; hasValue = length name < length s';
                  arg = drop (length name + 1) s' in
          case formal other name of
            None \<Rightarrow> Inl (if name = ''help'' \<or> name = ''h'' then 0 else 2)
          | Some isBool \<Rightarrow>
              if isBool \<or> hasValue then
                (case set_flag other name (if hasValue then arg else ''true'') v of
                   None \<Rightarrow> Inl 2 | Some v' \<Rightarrow> parse_flags other args v')
              else (case args of [] \<Rightarrow> Inl 2
                | val # args' \<Rightarrow>
                    (case set_flag other name val v of None \<Rightarrow> Inl 2 | Some v' \<Rightarrow> parse_flags other args' v')))))"

section \<open>The types\<close>

definition GroupVersion :: "string \<times> string" where
  "GroupVersion = (''finops.eks.io'', ''v1alpha1'')"

text \<open>What the \<^verbatim>\<open>init\<close> functions register with the \<^verbatim>\<open>SchemeBuilder\<close>, in the order of their files.\<close>

definition costreport_init :: "string list" where
  "costreport_init = [''CostReport'', ''CostReportList'']"

definition financialpolicy_init :: "string list" where
  "financialpolicy_init = [''FinancialPolicy'', ''FinancialPolicyList'']"

definition optimizationaction_init :: "string list" where
  "optimizationaction_init = [''OptimizationAction'', ''OptimizationActionList'']"

definition registered_kinds :: "string list" where
  "registered_kinds = costreport_init @ financialpolicy_init @ optimizationaction_init"

section \<open>The controller runtime\<close>

record manager_options =
  mo_MetricsBindAddress :: string
  mo_HealthProbeBindAddress :: string
  mo_LeaderElection :: bool
  mo_LeaderElectionID :: string

datatype ('k, 'f) reconciler = RunsPolicies "('k, 'f) Client" | RunsOrchestrator "('k, 'f) OrchestratorReconciler"

record ('s, 'cfg, 'k, 'f) runtime =
  AddClientGoTypes :: "'s \<Rightarrow> go_error option \<times> 's"
  AddTypes :: "string \<times> string \<Rightarrow> string list \<Rightarrow> 's \<Rightarrow> go_error option \<times> 's"
  OtherFlags :: other_flags
  GetConfig :: "'s \<Rightarrow> 'cfg option"
  NewManager :: "'cfg \<Rightarrow> manager_options \<Rightarrow> 's \<Rightarrow> go_error option \<times> 's"
  GetClient :: "'s \<Rightarrow> ('k, 'f) Client"
  Complete :: "string \<Rightarrow> ('k, 'f) reconciler \<Rightarrow> 's \<Rightarrow> go_error option \<times> 's"
  AddHealthzCheck :: "string \<Rightarrow> 's \<Rightarrow> go_error option \<times> 's"
  AddReadyzCheck :: "string \<Rightarrow> 's \<Rightarrow> go_error option \<times> 's"
  Start :: "'s \<Rightarrow> go_error option \<times> 's"

text \<open>
  \<^verbatim>\<open>ctrl.NewControllerManagedBy(mgr).For(&FinancialPolicy{}).Complete(r)\<close>, without \<^verbatim>\<open>Named\<close>, of both
  reconcilers.
\<close>

definition PolicyReconciler_SetupWithManager ::
    "('s, 'cfg, 'k, 'f) runtime \<Rightarrow> ('k, 'f) Client \<Rightarrow> 's \<Rightarrow> go_error option \<times> 's" where
  "PolicyReconciler_SetupWithManager rt c s = Complete rt ''FinancialPolicy'' (RunsPolicies c) s"

definition OrchestratorReconciler_SetupWithManager ::
    "('s, 'cfg, 'k, 'f) runtime \<Rightarrow> ('k, 'f) OrchestratorReconciler \<Rightarrow> 's \<Rightarrow> go_error option \<times> 's" where
  "OrchestratorReconciler_SetupWithManager rt r s = Complete rt ''FinancialPolicy'' (RunsOrchestrator r) s"

section \<open>The program\<close>

datatype outcome = Panics | Exits int | Returns

text \<open>\<^verbatim>\<open>if err := step; err != nil { os.Exit(1) }\<close>, one step after the other.\<close>

primrec exit_on_error :: "('s \<Rightarrow> go_error option \<times> 's) list \<Rightarrow> 's \<Rightarrow> outcome \<times> 's" where
  "exit_on_error [] s = (Returns, s)"
| "exit_on_error (step # steps) s =
     (case step s of (Some err, s') \<Rightarrow> (Exits 1, s') | (None, s') \<Rightarrow> exit_on_error steps s')"

definition main_options :: "flag_values \<Rightarrow> manager_options" where
  "main_options v = \<lparr>mo_MetricsBindAddress = metricsAddr v, mo_HealthProbeBindAddress = probeAddr v,
     mo_LeaderElection = enableLeaderElection v,
     mo_LeaderElectionID = ''eks-financial-orchestrator.finops.eks.io''\<rparr>"

definition main_steps ::
    "('s, 'cfg, 'k, 'f) runtime \<Rightarrow> 'cfg \<Rightarrow> flag_values \<Rightarrow> ('s \<Rightarrow> go_error option \<times> 's) list" where
  "main_steps rt cfg v =
     [NewManager rt cfg (main_options v),
      \<lambda>s. PolicyReconciler_SetupWithManager rt (GetClient rt s) s,
      \<lambda>s. OrchestratorReconciler_SetupWithManager rt (main_reconciler (GetClient rt s)) s,
      AddHealthzCheck rt ''healthz'',
      AddReadyzCheck rt ''readyz'',
      Start rt]"

text \<open>The package's \<^verbatim>\<open>init\<close>, whose \<^verbatim>\<open>utilruntime.Must\<close> panics on an error, then \<^verbatim>\<open>main\<close>.\<close>

definition main_init :: "('s, 'cfg, 'k, 'f) runtime \<Rightarrow> 's \<Rightarrow> go_error option \<times> 's" where
  "main_init rt s =
     (case AddClientGoTypes rt s of (Some err, s') \<Rightarrow> (Some err, s')
      | (None, s') \<Rightarrow> AddTypes rt GroupVersion registered_kinds s')"

definition main :: "('s, 'cfg, 'k, 'f) runtime \<Rightarrow> string list \<Rightarrow> 's \<Rightarrow> outcome \<times> 's" where
  "main rt args s =
     (case main_init rt s of
        (Some err, s') \<Rightarrow> (Panics, s')
      | (None, s') \<Rightarrow>
          (case parse_flags (OtherFlags rt) args flag_defaults of
             Inl code \<Rightarrow> (Exits code, s')
           | Inr v \<Rightarrow>
               (case GetConfig rt s' of
                  None \<Rightarrow> (Exits 1, s')
                | Some cfg \<Rightarrow> exit_on_error (main_steps rt cfg v) s')))"

section \<open>Command lines\<close>

text \<open>A flag with its value, as one argument or as two, is read as its value; the rest is read after it.\<close>

lemma flag_name:
  "CHR ''='' \<notin> set name \<Longrightarrow> takeWhile (\<lambda>c. c \<noteq> CHR ''='') (name @ CHR ''='' # arg) = name"
  by (induction name) auto

lemma parse_one_argument:
  assumes "CHR ''='' \<notin> set name" "name \<noteq> []" "hd name \<noteq> CHR ''-''" "formal other name = Some b"
  shows "parse_flags other ((''--'' @ name @ CHR ''='' # arg) # args) v =
    (case set_flag other name arg v of None \<Rightarrow> Inl 2 | Some v' \<Rightarrow> parse_flags other args v')"
  using assms by (cases name) (auto simp: flag_name Let_def)

lemma parse_flags_all:
  "parse_flags other [''--metrics-bind-address='' @ m, ''--health-probe-bind-address='' @ p, ''--leader-elect''] v =
   Inr \<lparr>metricsAddr = m, probeAddr = p, enableLeaderElection = True\<rparr>"
  by (simp add: formal_def set_flag_def ParseBool_def Let_def)

section \<open>The names of the controllers\<close>

text \<open>
  A controller without a name is named after the kind it is for, and the names of the
  controllers of a process have to be different (controller-runtime 0.19 and later): \<^verbatim>\<open>Complete\<close>
  fails when the name is taken, and takes it otherwise.
\<close>

locale controller_runtime =
  fixes rt :: "('s, 'cfg, 'k, 'f) runtime"
    and default_name :: "string \<Rightarrow> string"
    and names :: "'s \<Rightarrow> string set"
  assumes complete_free: "Complete rt kind r s = (None, s') \<Longrightarrow> default_name kind \<notin> names s"
    and complete_takes: "Complete rt kind r s = (None, s') \<Longrightarrow> default_name kind \<in> names s'"
begin

lemma second_controller_fails:
  assumes "Complete rt kind r s = (None, s')"
  shows "\<exists>err s''. Complete rt kind r' s' = (Some err, s'')"
  using complete_takes [OF assms] complete_free [of kind r' s'] by (metis option.exhaust prod.exhaust)

lemma steps_stop:
  "\<exists>s'. exit_on_error (main_steps (rt\<lparr>Start := f\<rparr>) cfg v) s = (Exits 1, s') \<and>
     exit_on_error (main_steps rt cfg v) s = (Exits 1, s')"
proof (cases "NewManager rt cfg (main_options v) s")
  case new: (Pair e s1)
  show ?thesis
  proof (cases "Complete rt ''FinancialPolicy'' (RunsPolicies (GetClient rt s1)) s1")
    case first: (Pair e' s2)
    show ?thesis
    proof (cases e')
      case None
      with first obtain err s3
        where "Complete rt ''FinancialPolicy'' (RunsOrchestrator (main_reconciler (GetClient rt s2))) s2 = (Some err, s3)"
        using second_controller_fails by blast
      with new first None show ?thesis
        by (cases e) (simp_all add: main_steps_def PolicyReconciler_SetupWithManager_def
            OrchestratorReconciler_SetupWithManager_def)
    next
      case (Some err)
      with new first show ?thesis by (cases e) (simp_all add: main_steps_def PolicyReconciler_SetupWithManager_def)
    qed
  qed
qed

end

text \<open>C7: the program never starts its controllers. Both reconcilers are registered for
  \<^verbatim>\<open>FinancialPolicy\<close> without a name of their own, so the second registration fails: whatever
  the command line, the outcome does not depend on what starting the manager would do; the program
  panics when a type cannot be registered, ends with the status of the command line when that is not
  accepted or asks for help, and exits with status 1 otherwise.\<close>

theorem main_never_starts:
  assumes "controller_runtime rt default_name names"
  shows "main (rt\<lparr>Start := f\<rparr>) args s = main rt args s \<and>
    fst (main rt args s) =
      (if fst (main_init rt s) \<noteq> None then Panics
       else (case parse_flags (OtherFlags rt) args flag_defaults of Inl code \<Rightarrow> Exits code | Inr v \<Rightarrow> Exits 1))"
proof -
  have init: "main_init (rt\<lparr>Start := f\<rparr>) s = main_init rt s"
    by (simp add: main_init_def split: prod.split option.split)
  have stop: "exit_on_error (main_steps (rt\<lparr>Start := f\<rparr>) cfg v) s = exit_on_error (main_steps rt cfg v) s"
    "fst (exit_on_error (main_steps rt cfg v) s) = Exits 1" for cfg v s
    using controller_runtime.steps_stop [OF assms, of f cfg v s] by auto
  show ?thesis
    by (simp add: main_def init stop split: prod.split option.split sum.split)
qed

text \<open>A process that keeps the names of its controllers in a list.\<close>

definition mem_runtime :: "(string list, unit, f64 mem_server, f64) runtime" where
  "mem_runtime =
     \<lparr>AddClientGoTypes = (\<lambda>s. (None, s)), AddTypes = (\<lambda>gv ks s. (None, s)), OtherFlags = (\<lambda>name. None),
      GetConfig = (\<lambda>s. Some ()), NewManager = (\<lambda>cfg opts s. (None, s)), GetClient = (\<lambda>s. mem_client),
      Complete = (\<lambda>kind r s. if kind \<in> set s
        then (Some \<lparr>ge_ErrorCode = None, ge_HTTPStatusCode = None, ge_Error = ''already exists''\<rparr>, s)
        else (None, kind # s)),
      AddHealthzCheck = (\<lambda>name s. (None, s)), AddReadyzCheck = (\<lambda>name s. (None, s)),
      Start = (\<lambda>s. (None, s))\<rparr>"

interpretation mem_process: controller_runtime mem_runtime "\<lambda>kind. kind" set
  by unfold_locales (auto simp: mem_runtime_def split: if_splits)

theorem main_never_starts_witness:
  "main mem_runtime [''--leader-elect''] [] = (Exits 1, [''FinancialPolicy'']) \<and>
   fst (main mem_runtime [''--leader-elect''] []) = Exits 1"
proof
  show "fst (main mem_runtime [''--leader-elect''] []) = Exits 1"
    using main_never_starts [OF mem_process.controller_runtime_axioms, of "Start mem_runtime" "[''--leader-elect'']" "[]"]
    by (simp add: main_init_def mem_runtime_def formal_def set_flag_def ParseBool_def Let_def)
  show "main mem_runtime [''--leader-elect''] [] = (Exits 1, [''FinancialPolicy''])"
    by (simp add: main_def main_init_def main_steps_def mem_runtime_def formal_def set_flag_def ParseBool_def Let_def
        PolicyReconciler_SetupWithManager_def OrchestratorReconciler_SetupWithManager_def)
qed

end
