(* ===== verification/Forecast.thy ===== *)
theory Forecast
  imports Cost_Types Calendar Policy_Types
begin

text \<open>
  \<^verbatim>\<open>pkg/forecast\<close>: Holt-Winters smoothing of the daily costs, forecasts for 7, 14 and 30 days with
  bounds, the detection of weekly and monthly patterns, the comparison with the budgets and the
  scheduler. The definitions are polymorphic in the numbers and take the square root \<open>rt\<close> as an
  argument: \<open>math_sqrt\<close> for the code's floats, \<open>sqrt\<close> for exact arithmetic.
\<close>

section \<open>Holt-Winters smoothing\<close>

text \<open>\<^verbatim>\<open>for i := 0; i < k; i++ { s += g(i) }\<close>\<close>

definition index_sum :: "nat \<Rightarrow> (nat \<Rightarrow> 'f) \<Rightarrow> 'f::{zero,plus}" where
  "index_sum k g = fold (\<lambda>i s. s + g i) [0..<k] 0"

text \<open>One update with the value of day \<open>t\<close>; \<open>seasonal\<close> is the array of the seasonal factors.\<close>

definition smooth ::
    "'f list \<Rightarrow> nat \<Rightarrow> 'f \<Rightarrow> 'f \<Rightarrow> 'f \<Rightarrow> nat \<Rightarrow> 'f \<times> 'f \<times> 'f list \<Rightarrow>
     'f::{one,plus,minus,times} \<times> 'f \<times> 'f list" where
  "smooth data seasonLength alpha beta gamma t st =
     (case st of (prevLevel, trend, seasonal) \<Rightarrow>
      let val = data ! t;
          level = alpha * (val - seasonal ! (t - seasonLength)) + (1 - alpha) * (prevLevel + trend);
          trend' = beta * (level - prevLevel) + (1 - beta) * trend
      in (level, trend',
          seasonal[t := gamma * (val - level) + (1 - gamma) * seasonal ! (t - seasonLength)]))"

definition initial_state ::
    "'f list \<Rightarrow> nat \<Rightarrow> nat \<Rightarrow> 'f::{zero,one,plus,minus,inverse,scaleR} \<times> 'f \<times> 'f list" where
  "initial_state data seasonLength forecastDays =
     (let level = index_sum seasonLength (\<lambda>i. data ! i) / of_count (int seasonLength);
          trend = index_sum seasonLength (\<lambda>i. data ! (seasonLength + i) - data ! i) /
                    of_count (int (seasonLength * seasonLength));
          seasonal = map (\<lambda>i. data ! i - level) [0..<seasonLength] @
                     replicate (length data + forecastDays - seasonLength) 0
      in (level, trend, seasonal))"

definition holtWintersForecast ::
    "'f list \<Rightarrow> nat \<Rightarrow> 'f \<Rightarrow> 'f \<Rightarrow> 'f \<Rightarrow> nat \<Rightarrow> 'f::{zero,one,plus,minus,times,inverse,scaleR} list" where
  "holtWintersForecast data seasonLength alpha beta gamma forecastDays =
     (let n = length data in
      if n < 2 * seasonLength then replicate forecastDays 0
      else case fold (smooth data seasonLength alpha beta gamma) [seasonLength..<n]
             (initial_state data seasonLength forecastDays) of
        (level, trend, seasonal) \<Rightarrow>
          map (\<lambda>i. let m = i + 1; seasonIdx = n - seasonLength + (m - 1) mod seasonLength
                   in level + of_count (int m) * trend + seasonal ! seasonIdx) [0..<forecastDays])"

section \<open>Forecasts\<close>

record 'f ForecastPeriod =
  fp_Days :: nat
  fp_ForecastedCost :: 'f
  fp_LowerBound :: 'f
  fp_UpperBound :: 'f
  fp_Confidence :: 'f

record 'f Forecast =
  fc_GeneratedAt :: time
  fc_Namespace :: string
  fc_Periods :: "'f ForecastPeriod list"

record 'f ConfidenceInterval =
  ci_LowerBound :: 'f
  ci_UpperBound :: 'f
  ci_ConfidenceLevel :: 'f

record 'f SeasonalityPattern =
  sp_HasWeeklyPattern :: bool
  sp_HasMonthlyPattern :: bool
  sp_WeeklyFactors :: "'f list"
  sp_MonthlyFactors :: "'f list"

record 'f ThresholdBreach =
  tb_Namespace :: string
  tb_ThresholdPct :: 'f
  tb_BudgetLimit :: 'f
  tb_ForecastedCost :: 'f
  tb_PeriodDays :: nat

datatype forecast_error = EInsufficientHistory

definition minHistoryDays :: nat where "minHistoryDays = 14"

definition defaultSeasonLength :: nat where "defaultSeasonLength = 7"

definition defaultAlpha :: "'f::{one,scaleR}" where "defaultAlpha = lit (3/10)"

definition defaultBeta :: "'f::{one,scaleR}" where "defaultBeta = lit (1/10)"

definition defaultGamma :: "'f::{one,scaleR}" where "defaultGamma = lit (3/10)"

text \<open>The sum of the daily forecasts, negative ones counted as 0.\<close>

definition period_cost :: "'f list \<Rightarrow> 'f::{zero,plus,ord}" where
  "period_cost raw = (let totalCost = fold (\<lambda>v s. s + (if v < 0 then 0 else v)) raw 0
                      in if totalCost < 0 then 0 else totalCost)"

definition with_bounds ::
    "('f \<Rightarrow> 'f) \<Rightarrow> 'f ForecastPeriod \<Rightarrow> 'f::{zero,one,plus,minus,times,inverse,ord,scaleR} ForecastPeriod" where
  "with_bounds rt p =
     (let fc = fp_ForecastedCost p;
          stddev = fc * lit (1/10) * rt (of_count (int (fp_Days p)) / lit 7);
          z = lit (49/25);
          lower = fc - z * stddev;
          upper = fc + z * stddev
      in p\<lparr>fp_LowerBound := (if lower < 0 then 0 else lower), fp_UpperBound := upper,
           fp_Confidence := lit (19/20)\<rparr>)"

definition GenerateForecast ::
    "('f \<Rightarrow> 'f) \<Rightarrow> time \<Rightarrow> 'f DailyCostRecord list \<Rightarrow>
     forecast_error + 'f::{zero,one,plus,minus,times,inverse,ord,scaleR} Forecast" where
  "GenerateForecast rt now history =
     (if length history < minHistoryDays then Inl EInsufficientHistory
      else let data = map dr_TotalCost history;
               namespace = (if 0 < length history then dr_Namespace (history ! 0) else []);
               periods = map (\<lambda>days.
                 \<lparr>fp_Days = days, fp_ForecastedCost = period_cost
                    (holtWintersForecast data defaultSeasonLength defaultAlpha defaultBeta defaultGamma days),
                  fp_LowerBound = 0, fp_UpperBound = 0, fp_Confidence = 0\<rparr>) [7, 14, 30]
           in Inr \<lparr>fc_GeneratedAt = now, fc_Namespace = namespace,
                   fc_Periods = map (with_bounds rt) periods\<rparr>)"

section \<open>Confidence intervals\<close>

definition zScore :: "'f \<Rightarrow> 'f::{one,ord,scaleR}" where
  "zScore confidenceLevel =
     (if lit (99/100) \<le> confidenceLevel then lit (322/125)
      else if lit (95/100) \<le> confidenceLevel then lit (49/25)
      else if lit (90/100) \<le> confidenceLevel then lit (329/200)
      else if lit (80/100) \<le> confidenceLevel then lit (641/500)
      else 1)"

definition GetConfidenceInterval ::
    "('f \<Rightarrow> 'f) \<Rightarrow> 'f Forecast option \<Rightarrow> 'f::{zero,one,plus,minus,times,inverse,ord,scaleR} \<Rightarrow>
     'f ConfidenceInterval" where
  "GetConfidenceInterval rt fc confidenceLevel =
     (let periods = (case fc of None \<Rightarrow> [] | Some f \<Rightarrow> fc_Periods f) in
      if length periods = 0 then
        \<lparr>ci_LowerBound = 0, ci_UpperBound = 0, ci_ConfidenceLevel = confidenceLevel\<rparr>
      else let mean = fold (\<lambda>p s. s + fp_ForecastedCost p) periods 0 / of_count (int (length periods));
               sumsq = fold (\<lambda>p s. s + (fp_ForecastedCost p - mean) * (fp_ForecastedCost p - mean)) periods 0;
               variance = (if 1 < length periods then sumsq / of_count (int (length periods - 1)) else sumsq);
               stddev = rt variance;
               z = zScore confidenceLevel;
               forecastedCost = fp_ForecastedCost (periods ! 0);
               lower0 = forecastedCost - z * stddev;
               upper0 = forecastedCost + z * stddev;
               lower1 = (if lower0 < 0 then 0 else lower0)
           in \<lparr>ci_LowerBound = (if forecastedCost < lower1 then forecastedCost else lower1),
               ci_UpperBound = (if upper0 < forecastedCost then forecastedCost else upper0),
               ci_ConfidenceLevel = confidenceLevel\<rparr>)"

section \<open>Seasonality\<close>

definition coefficientOfVariation ::
    "('f \<Rightarrow> 'f) \<Rightarrow> 'f list \<Rightarrow> 'f::{zero,one,plus,minus,times,inverse,abs,scaleR}" where
  "coefficientOfVariation rt values =
     (if length values = 0 then 0
      else let mean = fold (\<lambda>v s. s + v) values 0 / of_count (int (length values)) in
        if mean = 0 then 0
        else let variance = fold (\<lambda>v s. s + (v - mean) * (v - mean)) values 0 / of_count (int (length values))
             in rt variance / \<bar>mean\<bar>)"

text \<open>The sum and the count of the records per slot, a day of the week or of the month.\<close>

definition slot_totals ::
    "nat \<Rightarrow> ('f DailyCostRecord \<Rightarrow> nat) \<Rightarrow> 'f DailyCostRecord list \<Rightarrow> 'f::{zero,plus} list \<times> nat list" where
  "slot_totals k slot history =
     fold (\<lambda>r (totals, counts). if slot r < k
        then (totals[slot r := totals ! slot r + dr_TotalCost r], counts[slot r := counts ! slot r + 1])
        else (totals, counts)) history (replicate k 0, replicate k 0)"

definition slot_means :: "nat \<Rightarrow> 'f list \<times> nat list \<Rightarrow> 'f::{zero,one,inverse,scaleR} list" where
  "slot_means k totals = map (\<lambda>i. if 0 < snd totals ! i
     then fst totals ! i / of_count (int (snd totals ! i)) else 0) [0..<k]"

definition weekday_slot :: "'f DailyCostRecord \<Rightarrow> nat" where
  "weekday_slot r = nat (Weekday (dr_Date r))"

definition monthday_slot :: "'f DailyCostRecord \<Rightarrow> nat" where
  "monthday_slot r = nat (d_Day (Date (dr_Date r)) - 1)"

definition DetectSeasonality ::
    "('f \<Rightarrow> 'f) \<Rightarrow> 'f DailyCostRecord list \<Rightarrow>
     'f::{zero,one,plus,minus,times,inverse,abs,ord,scaleR} SeasonalityPattern" where
  "DetectSeasonality rt history =
     (let none = \<lparr>sp_HasWeeklyPattern = False, sp_HasMonthlyPattern = False,
                  sp_WeeklyFactors = [], sp_MonthlyFactors = []\<rparr> in
      if length history < 14 then none
      else let week = slot_totals 7 weekday_slot history;
               means = slot_means 7 week;
               (sum, count) = fold (\<lambda>i (s, c). if 0 < snd week ! i
                  then (s + fst week ! i, c + snd week ! i) else (s, c)) [0..<7] (0, 0);
               overallMean = (if 0 < count then sum / of_count (int count) else sum);
               weeklyFactors = (if 0 < overallMean then map (\<lambda>f. f / overallMean) means else means);
               pattern = (if lit (5/100) < coefficientOfVariation rt weeklyFactors
                  then none\<lparr>sp_HasWeeklyPattern := True, sp_WeeklyFactors := weeklyFactors\<rparr> else none);
               month = slot_totals 31 monthday_slot history;
               means' = slot_means 31 month;
               monthlyFactors = (if 0 < overallMean
                  then map (\<lambda>i. if 0 < snd month ! i then means' ! i / overallMean else means' ! i) [0..<31]
                  else means');
               activeMF = map (\<lambda>i. monthlyFactors ! i) (filter (\<lambda>i. 0 < snd month ! i) [0..<31])
           in if lit (5/100) < coefficientOfVariation rt activeMF
              then pattern\<lparr>sp_HasMonthlyPattern := True, sp_MonthlyFactors := monthlyFactors\<rparr>
              else pattern)"

section \<open>Thresholds\<close>

definition policy_breaches ::
    "'f Forecast \<Rightarrow> 'f FinancialPolicy \<Rightarrow> 'f::{zero,one,times,inverse,ord,scaleR} ThresholdBreach list" where
  "policy_breaches fc policy =
     (let monthlyLimit = MonthlyLimit (Budget (Spec policy));
          thresholds = AlertThresholds (Budget (Spec policy)) in
      if monthlyLimit \<le> 0 then []
      else if length thresholds = 0 then []
      else concat (map (\<lambda>period. concat (map (\<lambda>thresholdPct.
             let thresholdValue = monthlyLimit * thresholdPct / lit 100 in
             if thresholdValue < fp_ForecastedCost period
             then [\<lparr>tb_Namespace = fc_Namespace fc, tb_ThresholdPct = thresholdPct,
                    tb_BudgetLimit = monthlyLimit, tb_ForecastedCost = fp_ForecastedCost period,
                    tb_PeriodDays = fp_Days period\<rparr>]
             else []) thresholds)) (fc_Periods fc)))"

text \<open>A nil forecast has no breaches and a nil policy is skipped.\<close>

definition CheckThresholds ::
    "'f Forecast option \<Rightarrow> 'f FinancialPolicy option list \<Rightarrow>
     'f::{zero,one,times,inverse,ord,scaleR} ThresholdBreach list" where
  "CheckThresholds fc policies =
     (case fc of None \<Rightarrow> []
      | Some f \<Rightarrow> concat (map (\<lambda>p. case p of None \<Rightarrow> [] | Some policy \<Rightarrow> policy_breaches f policy) policies))"

section \<open>The scheduler\<close>

text \<open>
  The reader, the forecaster and the store are interfaces: a read or a store acts on a state
  \<open>'s\<close>. \<^verbatim>\<open>RunOnce\<close> logs an error and returns.
\<close>

definition ForecastOnce ::
    "(nat \<Rightarrow> 's \<Rightarrow> ('e + 'f DailyCostRecord list) \<times> 's) \<Rightarrow> ('f DailyCostRecord list \<Rightarrow> 'g + 'f Forecast) \<Rightarrow>
     ('f Forecast \<Rightarrow> 's \<Rightarrow> 'h option \<times> 's) \<Rightarrow> 's \<Rightarrow> 's" where
  "ForecastOnce readDailyCosts generate storeForecast s =
     (case readDailyCosts 90 s of (Inl err, s1) \<Rightarrow> s1
      | (Inr history, s1) \<Rightarrow> (case generate history of Inl err \<Rightarrow> s1
          | Inr forecast \<Rightarrow> (case storeForecast forecast s1 of (Some err, s2) \<Rightarrow> s2 | (None, s2) \<Rightarrow> s2)))"

definition StartForecasts ::
    "(nat \<Rightarrow> 's \<Rightarrow> ('e + 'f DailyCostRecord list) \<times> 's) \<Rightarrow> ('f DailyCostRecord list \<Rightarrow> 'g + 'f Forecast) \<Rightarrow>
     ('f Forecast \<Rightarrow> 's \<Rightarrow> 'h option \<times> 's) \<Rightarrow> nat \<Rightarrow> 's \<Rightarrow> 's" where
  "StartForecasts readDailyCosts generate storeForecast ticks =
     (ForecastOnce readDailyCosts generate storeForecast ^^ Suc ticks)"

section \<open>Periodic histories\<close>

definition periodic :: "nat \<Rightarrow> 'a list \<Rightarrow> bool" where
  "periodic k xs \<longleftrightarrow> (\<forall>i. i + k < length xs \<longrightarrow> xs ! (i + k) = xs ! i)"

lemma smooth_periodic:
  fixes data :: "real list"
  assumes "periodic L data" "0 < L" "L \<le> t" "t < length data" "t < length seasonal"
    and "\<forall>j<t. seasonal ! j = data ! j - level"
  shows "\<exists>seasonal'. smooth data L alpha beta gamma t (level, 0, seasonal) = (level, 0, seasonal') \<and>
    length seasonal' = length seasonal \<and> (\<forall>j<Suc t. seasonal' ! j = data ! j - level)"
proof -
  have "t - L + L < length data" using assms(3,4) by simp
  then have "data ! (t - L + L) = data ! (t - L)" using assms(1) unfolding periodic_def by blast
  then have s: "seasonal ! (t - L) = data ! t - level" using assms(2,3,6) by simp
  have "alpha * (data ! t - (data ! t - level)) + (1 - alpha) * (level + 0) = level"
    "gamma * (data ! t - level) + (1 - gamma) * (data ! t - level) = data ! t - level"
    by (simp_all add: algebra_simps)
  then have "smooth data L alpha beta gamma t (level, 0, seasonal) =
      (level, 0, seasonal[t := data ! t - level])"
    by (simp add: smooth_def Let_def s)
  then show ?thesis using assms(5,6) by (auto simp: less_Suc_eq nth_list_update)
qed

lemma smooths_periodic:
  fixes data :: "real list"
  assumes "periodic L data" "0 < L" "length data \<le> length seasonal" "L \<le> t" "t \<le> length data"
    and "\<forall>j<L. seasonal ! j = data ! j - level"
  shows "\<exists>seasonal'. fold (smooth data L alpha beta gamma) [L..<t] (level, 0, seasonal) = (level, 0, seasonal') \<and>
    length seasonal' = length seasonal \<and> (\<forall>j<t. seasonal' ! j = data ! j - level)"
  using assms(4,5)
proof (induction t rule: dec_induct)
  case base
  then show ?case using assms(6) by simp
next
  case (step t)
  then obtain s where s: "fold (smooth data L alpha beta gamma) [L..<t] (level, 0, seasonal) = (level, 0, s)"
    "length s = length seasonal" "\<forall>j<t. s ! j = data ! j - level" by auto
  from smooth_periodic [OF assms(1,2) _ _ _ s(3), of alpha beta gamma] step s assms(3)
  show ?case by simp
qed

lemma index_sum_real: "index_sum k g = (\<Sum>i<k. g i)" for g :: "nat \<Rightarrow> real"
  by (simp add: index_sum_def fold_add_real interv_sum_list_conv_sum_set_nat atLeast0LessThan)

lemma initial_periodic:
  fixes data :: "real list"
  assumes "periodic L data" "2 * L \<le> length data"
  shows "\<exists>level seasonal. initial_state data L k = (level, 0, seasonal) \<and> length seasonal = length data + k \<and>
    (\<forall>j<L. seasonal ! j = data ! j - level)"
proof -
  have "i < L \<Longrightarrow> data ! (L + i) - data ! i = 0" for i
    using assms unfolding periodic_def by (metis add.commute add_less_mono1 eq_iff_diff_eq_0 less_le_trans mult_2)
  then have "index_sum L (\<lambda>i. data ! (L + i) - data ! i) = 0" by (simp add: index_sum_real)
  then show ?thesis using assms(2) by (auto simp: initial_state_def Let_def nth_append)
qed

section \<open>Bounds in floating point\<close>

lemma unit_lit: "0 \<le> r \<Longrightarrow> r \<le> 1 \<Longrightarrow> 0 \<le> (lit r :: f64) \<and> (lit r :: f64) \<le> 1"
  using ieee.lit_mono [of r 1] ieee.lit_nonneg [of r] by (simp add: ieee.lit_one)

lemma fin_mk: "\<bar>r\<bar> \<le> 2 ^ 52 \<Longrightarrow> is_fin (mk r)"
  using ieee.fin_lit [of r] by (simp add: lit_f64)

text \<open>A rounded positive literal is positive: it lies above a representable one.\<close>

lemma lit_above: "exact64 a \<Longrightarrow> 0 < a \<Longrightarrow> a \<le> r \<Longrightarrow> 0 < (lit r :: f64)"
  using ieee.less_le_trans [of 0 "lit a" "lit r"] lit_pos [of a] ieee.lit_mono [of a r] by blast

lemma exact_half: "exact64 (1/2)" "exact64 1"
  using exact64_dyadic [of 1 1] by simp_all

lemma stddev_nonneg:
  fixes fc :: f64
  assumes "is_fin fc" "0 \<le> fc" "d < 2 ^ 52"
  shows "0 \<le> fc * lit (1/10) * math_sqrt (of_count (int d) / lit 7)"
proof -
  have tenth: "0 \<le> lit (1/10) * fc \<and> lit (1/10) * fc \<le> fc"
    using ieee.part [OF assms(1,2)] unit_lit [of "1/10"] by simp
  then have "is_fin (fc * lit (1/10))" using ieee.fin_between [OF assms(1)] ieee.mult_comm by metis
  have n: "is_fin (of_count (int d) :: f64)" "0 \<le> (of_count (int d) :: f64)"
    using ieee.fin_lit [of "of_int (int d)"] ieee.lit_nonneg [of "of_int (int d)"] assms(3)
    by (simp_all add: of_count_def)
  have "(1 :: f64) \<le> lit 7" using ieee.lit_mono [of 1 7] by (simp add: ieee.lit_one)
  from ieee.thin [OF n this] n(1) have x: "is_fin (of_count (int d) / lit 7 :: f64)"
    "0 \<le> (of_count (int d) / lit 7 :: f64)" using ieee.fin_between by blast+
  from ieee.mult_nonneg [OF \<open>is_fin (fc * lit (1/10))\<close> math_sqrt_fin [OF x] _ math_sqrt_nonneg [OF x(2)]]
  show ?thesis using tenth ieee.mult_comm by metis
qed

text \<open>An interval around a finite value, with a non-negative radius and its lower end clamped.\<close>

lemma around:
  fixes x y :: f64
  assumes "is_fin x" "0 \<le> x" "0 \<le> y"
  shows "0 \<le> (if x - y < 0 then 0 else x - y) \<and> (if x - y < 0 then 0 else x - y) \<le> x \<and> x \<le> x + y"
proof -
  have "x - y \<le> x" by (rule ieee.diff_le [OF assms(1,3)])
  moreover have "\<not> x - y < 0 \<Longrightarrow> 0 \<le> x - y" by (rule diff_not_negative [OF assms(1,3)])
  ultimately show ?thesis using assms ieee.zero_le_zero ieee.add_ge [OF assms(1,3)] by auto
qed

lemma bounds_ordered:
  assumes "is_fin (fp_ForecastedCost p)" "0 \<le> fp_ForecastedCost p" "fp_Days p < 2 ^ 52"
  shows "0 \<le> fp_LowerBound (with_bounds math_sqrt p) \<and>
    fp_LowerBound (with_bounds math_sqrt p) \<le> fp_ForecastedCost p \<and>
    fp_ForecastedCost p \<le> fp_UpperBound (with_bounds math_sqrt p)"
proof -
  have "0 \<le> lit (49/25) * (fp_ForecastedCost p * lit (1/10) * math_sqrt (of_count (int (fp_Days p)) / lit 7))"
    using ieee.fin_lit [of "49/25"] lit_above [OF exact_half(2), of "49/25"]
    by (intro mult_pos_nonneg stddev_nonneg assms) auto
  from around [OF assms(1,2) this] show ?thesis by (simp add: with_bounds_def Let_def)
qed

lemma period_cost_nonneg: "is_fin (period_cost raw) \<Longrightarrow> 0 \<le> period_cost raw"
  using ieee.not_less [of "period_cost raw" 0] ieee.fin_zero ieee.not_less_self ieee.zero_le_zero
  by (auto simp: period_cost_def Let_def split: if_splits)

section \<open>Slots of the week and the month\<close>

lemma slot_totals_length [simp]:
  "length (fst (slot_totals k slot history)) = k" "length (snd (slot_totals k slot history)) = k"
  by (induction history rule: rev_induct) (auto simp: slot_totals_def split: prod.split)

lemma slot_totals_snoc:
  "slot_totals k slot (history @ [r]) = (case slot_totals k slot history of (totals, counts) \<Rightarrow>
     if slot r < k then (totals[slot r := totals ! slot r + dr_TotalCost r], counts[slot r := counts ! slot r + 1])
     else (totals, counts))"
  by (simp add: slot_totals_def)

lemma slot_totals_spec:
  assumes "i < k"
  shows "fst (slot_totals k slot history) ! i = group_sum (\<lambda>r. slot r = i) dr_TotalCost history \<and>
    snd (slot_totals k slot history) ! i = length (filter (\<lambda>r. slot r = i) history)"
proof (induction history rule: rev_induct)
  case Nil
  then show ?case using assms by (simp add: slot_totals_def)
next
  case (snoc r history)
  obtain totals counts where t: "slot_totals k slot history = (totals, counts)" by fastforce
  have "length totals = k" "length counts = k"
    using slot_totals_length [of k slot history] by (simp_all add: t)
  with snoc t assms show ?case
    by (simp add: slot_totals_snoc group_sum_snoc nth_list_update)
qed

lemma weekday_slot: "weekday_slot r < 7"
  using Weekday_range [of "dr_Date r"] by (simp add: weekday_slot_def)

lemma monthday_slot: "monthday_slot r < 31"
  using Date_range [of "dr_Date r"] by (simp add: monthday_slot_def)

text \<open>The running pair of the sum over the occupied slots and their count.\<close>

lemma slot_fold_real:
  fixes f :: "nat \<Rightarrow> real" and g :: "nat \<Rightarrow> nat"
  shows "fold (\<lambda>i (s, c). if 0 < g i then (s + f i, c + g i) else (s, c)) [0..<k] (0, 0) =
    (\<Sum>i<k. if 0 < g i then f i else 0, \<Sum>i<k. g i)"
  by (induction k) auto

text \<open>The day of a week each record falls on partitions the history.\<close>

lemma weekday_sums:
  fixes history :: "real DailyCostRecord list"
  shows "(\<Sum>i<7. group_sum (\<lambda>r. weekday_slot r = i) dr_TotalCost history) = (\<Sum>r\<leftarrow>history. dr_TotalCost r)"
    and "(\<Sum>i<7. length (filter (\<lambda>r. weekday_slot r = i) history)) = length history"
proof -
  have "weekday_slot r \<in> {..<7}" for r :: "real DailyCostRecord" using weekday_slot by simp
  from group_sum_partition [OF finite_lessThan this, where P = "\<lambda>_. True" and ps = history and cost = dr_TotalCost]
  show "(\<Sum>i<7. group_sum (\<lambda>r. weekday_slot r = i) dr_TotalCost history) = (\<Sum>r\<leftarrow>history. dr_TotalCost r)"
    by (simp add: group_sum_real)
  have "(\<Sum>i<7. length (filter (\<lambda>r. weekday_slot r = i) hs)) = length hs" for hs :: "real DailyCostRecord list"
  proof (induction hs)
    case (Cons r hs)
    have "(\<Sum>i<7. length (filter (\<lambda>r. weekday_slot r = i) (r # hs))) =
        (\<Sum>i<7. length (filter (\<lambda>r. weekday_slot r = i) hs) + (if i = weekday_slot r then 1 else 0))"
      by (rule sum.cong) auto
    then show ?case using Cons weekday_slot [of r] by (simp add: sum.distrib)
  qed simp
  then show "(\<Sum>i<7. length (filter (\<lambda>r. weekday_slot r = i) history)) = length history" .
qed

text \<open>The factors of a reported weekly pattern.\<close>

definition weekday_count :: "'f DailyCostRecord list \<Rightarrow> nat \<Rightarrow> nat" where
  "weekday_count history i = length (filter (\<lambda>r. weekday_slot r = i) history)"

definition weekday_sum :: "'f DailyCostRecord list \<Rightarrow> nat \<Rightarrow> 'f::{zero,plus}" where
  "weekday_sum history i = group_sum (\<lambda>r. weekday_slot r = i) dr_TotalCost history"

lemma weekday_sum_0: "weekday_count history i = 0 \<Longrightarrow> weekday_sum history i = 0"
  by (simp add: weekday_count_def weekday_sum_def group_sum_def)

lemma weekly_factors:
  fixes history :: "real DailyCostRecord list"
  assumes "sp_HasWeeklyPattern (DetectSeasonality rt history)" "0 < (\<Sum>r\<leftarrow>history. dr_TotalCost r)" "i < 7"
  shows "sp_WeeklyFactors (DetectSeasonality rt history) ! i =
    weekday_sum history i / weekday_count history i / ((\<Sum>r\<leftarrow>history. dr_TotalCost r) / length history)"
proof -
  let ?week = "slot_totals 7 weekday_slot history"
  have len: "14 \<le> length history"
  proof (rule ccontr)
    assume "\<not> 14 \<le> length history"
    then have "length history < 14" by simp
    with assms(1) show False by (simp add: DetectSeasonality_def Let_def)
  qed
  have slots: "j < 7 \<Longrightarrow> fst ?week ! j = weekday_sum history j \<and> snd ?week ! j = weekday_count history j" for j
    using slot_totals_spec [of j 7] by (simp add: weekday_sum_def weekday_count_def)
  have "(\<Sum>j<7. if 0 < snd ?week ! j then fst ?week ! j else 0) = (\<Sum>j<7. weekday_sum history j)"
    using slots weekday_sum_0 by (intro sum.cong) auto
  moreover have "(\<Sum>j<7. snd ?week ! j) = (\<Sum>j<7. weekday_count history j)"
    using slots by (intro sum.cong) auto
  ultimately have fold: "fold (\<lambda>i (s, c). if 0 < snd ?week ! i then (s + fst ?week ! i, c + snd ?week ! i) else (s, c))
      [0..<7] (0, 0) = (\<Sum>r\<leftarrow>history. dr_TotalCost r, length history)"
    using weekday_sums [of history] unfolding slot_fold_real
    by (simp add: weekday_sum_def weekday_count_def)
  have "0 < length history" using len by linarith
  with assms(1,2) len fold slots [OF assms(3)] assms(3) show ?thesis
    by (auto simp: DetectSeasonality_def Let_def slot_means_def weekday_sum_0 split: if_splits)
qed

section \<open>Properties\<close>

text \<open>C36: in exact arithmetic: on a history that repeats itself with the season's length, at least two
  seasons long, the smoothing continues it, for all smoothing parameters: the
  forecast of every day is the cost of the same day of the last season. In floating point every step
  rounds, which this does not bound.\<close>

theorem holt_winters_continues_period:
  fixes data :: "real list"
  assumes "periodic L data" "0 < L" "2 * L \<le> length data"
  shows "holtWintersForecast data L alpha beta gamma days =
    map (\<lambda>i. data ! (length data - L + i mod L)) [0..<days]"
proof -
  from initial_periodic [OF assms(1,3), of days] obtain level s0 where
    init: "initial_state data L days = (level, 0, s0)" "length s0 = length data + days"
      "\<forall>j<L. s0 ! j = data ! j - level" by blast
  from smooths_periodic [OF assms(1,2) _ _ _ init(3), of "length data" alpha beta gamma] init(2) assms(3)
  obtain s where s: "fold (smooth data L alpha beta gamma) [L..<length data] (level, 0, s0) = (level, 0, s)"
    "\<forall>j<length data. s ! j = data ! j - level" by auto
  have "length data - L + i mod L < length data" for i
    using assms(2,3) mod_less_divisor [OF assms(2), of i] by linarith
  with s assms(3) show ?thesis by (simp add: holtWintersForecast_def Let_def init(1))
qed

text \<open>C25: a forecast needs fourteen records and has the periods of 7, 14 and 30 days; in floating
  point, every period with a finite cost has a non-negative one, and its bounds enclose it.\<close>

theorem forecast_bounds_enclose:
  fixes history :: "f64 DailyCostRecord list"
  shows "if length history < 14 then GenerateForecast math_sqrt now history = Inl EInsufficientHistory
    else \<exists>f. GenerateForecast math_sqrt now history = Inr f \<and> map fp_Days (fc_Periods f) = [7, 14, 30] \<and>
      (\<forall>p\<in>set (fc_Periods f). is_fin (fp_ForecastedCost p) \<longrightarrow>
        0 \<le> fp_LowerBound p \<and> fp_LowerBound p \<le> fp_ForecastedCost p \<and>
        fp_ForecastedCost p \<le> fp_UpperBound p)"
proof -
  have "is_fin (fp_ForecastedCost (with_bounds math_sqrt p)) \<Longrightarrow> fp_Days p < 2 ^ 52 \<Longrightarrow>
      fp_ForecastedCost p = period_cost raw \<Longrightarrow>
      0 \<le> fp_LowerBound (with_bounds math_sqrt p) \<and>
      fp_LowerBound (with_bounds math_sqrt p) \<le> fp_ForecastedCost (with_bounds math_sqrt p) \<and>
      fp_ForecastedCost (with_bounds math_sqrt p) \<le> fp_UpperBound (with_bounds math_sqrt p)" for p raw
    using bounds_ordered [of p] period_cost_nonneg [of raw] by (simp add: with_bounds_def Let_def)
  then show ?thesis
    by (auto simp: GenerateForecast_def minHistoryDays_def Let_def)
      (auto simp: with_bounds_def Let_def)
qed

text \<open>With finite non-negative costs, the confidence interval of a forecast encloses the cost of
  its first period and does not go below 0, in floating point and for every confidence level,
  even where the variance overflows.\<close>

lemma confidence_interval_encloses:
  fixes f :: "f64 Forecast"
  assumes "fc_Periods f = p # ps" "\<forall>q\<in>set (p # ps). is_fin (fp_ForecastedCost q) \<and> 0 \<le> fp_ForecastedCost q"
    and "length ps < 2 ^ 52" "ci = GetConfidenceInterval math_sqrt (Some f) confidenceLevel"
  shows "0 \<le> ci_LowerBound ci \<and> ci_LowerBound ci \<le> fp_ForecastedCost p \<and>
    fp_ForecastedCost p \<le> ci_UpperBound ci"
proof -
  let ?n = "of_count (int (length (p # ps))) :: f64"
  define mean where "mean = fold (\<lambda>p s. s + fp_ForecastedCost p) (p # ps) 0 / ?n"
  define sumsq where "sumsq = fold (\<lambda>p s. s + (fp_ForecastedCost p - mean) * (fp_ForecastedCost p - mean)) (p # ps) 0"
  define variance where "variance = (if 1 < length (p # ps)
    then sumsq / of_count (int (length (p # ps) - 1)) else sumsq)"
  have mean: "0 \<le> mean"
    using count_pos [of "int (length (p # ps))"] assms(2,3) unfolding mean_def
    by (intro divide_pos_nonneg ieee.fold_add_nonneg ieee.zero_le_zero) auto
  have "0 \<le> sumsq"
    unfolding sumsq_def using assms(2) mean
    by (intro ieee.fold_add_nonneg ieee.zero_le_zero diff_square_nonneg) auto
  then have "0 \<le> variance"
    using count_pos [of "int (length (p # ps) - 1)"] assms(3)
    by (auto simp: variance_def Suc_le_eq intro!: divide_pos_nonneg)
  then have "0 \<le> math_sqrt variance" by (rule math_sqrt_nonneg)
  moreover have "0 < (zScore confidenceLevel :: f64)" "is_fin (zScore confidenceLevel :: f64)"
    using lit_above [OF exact_half(2)] ieee.fin_lit ieee.zero_less_one ieee.fin_one
    by (auto simp: zScore_def)
  ultimately have "0 \<le> zScore confidenceLevel * math_sqrt variance" by (intro mult_pos_nonneg)
  from around [OF _ _ this, of "fp_ForecastedCost p"] assms(2) ieee.less_asym
  show ?thesis
    unfolding assms(4) GetConfidenceInterval_def Let_def assms(1) option.case
      mean_def [symmetric] sumsq_def [symmetric] variance_def [symmetric]
    by auto
qed

text \<open>A breach is reported for a policy that is not nil, has a positive limit, a period and a
  threshold exactly when the cost of the period exceeds that percentage of the limit; the
  policy's target namespace plays no part.\<close>

lemma breaches_exact:
  fixes f :: "f64 Forecast"
  shows "b \<in> set (CheckThresholds (Some f) policies) \<longleftrightarrow>
    (\<exists>policy period pct. Some policy \<in> set policies \<and> period \<in> set (fc_Periods f) \<and>
      pct \<in> set (AlertThresholds (Budget (Spec policy))) \<and> \<not> MonthlyLimit (Budget (Spec policy)) \<le> 0 \<and>
      MonthlyLimit (Budget (Spec policy)) * pct / lit 100 < fp_ForecastedCost period \<and>
      b = \<lparr>tb_Namespace = fc_Namespace f, tb_ThresholdPct = pct,
           tb_BudgetLimit = MonthlyLimit (Budget (Spec policy)),
           tb_ForecastedCost = fp_ForecastedCost period, tb_PeriodDays = fp_Days period\<rparr>)"
proof -
  have "b \<in> set (policy_breaches f policy) \<longleftrightarrow> (\<exists>period pct. period \<in> set (fc_Periods f) \<and>
      pct \<in> set (AlertThresholds (Budget (Spec policy))) \<and> \<not> MonthlyLimit (Budget (Spec policy)) \<le> 0 \<and>
      MonthlyLimit (Budget (Spec policy)) * pct / lit 100 < fp_ForecastedCost period \<and>
      b = \<lparr>tb_Namespace = fc_Namespace f, tb_ThresholdPct = pct,
           tb_BudgetLimit = MonthlyLimit (Budget (Spec policy)),
           tb_ForecastedCost = fp_ForecastedCost period, tb_PeriodDays = fp_Days period\<rparr>)" for policy
    by (auto simp: policy_breaches_def Let_def split: if_splits)
  then show ?thesis by (force simp: CheckThresholds_def split: option.splits)
qed

text \<open>The weekly factors a pattern reports average to 1 over the records, in exact arithmetic: the
  factor of a weekday, weighted with the number of its records, adds up to their number.\<close>

lemma weekly_factors_average:
  fixes history :: "real DailyCostRecord list"
  assumes "sp_HasWeeklyPattern (DetectSeasonality sqrt history)" "0 < (\<Sum>r\<leftarrow>history. dr_TotalCost r)"
  shows "(\<Sum>i<7. real (length (filter (\<lambda>r. weekday_slot r = i) history)) *
      sp_WeeklyFactors (DetectSeasonality sqrt history) ! i) = real (length history)"
proof -
  let ?m = "(\<Sum>r\<leftarrow>history. dr_TotalCost r) / length history"
  have "history \<noteq> []" using assms(2) by auto
  have "(\<Sum>i<7. real (length (filter (\<lambda>r. weekday_slot r = i) history)) *
      sp_WeeklyFactors (DetectSeasonality sqrt history) ! i) = (\<Sum>i<7. weekday_sum history i / ?m)"
    using weekly_factors [OF assms] weekday_sum_0 [of history]
    by (intro sum.cong) (auto simp flip: weekday_count_def)
  also have "\<dots> = (\<Sum>i<7. weekday_sum history i) / ?m" by (simp only: sum_divide_distrib)
  also have "\<dots> = real (length history)"
    using weekday_sums(1) [of history] assms(2) \<open>history \<noteq> []\<close> by (simp add: weekday_sum_def)
  finally show ?thesis .
qed

text \<open>A recalculation that fails to read, to forecast or to store leaves the stored forecast as it
  was, if a failing store does: the last valid forecast is not overwritten.\<close>

lemma failed_recalculation_keeps_forecast:
  assumes "\<And>n s. stored (snd (readDailyCosts n s)) = stored s"
    and "\<And>f s e s'. storeForecast f s = (Some e, s') \<Longrightarrow> stored s' = stored s"
    and "\<And>f s s'. storeForecast f s = (None, s') \<Longrightarrow> stored s' = Some f"
  shows "stored (ForecastOnce readDailyCosts generate storeForecast s) =
    (case readDailyCosts 90 s of (Inl err, s1) \<Rightarrow> stored s
     | (Inr history, s1) \<Rightarrow> (case generate history of Inl err \<Rightarrow> stored s
         | Inr f \<Rightarrow> (case storeForecast f s1 of (Some err, _) \<Rightarrow> stored s | (None, _) \<Rightarrow> Some f)))"
  using assms(1) [of 90 s] assms(2,3)
  by (auto simp: ForecastOnce_def split: prod.splits sum.splits option.splits)

subsection \<open>The properties at work\<close>

lemma holt_winters_continues_period_witness:
  "holtWintersForecast [1, 2, 1, 2 :: real] 2 (1/2) (1/3) (1/4) 3 = [1, 2, 1]"
proof -
  have "periodic 2 [1, 2, 1, 2 :: real]" by (auto simp: periodic_def less_Suc_eq)
  from holt_winters_continues_period [OF this, of "1/2" "1/3" "1/4" 3]
  show ?thesis by (simp add: upt_rec)
qed

text \<open>A history without costs: every state of the smoothing is zero.\<close>

lemma one_minus_part: "0 \<le> r \<Longrightarrow> r \<le> 1 \<Longrightarrow> is_fin (lit r :: f64) \<and> is_fin (1 - lit r :: f64)"
proof -
  assume r: "0 \<le> r" "r \<le> 1"
  have x: "is_fin (lit r :: f64)" "0 \<le> to_real (lit r :: f64)" "to_real (lit r :: f64) \<le> 1"
    using mk_between [of 0 r 1] r by (simp_all add: lit_f64)
  then have "1 - lit r = mk (1 - to_real (lit r :: f64))"
    using fin_ops(2) [of 1 "lit r"] ieee.fin_one by (simp flip: mk_1)
  with mk_between [of 0 "1 - to_real (lit r :: f64)" 1] x show ?thesis by simp
qed

lemma fin_times_zero: "is_fin x \<Longrightarrow> x * 0 = (0::f64)"
  using fin_ops(3) [of x 0] ieee.fin_zero by (simp add: mk_0)

lemma zero_plus_zero [simp]: "0 + 0 = (0::f64)" "0 - 0 = (0::f64)"
  using mk_add [of 0 0] mk_diff [of 0 0] by (simp_all add: mk_0)

lemma smooth_zero:
  assumes "is_fin a" "is_fin b" "is_fin g" "is_fin (1 - a)" "is_fin (1 - b)" "is_fin (1 - g)" "t < n"
  shows "smooth (replicate n 0) L a b g t (0, 0, replicate (n + k) (0::f64)) = (0, 0, replicate (n + k) 0)"
  using assms by (simp add: smooth_def Let_def fin_times_zero list_update_same_conv)

lemma zero_forecast:
  assumes "is_fin a" "is_fin b" "is_fin g" "is_fin (1 - a)" "is_fin (1 - b)" "is_fin (1 - g)" "k < 2 ^ 52"
  shows "holtWintersForecast (replicate 14 (0::f64)) 7 a b g k = replicate k 0"
proof -
  have "0 / of_count n = (0::f64)" if "1 \<le> n" "n < 2 ^ 53" for n
    using mk_divide [of 0 "of_int n"] exact64_of_int [of n] that by (simp add: of_count_def lit_f64 mk_0)
  then have init: "initial_state (replicate 14 (0::f64)) 7 k = (0, 0, replicate (14 + k) 0)"
    by (simp add: initial_state_def Let_def index_sum_def upt_rec eval_nat_numeral)
  have steps: "set ts \<subseteq> {..<14} \<Longrightarrow> fold (smooth (replicate 14 0) 7 a b g) ts (0, 0, replicate (14 + k) (0::f64)) =
      (0, 0, replicate (14 + k) 0)" for ts
    by (induction ts) (simp_all add: smooth_zero [OF assms(1-6)])
  have fin: "of_count (int m) * 0 = (0::f64)" if "m \<le> k" for m
    using ieee.fin_lit [of "of_int (int m)"] that assms(7) by (intro fin_times_zero) (simp add: of_count_def)
  have "of_count (1 + int i) * 0 = (0::f64)" if "i < k" for i
    using fin [of "Suc i"] that by simp
  moreover have "{7..<14} \<subseteq> {..<14::nat}" by auto
  ultimately show ?thesis
    using steps [of "[7..<14]"] by (auto simp: holtWintersForecast_def Let_def init intro!: nth_equalityI)
qed

lemma period_cost_zero: "period_cost (replicate k (0::f64)) = 0"
proof -
  have "\<not> (0::f64) < 0" using ieee.less_asym [of 0 0] ieee.zero_le_zero by auto
  then have "fold (\<lambda>v s. s + (if v < 0 then 0 else v)) (replicate k (0::f64)) 0 = 0"
    by (induction k) simp_all
  then show ?thesis by (simp add: period_cost_def Let_def)
qed

definition free_days :: "nat \<Rightarrow> f64 DailyCostRecord list" where
  "free_days n = replicate n \<lparr>dr_Date = 0, dr_Namespace = ''shop'', dr_TotalCost = 0,
     dr_DayOfWeek = 4, dr_DayOfMonth = 1\<rparr>"

lemma forecast_bounds_enclose_witness:
  "\<exists>f. GenerateForecast math_sqrt 0 (free_days 14) = Inr f \<and> map fp_Days (fc_Periods f) = [7, 14, 30] \<and>
     list_all (\<lambda>p. fp_ForecastedCost p = 0 \<and> 0 \<le> fp_LowerBound p \<and> fp_LowerBound p \<le> 0 \<and>
       0 \<le> fp_UpperBound p) (fc_Periods f) \<and>
     GenerateForecast math_sqrt 0 (free_days 13) = Inl EInsufficientHistory"
proof -
  have par: "is_fin (defaultAlpha::f64)" "is_fin (defaultBeta::f64)" "is_fin (defaultGamma::f64)"
    "is_fin (1 - defaultAlpha::f64)" "is_fin (1 - defaultBeta::f64)" "is_fin (1 - defaultGamma::f64)"
    by (simp_all add: defaultAlpha_def defaultBeta_def defaultGamma_def one_minus_part)
  from forecast_bounds_enclose [of "free_days 14" 0]
  obtain f where f: "GenerateForecast math_sqrt 0 (free_days 14) = Inr f"
    "map fp_Days (fc_Periods f) = [7, 14, 30]"
    "\<forall>p\<in>set (fc_Periods f). is_fin (fp_ForecastedCost p) \<longrightarrow> 0 \<le> fp_LowerBound p \<and>
       fp_LowerBound p \<le> fp_ForecastedCost p \<and> fp_ForecastedCost p \<le> fp_UpperBound p"
    by (auto simp: free_days_def)
  have "\<forall>p\<in>set (fc_Periods f). fp_ForecastedCost p = 0"
    using f(1) zero_forecast [OF par]
    by (auto simp: GenerateForecast_def Let_def free_days_def minHistoryDays_def defaultSeasonLength_def
        map_replicate_const with_bounds_def period_cost_zero)
  moreover have "GenerateForecast math_sqrt 0 (free_days 13) = Inl EInsufficientHistory"
    using forecast_bounds_enclose [of "free_days 13" 0] by (simp add: free_days_def)
  ultimately show ?thesis using f ieee.fin_zero by (fastforce simp: list_all_iff)
qed

definition one_period :: "f64 Forecast" where
  "one_period = \<lparr>fc_GeneratedAt = 0, fc_Namespace = ''shop'', fc_Periods = [\<lparr>fp_Days = 7,
     fp_ForecastedCost = mk 70, fp_LowerBound = mk 60, fp_UpperBound = mk 80, fp_Confidence = mk (1/2)\<rparr>]\<rparr>"

lemma confidence_interval_encloses_witness:
  "0 \<le> ci_LowerBound (GetConfidenceInterval math_sqrt (Some one_period) (mk (1/2))) \<and>
   ci_LowerBound (GetConfidenceInterval math_sqrt (Some one_period) (mk (1/2))) \<le> mk 70 \<and>
   mk 70 \<le> ci_UpperBound (GetConfidenceInterval math_sqrt (Some one_period) (mk (1/2)))"
proof -
  have "(0::f64) \<le> mk 70" using mk_le [of 0 70] by (simp add: mk_0)
  then show ?thesis
    using confidence_interval_encloses [of one_period "fc_Periods one_period ! 0" "[]", OF _ _ _ refl, of "mk (1/2)"]
    by (simp add: one_period_def)
qed

definition thursdays :: "real DailyCostRecord list" where
  "thursdays = map (\<lambda>i. \<lparr>dr_Date = int i * 86400000000000, dr_Namespace = ''shop'',
     dr_TotalCost = (if i mod 7 = 0 then 7 else 0),
     dr_DayOfWeek = (4 + int i) mod 7, dr_DayOfMonth = 1 + int i\<rparr>) [0..<14]"

lemma weekday_days:
  "weekday_slot \<lparr>dr_Date = int i * 86400000000000, dr_Namespace = n, dr_TotalCost = c, dr_DayOfWeek = d,
     dr_DayOfMonth = m\<rparr> = (4 + i) mod 7"
  by (simp add: weekday_slot_def Weekday_def days_of_def nat_mod_distrib nat_add_distrib add.commute time_units)

lemma replicate_7: "replicate 7 x = [x, x, x, x, x, x, x]"
  by (simp add: eval_nat_numeral)

lemma thursdays_slots: "slot_totals 7 weekday_slot thursdays = ([0, 0, 0, 0, 14, 0, 0], [2, 2, 2, 2, 2, 2, 2])"
  unfolding slot_totals_def thursdays_def fold_map o_def weekday_days DailyCostRecord.simps
  by (simp add: upt_rec replicate_7)

lemma weekly_pattern:
  fixes history :: "real DailyCostRecord list" and c :: nat
  assumes "slot_totals 7 weekday_slot history = (ts, cs)" "14 \<le> length history"
    and "fold (\<lambda>i (x, n). if 0 < cs ! i then (x + ts ! i, n + cs ! i) else (x, n)) [0..<7] (0, 0) = (s, c)"
    and "0 < c" "0 < s / real c"
    and "lit (5/100) < coefficientOfVariation rt (map (\<lambda>f. f / (s / real c)) (slot_means 7 (ts, cs)))"
  shows "sp_HasWeeklyPattern (DetectSeasonality rt history)"
  using assms(2,4-6) unfolding DetectSeasonality_def Let_def assms(1) fst_conv snd_conv assms(3) prod.case
  by simp

lemma weekly_factors_average_witness:
  "(\<Sum>i<7. real (length (filter (\<lambda>r. weekday_slot r = i) thursdays)) *
      sp_WeeklyFactors (DetectSeasonality sqrt thursdays) ! i) = 14"
proof -
  have [simp]: "length thursdays = 14" "(\<Sum>r\<leftarrow>thursdays. dr_TotalCost r) = 14"
    by (simp_all add: thursdays_def upt_rec)
  have "1 / 20 < sqrt 6" by (rule real_less_rsqrt) (simp add: power2_eq_square)
  then have "sp_HasWeeklyPattern (DetectSeasonality sqrt thursdays)"
    by (intro weekly_pattern [OF thursdays_slots, where s = 14 and c = 14])
      (simp_all add: slot_means_def upt_rec coefficientOfVariation_def)
  from weekly_factors_average [OF this] show ?thesis by simp
qed

lemma failed_recalculation_keeps_forecast_witness:
  "ForecastOnce (\<lambda>n s. (Inr [], s)) (GenerateForecast math_sqrt 0) (\<lambda>f s. (None :: unit option, Some f))
     (Some f :: f64 Forecast option) = Some f"
  using failed_recalculation_keeps_forecast [where stored = id and storeForecast = "\<lambda>f s. (None, Some f)"
      and readDailyCosts = "\<lambda>n s. (Inr [], s)" and generate = "GenerateForecast math_sqrt 0"
      and s = "Some f :: f64 Forecast option"]
  by (simp add: GenerateForecast_def minHistoryDays_def)

end
