(* ===== verification/Cost_Table.thy ===== *)
theory Cost_Table
  imports Cost_Collector
begin

text \<open>
  The table \<^verbatim>\<open>cost_records\<close> behind the store of \<^verbatim>\<open>pkg/collector/store.go\<close>: what its two statements
  mean, as the contract of the database, and what follows for costs that are stored and queried.
  The columns are decimal numbers of a fixed precision, of a type \<open>'d\<close> of their own: \<open>numeric\<close> rounds a
  number of the program to one, \<open>sum_of\<close> adds decimals and gives the sum as a number of the program.
\<close>

section \<open>The statements\<close>

text \<open>
  \<^verbatim>\<open>INSERT ... ON CONFLICT DO NOTHING\<close>: a row with the time, namespace and pod of one that is there
  is dropped.
\<close>

definition row_key :: "'f CostRow \<Rightarrow> time \<times> string \<times> string" where
  "row_key r = (cr_Time r, cr_Namespace r, cr_PodName r)"

definition insert_row :: "'f CostRow \<Rightarrow> 'f CostRow list \<Rightarrow> 'f CostRow list" where
  "insert_row r t = (if list_ex (\<lambda>q. row_key q = row_key r) t then t else t @ [r])"

text \<open>The condition and the groups of the \<^verbatim>\<open>SELECT\<close>.\<close>

definition selected :: "time \<Rightarrow> time \<Rightarrow> string option \<Rightarrow> 'f CostRow list \<Rightarrow> 'f CostRow list" where
  "selected start till ns t = filter (\<lambda>r. start \<le> cr_Time r \<and> cr_Time r < till \<and>
     (case ns of None \<Rightarrow> True | Some n \<Rightarrow> cr_Namespace r = n)) t"

definition day_key :: "'f CostRow \<Rightarrow> time \<times> string" where
  "day_key r = (days_of (cr_Time r) * day, cr_Namespace r)"

definition daily_sums :: "('d list \<Rightarrow> 'f) \<Rightarrow> 'd CostRow list \<Rightarrow> (time \<times> string \<rightharpoonup> 'f)" where
  "daily_sums sum_of t k = (if \<exists>r\<in>set t. day_key r = k
     then Some (sum_of (map cr_TotalCost (filter (\<lambda>r. day_key r = k) t))) else None)"

definition rounded :: "('f \<Rightarrow> 'd) \<Rightarrow> 'f CostRow \<Rightarrow> 'd CostRow" where
  "rounded numeric r =
     \<lparr>cr_Time = cr_Time r, cr_Namespace = cr_Namespace r, cr_Service = cr_Service r, cr_Team = cr_Team r,
      cr_PodName = cr_PodName r, cr_NodeName = cr_NodeName r, cr_InstanceType = cr_InstanceType r,
      cr_PurchaseOption = cr_PurchaseOption r, cr_CPUCost = numeric (cr_CPUCost r),
      cr_MemoryCost = numeric (cr_MemoryCost r), cr_NetworkCost = numeric (cr_NetworkCost r),
      cr_StorageCost = numeric (cr_StorageCost r), cr_TotalCost = numeric (cr_TotalCost r),
      cr_IsApproximate = cr_IsApproximate r\<rparr>"

lemma dom_daily_sums: "dom (daily_sums sum_of t) = day_key ` set t"
proof -
  have "k \<in> dom (daily_sums sum_of t) \<longleftrightarrow> k \<in> day_key ` set t" for k
    unfolding dom_def daily_sums_def image_iff by auto
  then show ?thesis by (rule set_eqI)
qed

lemma daily_sums_real: "daily_sums sum_list t = group_map day_key (\<lambda>_. True) cr_TotalCost (t :: real CostRow list)"
  by (auto simp: daily_sums_def group_map_def group_sum_real fun_eq_iff)

section \<open>The contract of the database\<close>

locale cost_database =
  fixes sendBatch :: "'f::zero CostRow list \<Rightarrow> 's \<Rightarrow> go_error option list \<times> 's"
    and query :: "time \<Rightarrow> time \<Rightarrow> string option \<Rightarrow> 's \<Rightarrow>
      go_error + (time \<times> string \<times> 'f) option list \<times> go_error option"
    and table :: "'s \<Rightarrow> 'd CostRow list"
    and numeric :: "'f \<Rightarrow> 'd"
    and sum_of :: "'d list \<Rightarrow> 'f"
  assumes send_length: "sendBatch b s = (results, s') \<Longrightarrow> length results = length b"
    and send_ok: "sendBatch b s = (results, s') \<Longrightarrow> set results \<subseteq> {None} \<Longrightarrow>
      table s' = fold insert_row (map (rounded numeric) b) (table s)"
    and query_ok: "query start till ns s = Inr (map Some gs, None) \<Longrightarrow>
      distinct (map (\<lambda>(d, n, c). (d, n)) gs) \<and> sorted (map fst gs) \<and>
      set gs = {(d, n, c). daily_sums sum_of (selected start till ns (table s)) (d, n) = Some c}"
begin

lemma stored:
  assumes "StoreCostRecords sendBatch nsOrder podOrder (Some c) s = (None, s')"
  shows "table s' = fold insert_row (map (rounded numeric) (store_batch nsOrder podOrder c)) (table s)"
proof (cases "store_batch nsOrder podOrder c = []")
  case True
  then show ?thesis using assms by (simp add: StoreCostRecords_def Let_def)
next
  case False
  obtain results s1 where send: "sendBatch (store_batch nsOrder podOrder c) s = (results, s1)" by fastforce
  have "first_error i rs = None \<Longrightarrow> set rs \<subseteq> {None}" for i rs
    by (induction i rs rule: first_error.induct) auto
  then show ?thesis
    using assms False send send_ok [OF send] by (auto simp: StoreCostRecords_def Let_def split: option.splits)
qed

text \<open>The records of a query, in ascending order of their days, one for every day and namespace.\<close>

lemma queried:
  assumes "QueryCostRecords query start till ns s = Inr records"
  shows "\<exists>gs. records = map daily_record gs \<and> distinct (map (\<lambda>(d, n, c). (d, n)) gs) \<and> sorted (map fst gs) \<and>
    set gs = {(d, n, c). daily_sums sum_of (selected start till (if ns \<noteq> [] then Some ns else None) (table s)) (d, n) = Some c}"
proof -
  obtain rows where q: "query start till (if ns \<noteq> [] then Some ns else None) s = Inr (rows, None)"
    and all: "\<not> list_ex (\<lambda>r. r = None) rows" and records: "records = map (daily_record \<circ> the) rows"
    using assms by (auto simp: QueryCostRecords_def split: sum.splits if_splits option.splits)
  from all have "\<exists>gs. rows = map Some gs"
    by (intro exI [of _ "map the rows"]) (induction rows; auto)
  then obtain gs where rows: "rows = map Some gs" by blast
  with records have "records = map daily_record gs" by simp
  with query_ok [OF q [unfolded rows]] show ?thesis by blast
qed

end

section \<open>A table in memory\<close>

definition mem_send :: "('f \<Rightarrow> 'd) \<Rightarrow> 'f CostRow list \<Rightarrow> 'd CostRow list \<Rightarrow> go_error option list \<times> 'd CostRow list" where
  "mem_send numeric b t = (map (\<lambda>_. None) b, fold insert_row (map (rounded numeric) b) t)"

definition mem_groups :: "('d list \<Rightarrow> 'f) \<Rightarrow> 'd CostRow list \<Rightarrow> (time \<times> string \<times> 'f) list" where
  "mem_groups sum_of t =
     map (\<lambda>(d, n). (d, n, the (daily_sums sum_of t (d, n)))) (sort_key fst (remdups (map day_key t)))"

definition mem_query ::
    "('d list \<Rightarrow> 'f) \<Rightarrow> time \<Rightarrow> time \<Rightarrow> string option \<Rightarrow> 'd CostRow list \<Rightarrow>
     go_error + (time \<times> string \<times> 'f) option list \<times> go_error option" where
  "mem_query sum_of start till ns t = Inr (map Some (mem_groups sum_of (selected start till ns t)), None)"

lemma mem_groups:
  "distinct (map (\<lambda>(d, n, c). (d, n)) (mem_groups sum_of t))" "sorted (map fst (mem_groups sum_of t))"
  "set (mem_groups sum_of t) = {(d, n, c). daily_sums sum_of t (d, n) = Some c}"
proof -
  have keys: "map (\<lambda>(d, n, c). (d, n)) (mem_groups sum_of t) = sort_key fst (remdups (map day_key t))"
    "map fst (mem_groups sum_of t) = map fst (sort_key fst (remdups (map day_key t)))"
    by (simp_all add: mem_groups_def comp_def case_prod_unfold)
  show "distinct (map (\<lambda>(d, n, c). (d, n)) (mem_groups sum_of t))" "sorted (map fst (mem_groups sum_of t))"
    unfolding keys by simp_all
  show "set (mem_groups sum_of t) = {(d, n, c). daily_sums sum_of t (d, n) = Some c}"
    using dom_daily_sums [of sum_of t] by (force simp: mem_groups_def)
qed

interpretation mem_table: cost_database "mem_send numeric" "mem_query sum_of" "\<lambda>t. t" numeric sum_of
  for numeric :: "'f::zero \<Rightarrow> 'd" and sum_of :: "'d list \<Rightarrow> 'f"
proof unfold_locales
  fix start till ns and t :: "'d CostRow list" and gs :: "(time \<times> string \<times> 'f) list"
  assume "mem_query sum_of start till ns t = Inr (map Some gs, None)"
  then have "gs = mem_groups sum_of (selected start till ns t)"
    by (simp add: mem_query_def)
  then show "distinct (map (\<lambda>(d, n, c). (d, n)) gs) \<and> sorted (map fst gs) \<and>
      set gs = {(d, n, c). daily_sums sum_of (selected start till ns t) (d, n) = Some c}"
    by (metis mem_groups)
qed (auto simp: mem_send_def)

section \<open>Totals\<close>

lemma insert_rows:
  assumes "distinct (map row_key b)" "row_key ` set b \<inter> row_key ` set t = {}"
  shows "fold insert_row b t = t @ b"
  using assms
proof (induction b arbitrary: t)
  case (Cons r b)
  then have "row_key r \<notin> row_key ` set t" by auto
  then have "insert_row r t = t @ [r]" unfolding insert_row_def list_ex_iff by (metis image_eqI)
  with Cons show ?case by auto
qed simp

lemma batch_keys:
  assumes "distinct nsOrder" "\<forall>n nc. ag_ByNamespace c n = Some nc \<longrightarrow> distinct (podOrder n)"
  shows "distinct (map row_key (store_batch nsOrder podOrder c))"
proof -
  let ?rows = "\<lambda>n nc. namespace_rows (ag_Timestamp c) (podOrder n) n nc"
  have names: "r \<in> set (?rows n nc) \<Longrightarrow> cr_Namespace r = n \<and> cr_Time r = ag_Timestamp c" for r n nc
    by (auto simp: namespace_rows_def cost_row_def split: if_splits)
  have "distinct (map row_key (?rows n nc))" if "ag_ByNamespace c n = Some nc" for n nc
  proof -
    have "distinct ps \<Longrightarrow> distinct (map (\<lambda>(p, x). (p :: string)) (range_map ps (nc_ByPod nc)))" for ps
      by (induction ps) (auto split: option.split simp: set_range_map)
    from this [of "podOrder n"] show ?thesis using assms(2) that
      by (auto simp: namespace_rows_def row_key_def cost_row_def distinct_map inj_on_def case_prod_unfold)
  qed
  then show ?thesis
    using assms(1) unfolding store_batch_def
  proof (induction nsOrder)
    case (Cons n ns)
    then show ?case
      by (auto simp: row_key_def set_range_map split: option.split dest!: names)
  qed simp
qed

lemma batch_namespace:
  assumes "iterates nsOrder (ag_ByNamespace c)"
  shows "filter (\<lambda>r. cr_Namespace r = n) (store_batch nsOrder podOrder c) =
    (case ag_ByNamespace c n of None \<Rightarrow> [] | Some nc \<Rightarrow> namespace_rows (ag_Timestamp c) (podOrder n) n nc)"
proof -
  let ?rows = "\<lambda>n nc. namespace_rows (ag_Timestamp c) (podOrder n) n nc"
  have names: "r \<in> set (?rows n nc) \<Longrightarrow> cr_Namespace r = n" for r n nc
    by (auto simp: namespace_rows_def cost_row_def split: if_splits)
  then have own: "filter (\<lambda>r. cr_Namespace r = n) (?rows m nc) = (if m = n then ?rows m nc else [])" for m nc
    by (auto simp: filter_id_conv filter_empty_conv)
  have "distinct ns \<Longrightarrow> filter (\<lambda>r. cr_Namespace r = n) (concat (map (\<lambda>(m, nc). ?rows m nc) (range_map ns (ag_ByNamespace c)))) =
      (if n \<in> set ns then case ag_ByNamespace c n of None \<Rightarrow> [] | Some nc \<Rightarrow> ?rows n nc else [])" for ns
    by (induction ns) (auto simp: own filter_concat set_range_map split: option.split)
  from this [of nsOrder] assms show ?thesis
    by (auto simp: store_batch_def iterates_def split: option.split)
qed

lemma queried_total:
  fixes query :: "time \<Rightarrow> time \<Rightarrow> string option \<Rightarrow> 's \<Rightarrow> go_error + (time \<times> string \<times> real) option list \<times> go_error option"
  assumes "cost_database sendBatch query table numeric sum_list" "QueryCostRecords query start till n s = Inr records"
  shows "(\<Sum>r\<leftarrow>records. dr_TotalCost r) =
    (\<Sum>row\<leftarrow>selected start till (if n \<noteq> [] then Some n else None) (table s). cr_TotalCost row)"
proof -
  let ?sel = "selected start till (if n \<noteq> [] then Some n else None) (table s)"
  from cost_database.queried [OF assms] obtain gs where
    gs: "records = map daily_record gs" "distinct (map (\<lambda>(d, n, c). (d, n)) gs)"
      "set gs = {(d, n, c). daily_sums sum_list ?sel (d, n) = Some c}" by blast
  have "(\<Sum>r\<leftarrow>records. dr_TotalCost r) = (\<Sum>(d, n, c)\<leftarrow>gs. c)"
    by (simp add: gs(1) comp_def daily_record_def case_prod_unfold)
  also have "\<dots> = (\<Sum>k\<leftarrow>map (\<lambda>(d, n, c). (d, n)) gs. the (daily_sums sum_list ?sel k))"
    using gs(3) by (auto simp: comp_def case_prod_unfold intro!: arg_cong [of _ _ sum_list])
  also have "\<dots> = (\<Sum>k\<in>set (map (\<lambda>(d, n, c). (d, n)) gs). the (daily_sums sum_list ?sel k))"
    by (rule sum_list_distinct [OF gs(2)])
  also have "set (map (\<lambda>(d, n, c). (d, n)) gs) = dom (daily_sums sum_list ?sel)"
    using gs(3) by force
  also have "(\<Sum>k\<in>dom (daily_sums sum_list ?sel). the (daily_sums sum_list ?sel k)) = (\<Sum>row\<leftarrow>?sel. cr_TotalCost row)"
    by (simp add: daily_sums_real sum_group_map group_sum_real)
  finally show ?thesis .
qed

text \<open>
  A query of all namespaces has the records of each of them: those of one namespace are, in the same
  order, the records a query of that namespace alone gives.
\<close>

lemma daily_sums_namespace:
  "daily_sums sum_of (selected start till (Some n) t) (d, m) =
     (if m = n then daily_sums sum_of (selected start till None t) (d, m) else None)"
proof -
  have "filter (\<lambda>r. day_key r = (d, n)) (selected start till (Some n) t) =
      filter (\<lambda>r. day_key r = (d, n)) (selected start till None t)"
    by (auto simp: selected_def day_key_def intro: filter_cong)
  then show ?thesis
    by (auto simp: daily_sums_def selected_def day_key_def)
qed

lemma sorted_days_unique:
  assumes "set xs = set (ys :: (time \<times> string \<times> 'f) list)" "\<forall>x\<in>set ys. fst (snd x) = n"
    and "distinct (map (\<lambda>(d, n, c). (d, n)) xs)" "sorted (map fst xs)"
    and "distinct (map (\<lambda>(d, n, c). (d, n)) ys)" "sorted (map fst ys)"
  shows "xs = ys"
proof -
  have days: "distinct (map fst zs)"
    if "distinct (map (\<lambda>(d, n, c). (d, n)) zs)" "\<forall>x\<in>set zs. fst (snd x) = n" for zs :: "(time \<times> string \<times> 'f) list"
  proof -
    have "map (\<lambda>(d, n, c). (d, n)) zs = map (\<lambda>d. (d, n)) (map fst zs)" using that(2) by auto
    with that(1) show ?thesis by (simp only: distinct_map [of _ "map fst zs"])
  qed
  have "map fst xs = map fst ys"
    using assms days [of xs] days [of ys] by (intro sorted_distinct_set_unique) auto
  moreover have "inj_on fst (set xs \<union> set ys)"
    using days [of ys] assms(1,2,5) by (simp add: distinct_map)
  ultimately show ?thesis by (metis map_inj_on)
qed

lemma namespace_records:
  assumes "cost_database sendBatch query table numeric sum_of" "n \<noteq> []"
    and "QueryCostRecords query start till [] s = Inr records" "QueryCostRecords query start till n s = Inr mine"
  shows "filter (\<lambda>r. dr_Namespace r = n) records = mine"
proof -
  let ?all = "daily_sums sum_of (selected start till None (table s))"
  let ?own = "daily_sums sum_of (selected start till (Some n) (table s))"
  from cost_database.queried [OF assms(1,3)] obtain gs where
    gs: "records = map daily_record gs" "distinct (map (\<lambda>(d, n, c). (d, n)) gs)" "sorted (map fst gs)"
      "set gs = {(d, n, c). ?all (d, n) = Some c}" by auto
  from cost_database.queried [OF assms(1,4)] assms(2) obtain hs where
    hs: "mine = map daily_record hs" "distinct (map (\<lambda>(d, n, c). (d, n)) hs)" "sorted (map fst hs)"
      "set hs = {(d, n, c). ?own (d, n) = Some c}" by auto
  define own where "own = filter (\<lambda>(d, m, c). m = n) gs"
  have "own = hs"
  proof (rule sorted_days_unique)
    show "set own = set hs" by (auto simp: own_def gs(4) hs(4) daily_sums_namespace split: if_splits)
    show "\<forall>x\<in>set hs. fst (snd x) = n" by (auto simp: hs(4) daily_sums_namespace split: if_splits)
    show "distinct (map (\<lambda>(d, n, c). (d, n)) own)" using gs(2) by (simp add: own_def distinct_map_filter)
    show "sorted (map fst own)" using gs(3) by (simp add: own_def sorted_filter)
  qed (rule hs)+
  moreover have "filter (\<lambda>r. dr_Namespace r = n) records = map daily_record own"
    by (simp add: gs(1) own_def filter_map comp_def daily_record_def case_prod_unfold)
  ultimately show ?thesis by (simp add: hs(1))
qed

text \<open>The cost of a record is the sum of the rows of its day and namespace.\<close>

lemma record_costs:
  assumes "cost_database sendBatch query table numeric sum_of" "QueryCostRecords query start till [] s = Inr records"
    and "x \<in> set records"
  shows "dr_TotalCost x = sum_of (map cr_TotalCost
    (filter (\<lambda>row. day_key row = (dr_Date x, dr_Namespace x)) (selected start till None (table s))))"
proof -
  from cost_database.queried [OF assms(1,2)] obtain gs where
    "records = map daily_record gs" "set gs = {(d, n, c). daily_sums sum_of (selected start till None (table s)) (d, n) = Some c}"
    by auto
  with assms(3) show ?thesis by (auto simp: daily_record_def daily_sums_def split: if_splits)
qed

lemma stored_total:
  fixes c :: "real AggregatedCosts"
  assumes db: "cost_database sendBatch query table numeric sum_of"
    and store: "StoreCostRecords sendBatch nsOrder podOrder (Some c) s = (None, s')"
    and orders: "iterates nsOrder (ag_ByNamespace c)" "\<forall>n nc. ag_ByNamespace c n = Some nc \<longrightarrow> distinct (podOrder n)"
    and fresh: "\<forall>r\<in>set (table s). cr_Time r \<noteq> ag_Timestamp c"
    and range: "start \<le> ag_Timestamp c" "ag_Timestamp c < till" and n: "n \<noteq> []"
  shows "(\<Sum>row\<leftarrow>selected start till (Some n) (table s'). cr_TotalCost row) =
    (\<Sum>row\<leftarrow>selected start till (Some n) (table s). cr_TotalCost row) +
    (case ag_ByNamespace c n of None \<Rightarrow> 0
     | Some nc \<Rightarrow> \<Sum>row\<leftarrow>namespace_rows (ag_Timestamp c) (podOrder n) n nc. numeric (cr_TotalCost row))"
proof -
  let ?b = "store_batch nsOrder podOrder c"
  have time: "r \<in> set ?b \<Longrightarrow> cr_Time r = ag_Timestamp c" for r
    by (auto simp: store_batch_def namespace_rows_def cost_row_def split: if_splits)
  have key: "row_key (rounded numeric r) = row_key r" for r by (simp add: rounded_def row_key_def)
  have "table s' = fold insert_row (map (rounded numeric) ?b) (table s)"
    by (rule cost_database.stored [OF db store])
  also have "\<dots> = table s @ map (rounded numeric) ?b"
  proof (rule insert_rows)
    show "distinct (map row_key (map (rounded numeric) ?b))"
      using batch_keys [of nsOrder c podOrder] orders by (simp add: comp_def key iterates_def)
    show "row_key ` set (map (rounded numeric) ?b) \<inter> row_key ` set (table s) = {}"
      using fresh time by (auto simp: key) (auto simp: row_key_def)
  qed
  finally have table: "table s' = table s @ map (rounded numeric) ?b" .
  have "filter (\<lambda>r. start \<le> cr_Time r \<and> cr_Time r < till \<and> cr_Namespace r = n) ?b =
      filter (\<lambda>r. cr_Namespace r = n) ?b"
    by (rule filter_cong) (use time range in auto)
  then have "selected start till (Some n) (map (rounded numeric) ?b) =
      map (rounded numeric) (filter (\<lambda>r. cr_Namespace r = n) ?b)"
    by (simp add: selected_def filter_map comp_def rounded_def)
  then have "(\<Sum>row\<leftarrow>selected start till (Some n) (map (rounded numeric) ?b). cr_TotalCost row) =
      (\<Sum>row\<leftarrow>filter (\<lambda>r. cr_Namespace r = n) ?b. numeric (cr_TotalCost row))"
    by (simp add: comp_def rounded_def)
  then show ?thesis
    unfolding table batch_namespace [OF orders(1)] by (simp add: selected_def split: option.split)
qed

end
