(* ===== verification/Rfc3339.thy ===== *)
theory Rfc3339
  imports Calendar
begin

text \<open>
  \<^verbatim>\<open>time.Parse(time.RFC3339, s)\<close> as the standard library reads it: an hour may have one digit, a
  fraction of a second may follow the seconds after a period or a comma and counts up to the
  nanosecond, and an offset may reach 24 hours. The result is the instant, \<open>None\<close> is an error.
\<close>

section \<open>Parsing\<close>

definition isDigit :: "char \<Rightarrow> bool" where
  "isDigit c \<longleftrightarrow> c \<in> set ''0123456789''"

text \<open>A number of exactly two digits, or of one when it need not be fixed.\<close>

definition getnum :: "bool \<Rightarrow> string \<Rightarrow> (int \<times> string) option" where
  "getnum fixed s = (case s of
     [] \<Rightarrow> None
   | c # r \<Rightarrow> if \<not> isDigit c then None
       else (case r of
           d # r' \<Rightarrow> if isDigit d then Some (int (of_digits [c, d]), r')
                     else if fixed then None else Some (int (of_digits [c]), r)
         | [] \<Rightarrow> if fixed then None else Some (int (of_digits [c]), r)))"

definition skip :: "char \<Rightarrow> string \<Rightarrow> string option" where
  "skip c s = (case s of x # r \<Rightarrow> if x = c then Some r else None | [] \<Rightarrow> None)"

definition get_year :: "string \<Rightarrow> (int \<times> string) option" where
  "get_year s = (if 4 \<le> length s \<and> list_all isDigit (take 4 s)
                 then Some (int (of_digits (take 4 s)), drop 4 s) else None)"

definition is_leap :: "int \<Rightarrow> bool" where
  "is_leap y \<longleftrightarrow> y mod 4 = 0 \<and> (y mod 100 \<noteq> 0 \<or> y mod 400 = 0)"

definition daysIn :: "int \<Rightarrow> int \<Rightarrow> int" where
  "daysIn m y = (if m = 2 then (if is_leap y then 29 else 28)
                 else if m \<in> {4, 6, 9, 11} then 30 else 31)"

text \<open>The nanoseconds of a fraction: its first nine digits, scaled.\<close>

definition get_fraction :: "string \<Rightarrow> int \<times> string" where
  "get_fraction s = (case s of
     c # d # r \<Rightarrow> if (c = CHR ''.'' \<or> c = CHR '','') \<and> isDigit d
       then (let ds = takeWhile isDigit (d # r); used = take 9 ds
             in (int (of_digits used) * 10 ^ (9 - length used), dropWhile isDigit (d # r)))
       else (0, s)
   | _ \<Rightarrow> (0, s))"

definition get_zone :: "string \<Rightarrow> (int \<times> string) option" where
  "get_zone s = (case s of
     [] \<Rightarrow> None
   | c # r \<Rightarrow> if c = CHR ''Z'' then Some (0, r)
       else if length s < 6 \<or> s ! 3 \<noteq> CHR '':'' then None
       else (case (getnum True (take 2 r), getnum True (take 2 (drop 3 r))) of
           (Some (hr, _), Some (mm, _)) \<Rightarrow>
             if 24 < hr \<or> 60 < mm then None
             else if c = CHR ''+'' then Some (hr * hour + mm * minute, drop 5 r)
             else if c = CHR ''-'' then Some (- (hr * hour + mm * minute), drop 5 r)
             else None
         | _ \<Rightarrow> None))"

definition in_range :: "bool \<Rightarrow> 'a \<Rightarrow> 'a option" where
  "in_range b x = (if b then Some x else None)"

definition parse_RFC3339 :: "string \<Rightarrow> time option" where
  "parse_RFC3339 s =
     Option.bind (get_year s) (\<lambda>(y, s).
     Option.bind (skip (CHR ''-'') s) (\<lambda>s.
     Option.bind (getnum True s) (\<lambda>(m, s).
     Option.bind (in_range (1 \<le> m \<and> m \<le> 12) s) (\<lambda>s.
     Option.bind (skip (CHR ''-'') s) (\<lambda>s.
     Option.bind (getnum True s) (\<lambda>(d, s).
     Option.bind (skip (CHR ''T'') s) (\<lambda>s.
     Option.bind (getnum False s) (\<lambda>(hh, s).
     Option.bind (in_range (hh < 24) s) (\<lambda>s.
     Option.bind (skip (CHR '':'') s) (\<lambda>s.
     Option.bind (getnum True s) (\<lambda>(mi, s).
     Option.bind (in_range (mi < 60) s) (\<lambda>s.
     Option.bind (skip (CHR '':'') s) (\<lambda>s.
     Option.bind (getnum True s) (\<lambda>(se, s).
     Option.bind (in_range (se < 60) s) (\<lambda>s.
     (case get_fraction s of (ns, s) \<Rightarrow>
     Option.bind (get_zone s) (\<lambda>(offset, s).
       if s = [] \<and> 1 \<le> d \<and> d \<le> daysIn m y
       then Some (midnight y m d + hh * hour + mi * minute + se * second + ns - offset)
       else None)))))))))))))))))"

section \<open>Rendered instants are read back\<close>

lemma div_step: "0 < k \<Longrightarrow> (y + 1) div k = y div k + (if (y + 1) mod k = 0 then 1 else 0)" for y k :: int
proof -
  assume k: "0 < k"
  define q r where "q = (y + 1) div k" and "r = (y + 1) mod k"
  have y: "y = k * q + (r - 1)" unfolding q_def r_def by (simp add: algebra_simps)
  have r: "0 \<le> r" "r < k" using k by (simp_all add: r_def)
  show ?thesis
  proof (cases "r = 0")
    case True
    have "y div k = q - 1" by (rule int_div_pos_eq [of y k "q - 1" "k - 1"]) (use k y True in \<open>simp_all add: algebra_simps\<close>)
    with True show ?thesis by (simp add: q_def [symmetric] r_def [symmetric])
  next
    case False
    have "y div k = q" by (rule int_div_pos_eq [OF y]) (use r False in simp_all)
    with False show ?thesis by (simp add: q_def [symmetric] r_def [symmetric])
  qed
qed

lemma leap_step: "march (y + 1) - march y = (if is_leap (y + 1) then 366 else 365)"
proof -
  have imp: "(y + 1) mod 400 = 0 \<Longrightarrow> (y + 1) mod 100 = 0" "(y + 1) mod 100 = 0 \<Longrightarrow> (y + 1) mod 4 = 0"
    using dvd_trans [of 100 400 "y + 1"] dvd_trans [of 4 100 "y + 1"] by (simp_all add: dvd_eq_mod_eq_0)
  have step: "march (y + 1) - march y = 365 + (if (y + 1) mod 4 = 0 then 1 else 0) -
      (if (y + 1) mod 100 = 0 then 1 else 0) + (if (y + 1) mod 400 = 0 then 1 else 0)"
  proof -
    have "365 * (y + 1) + (A + a) - (B + b) + (C + c) - (365 * y + A - B + C) = 365 + a - b + c"
      for A B C a b c :: int by simp
    then show ?thesis
      unfolding march_def div_step [of 4 y, OF zero_less_numeral] div_step [of 100 y, OF zero_less_numeral]
        div_step [of 400 y, OF zero_less_numeral] .
  qed
  have aux: "365 + (if A then 1 else 0) - (if B then 1 else 0) + (if C then 1 else 0) =
      (if A \<and> (\<not> B \<or> C) then 366 else 365 :: int)" if "C \<Longrightarrow> B" "B \<Longrightarrow> A" for A B C
    using that by (cases A; cases B; cases C) simp_all
  show ?thesis unfolding is_leap_def step by (rule aux [OF imp])
qed

lemma of_doy_day:
  assumes "0 \<le> doy" "doy < march (y + 1) - march y"
  shows "d_Day (of_doy y doy) \<le> daysIn (d_Month (of_doy y doy)) (d_Year (of_doy y doy))"
proof -
  obtain mp where mp: "mp = (5 * doy + 2) div 153" by blast
  have doy: "doy \<le> 365" using assms leap_step [of y] by (auto split: if_splits)
  have "0 \<le> mp" "mp \<le> 11" unfolding mp using assms(1) doy by linarith+
  then have "mp = 0 \<or> mp = 1 \<or> mp = 2 \<or> mp = 3 \<or> mp = 4 \<or> mp = 5 \<or> mp = 6 \<or> mp = 7 \<or> mp = 8 \<or>
    mp = 9 \<or> mp = 10 \<or> mp = 11" by arith
  moreover have "153 * mp \<le> 5 * doy + 2" "5 * doy + 2 < 153 * mp + 153" unfolding mp by linarith+
  moreover have "of_doy y doy = \<lparr>d_Year = (if mp < 10 then y else y + 1),
      d_Month = (if mp < 10 then mp + 3 else mp - 9), d_Day = doy - (153 * mp + 2) div 5 + 1\<rparr>"
    by (simp add: of_doy_def mp Let_def)
  ultimately show ?thesis
    using assms(2) leap_step [of y] by (auto simp: daysIn_def split: if_splits)
qed

lemma Date_day: "d_Day (Date t) \<le> daysIn (d_Month (Date t)) (d_Year (Date t))"
  using of_doy_day [of "days_of t + 719468 - march (march_year (days_of t + 719468))"]
    march_year [of "days_of t + 719468"] by (simp add: Date_def Let_def)

lemma isDigit_digit: "n < 10 \<Longrightarrow> isDigit (''0123456789'' ! n)"
  unfolding isDigit_def by (rule nth_mem) simp

lemma getnum_pad2:
  assumes "0 \<le> n" "n < 100"
  shows "getnum b (pad2 n @ s) = Some (n, s)"
proof -
  obtain k where k: "n = int k" "k < 100" using assms by (intro that [of "nat n"]) simp_all
  show ?thesis
  proof (cases "k < 10")
    case True
    have "of_digits [CHR ''0'', ''0123456789'' ! k] = k"
      using True by (simp add: of_digits_def of_char_digit)
    with True isDigit_digit [of 0] isDigit_digit [of k] k show ?thesis
      by (simp add: pad2_def itoa_def digits_of.simps [of k] getnum_def)
  next
    case False
    have "k div 10 < 10" using k(2) by simp
    then have digits: "digits_of k = [''0123456789'' ! (k div 10), ''0123456789'' ! (k mod 10)]"
      using False by (simp only: digits_of.simps [of k] digits_of.simps [of "k div 10"] if_True if_False append_Cons append_Nil)
    have num: "of_digits [''0123456789'' ! (k div 10), ''0123456789'' ! (k mod 10)] = k"
      using \<open>k div 10 < 10\<close> by (simp add: of_digits_def of_char_digit del: nth_Cons_numeral)
    have "isDigit (''0123456789'' ! (k div 10))" "isDigit (''0123456789'' ! (k mod 10))"
      using isDigit_digit \<open>k div 10 < 10\<close> by simp_all
    then show ?thesis
      using False k num by (simp add: pad2_def itoa_def digits getnum_def)
  qed
qed

lemma digits_of_length: "n < 10 ^ Suc k \<Longrightarrow> length (digits_of n) \<le> Suc k"
proof (induction k arbitrary: n)
  case 0
  then show ?case by (simp add: digits_of.simps [of n])
next
  case (Suc k)
  then have "length (digits_of (n div 10)) \<le> Suc k" by simp
  then show ?case by (simp add: digits_of.simps [of n])
qed

lemma digits_of_min: "10 ^ k \<le> n \<Longrightarrow> k < length (digits_of n)"
proof (induction k arbitrary: n)
  case 0
  then show ?case by (simp add: digits_of.simps [of n])
next
  case (Suc k)
  then have "10 ^ k \<le> n div 10" using div_le_mono [of "10 ^ Suc k" n 10] by simp
  moreover have "0 < (10::nat) ^ k" by simp
  ultimately have "n div 10 \<noteq> 0" by linarith
  then have "\<not> n < 10" by auto
  with \<open>10 ^ k \<le> n div 10\<close> Suc.IH show ?case by (simp add: digits_of.simps [of n])
qed

lemma digits_of_digits: "list_all isDigit (digits_of n)"
proof (induction n rule: digits_of.induct)
  case (1 n)
  then show ?case using isDigit_digit [of n] isDigit_digit [of "n mod 10"] by (simp add: digits_of.simps [of n])
qed

lemma of_digits_zeros: "of_digits (replicate k (CHR ''0'') @ ds) = of_digits ds"
  by (induction k) (simp_all add: of_digits_def)

lemma pad4:
  assumes "0 \<le> n" "n < 10000"
  shows "length (pad4 n) = 4" "list_all isDigit (pad4 n)" "of_digits (pad4 n) = nat n"
proof -
  obtain k where k: "n = int k" "k < 10000" using assms by (intro that [of "nat n"]) simp_all
  have it: "itoa n = digits_of k" by (simp add: k itoa_def)
  have len: "length (digits_of k) \<le> 4" using digits_of_length [of k 3] k by simp
  have "\<not> k < 1000 \<Longrightarrow> 4 \<le> length (digits_of k)" using digits_of_min [of 3 k] by simp
  with len it k show "length (pad4 n) = 4" by (simp add: pad4_def)
  have "list_all isDigit (replicate j (CHR ''0''))" for j
    using isDigit_digit [of 0] by (induction j) simp_all
  then show "list_all isDigit (pad4 n)" using it k digits_of_digits by (simp add: pad4_def)
  show "of_digits (pad4 n) = nat n" using it k by (simp add: pad4_def of_digits_zeros of_digits_digits_of)
qed

lemma get_year_pad4: "0 \<le> n \<Longrightarrow> n < 10000 \<Longrightarrow> get_year (pad4 n @ s) = Some (n, s)"
  using pad4 [of n] by (simp add: get_year_def)

lemma skip_Cons [simp]: "skip c (c # s) = Some s"
  by (simp add: skip_def)

lemma time_of_day:
  assumes "s = t div second - days_of t * 86400"
  shows "0 \<le> s" "s < 86400"
    "days_of t * day + s div 3600 * hour + s div 60 mod 60 * minute + s mod 60 * second = t div second * second"
proof -
  have d: "days_of t = t div second div 86400"
    by (simp add: days_of_def time_units zdiv_zmult2_eq [symmetric])
  then have s: "s = t div second mod 86400" using assms by (simp add: minus_div_mult_eq_mod)
  then show "0 \<le> s" "s < 86400" by simp_all
  have "s div 60 = 60 * (s div 3600) + s div 60 mod 60"
    using mult_div_mod_eq [of 60 "s div 60"] by (simp add: zdiv_zmult2_eq [of 60 s 60, simplified])
  then have "s = s div 3600 * 3600 + s div 60 mod 60 * 60 + s mod 60"
    using mult_div_mod_eq [of 60 s] by linarith
  then have "(s div 3600 * 3600 + s div 60 mod 60 * 60 + s mod 60) * second = s * second" by simp
  then have "s div 3600 * hour + s div 60 mod 60 * minute + s mod 60 * second = s * second"
    by (simp add: time_units algebra_simps)
  moreover have "days_of t * day + s * second = t div second * second"
    using assms by (simp add: time_units algebra_simps)
  ultimately show "days_of t * day + s div 3600 * hour + s div 60 mod 60 * minute + s mod 60 * second =
    t div second * second" by linarith
qed

lemma parse_parts:
  assumes "0 \<le> y" "y < 10000" "1 \<le> m" "m \<le> 12" "1 \<le> d" "d \<le> daysIn m y" "d < 100"
    and "0 \<le> hh" "hh < 24" "0 \<le> mi" "mi < 60" "0 \<le> se" "se < 60"
  shows "parse_RFC3339 (pad4 y @ CHR ''-'' # pad2 m @ CHR ''-'' # pad2 d @ CHR ''T'' # pad2 hh @ CHR '':'' #
      pad2 mi @ CHR '':'' # pad2 se @ ''Z'') = Some (midnight y m d + hh * hour + mi * minute + se * second)"
proof -
  have frac: "get_fraction ''Z'' = (0, ''Z'')" "get_zone ''Z'' = Some (0, [])"
    by (simp_all add: get_fraction_def get_zone_def)
  show ?thesis
    unfolding parse_RFC3339_def using assms by (simp add: get_year_pad4 getnum_pad2 in_range_def frac)
qed

lemma parse_format:
  assumes "0 \<le> d_Year (Date t)" "d_Year (Date t) \<le> 9999"
  shows "parse_RFC3339 (format_RFC3339 t) = Some (t div second * second)"
proof -
  define s where "s = t div second - days_of t * 86400"
  note s = time_of_day [OF s_def]
  have r: "0 \<le> s div 3600" "s div 3600 < 24" "0 \<le> s div 60 mod 60" "s div 60 mod 60 < 60"
    "0 \<le> s mod 60" "s mod 60 < 60" using s(1,2) by (simp_all add: div_less_iff_less_mult)
  have fmt: "format_RFC3339 t = pad4 (d_Year (Date t)) @ CHR ''-'' # pad2 (d_Month (Date t)) @
      CHR ''-'' # pad2 (d_Day (Date t)) @ CHR ''T'' # pad2 (s div 3600) @ CHR '':'' #
      pad2 (s div 60 mod 60) @ CHR '':'' # pad2 (s mod 60) @ ''Z''"
    by (simp add: format_RFC3339_def format_date_def Let_def s_def)
  have range: "d_Year (Date t) < 10000" "d_Day (Date t) < 100" using assms(2) Date_range(4) [of t] by simp_all
  show ?thesis
    unfolding fmt parse_parts [OF assms(1) range(1) Date_range(1-3) Date_day range(2) r] Date_midnight s(3) ..
qed

end
