(* ===== verification/Api.thy ===== *)
theory Api
  imports Rfc3339 Cost_Collector Forecast Policy_Types Audit_Log
begin

text \<open>
  \<^verbatim>\<open>pkg/api\<close>: the REST server. A request is routed, checked against the role it carries and
  answered by a handler. Routing is done by the \<^verbatim>\<open>chi\<close> library: which methods it routes, whether a
  path matches a pattern and with which parameters is an argument of the definitions. Handlers
  only read: the store of the costs, the policy manager and the audit writer are parameters,
  none of them nil. The times of an answer lie in the years JSON can render.
\<close>

section \<open>Requests and answers\<close>

definition RoleViewer :: string where "RoleViewer = ''viewer''"

definition RoleEditor :: string where "RoleEditor = ''editor''"

definition RoleAdmin :: string where "RoleAdmin = ''admin''"

record ReportParams =
  rp_StartTime :: time
  rp_EndTime :: time
  rp_Namespaces :: "string list"
  rp_Teams :: "string list"

text \<open>
  Of a request: the method, the path of the URL, the path the router goes by (the encoded path of
  the URL, when it has one), the value of the header \<^verbatim>\<open>X-FinOps-Role\<close>, the query (a missing
  key reads as the empty string) and what decoding the body gives, if it can be decoded.
\<close>

record Request =
  rq_Method :: string
  rq_Path :: string
  rq_RoutePath :: string
  rq_Role :: string
  rq_Query :: "string \<Rightarrow> string"
  rq_Body :: "ReportParams option"

record 'f CostRecordResponse =
  rs_TotalCost :: 'f
  rs_Team :: string
  rs_ByNamespace :: "string \<rightharpoonup> 'f"
  rs_Records :: "'f DailyCostRecord list"

record 'f ForecastResponse =
  fr_GeneratedAt :: time
  fr_Namespace :: string
  fr_Periods :: "'f ForecastPeriod list"

record 'f CostReport =
  rt_GeneratedAt :: time
  rt_StartTime :: time
  rt_EndTime :: time
  rt_TotalCost :: 'f
  rt_ByNamespace :: "string \<rightharpoonup> 'f NamespaceCost"
  rt_ByTeam :: "(string \<rightharpoonup> 'f TeamCost) option"

record 'f PolicyStatusEntry =
  ps_Name :: string
  ps_Namespace :: string
  ps_Phase :: string
  ps_CurrentCost :: 'f
  ps_BudgetLimit :: 'f
  ps_BudgetUsagePercent :: 'f
  ps_Mode :: string
  ps_LastEvaluated :: time

text \<open>Error messages, by what they are made of; \<open>EInvalidTime\<close> names the parameter and its text.\<close>

datatype api_message = EText string | EInvalidTime string string | EInvalidBody | ENoCostData string | ENoPolicy string

datatype 'f body =
    BFields "(string \<times> string) list"
  | BCosts "'f CostRecordResponse"
  | BForecasts "'f ForecastResponse list"
  | BForecast "'f ForecastResponse"
  | BReport "'f CostReport"
  | BPolicies "'f PolicyStatusEntry list"
  | BPolicy "'f PolicyStatusEntry"
  | BRecommendations
  | BEntries "'f AuditLogEntry list"
  | BError api_message int
  | BNone

text \<open>
  An answer is a status and a body; encoding a number that is not finite fails after the status
  has been sent, and leaves the body empty.
\<close>

record 'f Response =
  re_Status :: int
  re_Body :: "'f body"

section \<open>Encoding\<close>

definition finite_num :: "'f::{zero,minus} \<Rightarrow> bool" where
  "finite_num x \<longleftrightarrow> x - x = 0"

definition costs_encodable :: "'f::{zero,minus} CostRecordResponse \<Rightarrow> bool" where
  "costs_encodable r \<longleftrightarrow> finite_num (rs_TotalCost r) \<and>
     list_all (\<lambda>x. finite_num (dr_TotalCost x) \<and> finite_num (at0 (rs_ByNamespace r) (dr_Namespace x))) (rs_Records r)"

definition report_encodable :: "'f DailyCostRecord list \<Rightarrow> 'f::{zero,minus} CostReport \<Rightarrow> bool" where
  "report_encodable records r \<longleftrightarrow> finite_num (rt_TotalCost r) \<and>
     list_all (\<lambda>x. case rt_ByNamespace r (dr_Namespace x) of
       Some ns \<Rightarrow> finite_num (nc_TotalCost ns) | None \<Rightarrow> True) records"

definition entry_encodable :: "'f::{zero,minus} PolicyStatusEntry \<Rightarrow> bool" where
  "entry_encodable e \<longleftrightarrow>
     finite_num (ps_CurrentCost e) \<and> finite_num (ps_BudgetLimit e) \<and> finite_num (ps_BudgetUsagePercent e)"

definition audit_encodable :: "'f::{zero,minus} AuditLogEntry \<Rightarrow> bool" where
  "audit_encodable e \<longleftrightarrow> finite_num (al_ExpectedSavings e) \<and> marshal_details (al_Details e) \<noteq> None"

definition writeJSON :: "int \<Rightarrow> bool \<Rightarrow> 'f body \<Rightarrow> 'f Response" where
  "writeJSON status encodes v = \<lparr>re_Status = status, re_Body = (if encodes then v else BNone)\<rparr>"

definition writeError :: "int \<Rightarrow> api_message \<Rightarrow> 'f Response" where
  "writeError status message = writeJSON status True (BError message status)"

lemma finite_num_f64: "finite_num x \<longleftrightarrow> is_fin x" for x :: f64
proof (cases "is_fin x")
  case True
  then show ?thesis using fin_ops(2) [of x x] by (simp add: finite_num_def mk_0)
next
  case False
  then have "x - x \<noteq> 0" unfolding minus_f64_def by transfer (auto split: fval.splits)
  with False show ?thesis by (simp add: finite_num_def)
qed

section \<open>Access control\<close>

text \<open>
  \<^verbatim>\<open>strings.ToLower\<close>, as far as the comparison with a role can tell: outside ASCII only the letters
  U+0130 and U+212A have a lower case in ASCII, every other one is kept.
\<close>

definition lower_char :: "char \<Rightarrow> char" where
  "lower_char c = (if 65 \<le> (of_char c :: nat) \<and> (of_char c :: nat) \<le> 90
                   then char_of (of_char c + 32 :: nat) else c)"

fun ToLower :: "string \<Rightarrow> string" where
  "ToLower [] = []"
| "ToLower (c # s) =
     (if prefix [CHR 0xC4, CHR 0xB0] (c # s) then CHR ''i'' # ToLower (drop 1 s)
      else if prefix [CHR 0xE2, CHR 0x84, CHR 0xAA] (c # s) then CHR ''k'' # ToLower (drop 2 s)
      else lower_char c # ToLower s)"

definition isAuthorized :: "string \<Rightarrow> string \<Rightarrow> string \<Rightarrow> bool" where
  "isAuthorized role meth path =
     (if role = RoleAdmin then True
      else if role = RoleEditor then
        (if meth = ''GET'' then True
         else if meth = ''POST'' \<or> meth = ''PUT'' then
           (if HasPrefix path ''/api/v1/policies'' \<or> HasPrefix path ''/api/v1/reports'' \<or>
               HasPrefix path ''/api/v1/recommendations'' then True else False)
         else False)
      else if role = RoleViewer then meth = ''GET''
      else False)"

definition RBACMiddleware :: "(Request \<Rightarrow> 'f Response) \<Rightarrow> Request \<Rightarrow> 'f Response" where
  "RBACMiddleware next_handler r =
     (let role0 = ToLower (rq_Role r);
          role = (if role0 = [] then RoleViewer else role0)
      in if \<not> isAuthorized role (rq_Method r) (rq_Path r)
         then writeError 403 (EText ''forbidden: insufficient permissions'')
         else next_handler r)"

section \<open>Helpers of the handlers\<close>

definition buildCostResponse :: "'f DailyCostRecord list \<Rightarrow> 'f::{zero,plus} CostRecordResponse" where
  "buildCostResponse records =
     fold (\<lambda>r resp. resp\<lparr>rs_TotalCost := rs_TotalCost resp + dr_TotalCost r,
                        rs_ByNamespace := add_at (dr_Namespace r) (dr_TotalCost r) (rs_ByNamespace resp)\<rparr>)
       records \<lparr>rs_TotalCost = 0, rs_Team = [], rs_ByNamespace = Map.empty, rs_Records = records\<rparr>"

definition report_namespace :: "string \<Rightarrow> 'f::zero NamespaceCost" where
  "report_namespace ns = \<lparr>nc_Namespace = ns, nc_Team = [], nc_DirectCost = 0, nc_SharedCost = 0,
     nc_TotalCost = 0, nc_ByService = Map.empty, nc_ByPod = Map.empty, nc_IsApproximate = False\<rparr>"

definition add_record ::
    "'f DailyCostRecord \<Rightarrow> 'f \<times> (string \<rightharpoonup> 'f NamespaceCost) \<Rightarrow> 'f::{zero,plus} \<times> (string \<rightharpoonup> 'f NamespaceCost)" where
  "add_record r st = (case st of (totalCost, byNamespace) \<Rightarrow>
     let ns = (case byNamespace (dr_Namespace r) of Some ns \<Rightarrow> ns | None \<Rightarrow> report_namespace (dr_Namespace r))
     in (totalCost + dr_TotalCost r,
         byNamespace(dr_Namespace r \<mapsto> ns\<lparr>nc_TotalCost := nc_TotalCost ns + dr_TotalCost r\<rparr>)))"

definition buildCostReport :: "time \<Rightarrow> ReportParams \<Rightarrow> 'f DailyCostRecord list \<Rightarrow> 'f::{zero,plus} CostReport" where
  "buildCostReport now params records =
     (case fold add_record records (0, Map.empty) of (totalCost, byNamespace) \<Rightarrow>
       \<lparr>rt_GeneratedAt = now, rt_StartTime = rp_StartTime params, rt_EndTime = rp_EndTime params,
        rt_TotalCost = totalCost, rt_ByNamespace = byNamespace, rt_ByTeam = None\<rparr>)"

definition parseTimeRange :: "time \<Rightarrow> Request \<Rightarrow> api_message + time \<times> time" where
  "parseTimeRange now r =
     (let startStr = rq_Query r ''start''; endStr = rq_Query r ''end'' in
      case (if startStr \<noteq> [] then parse_RFC3339 startStr else Some (now - 24 * hour)) of
        None \<Rightarrow> Inl (EInvalidTime ''start'' startStr)
      | Some start \<Rightarrow>
          (case (if endStr \<noteq> [] then parse_RFC3339 endStr else Some now) of
             None \<Rightarrow> Inl (EInvalidTime ''end'' endStr)
           | Some till \<Rightarrow> Inr (start, till)))"

definition status_entry :: "'f FinancialPolicy \<Rightarrow> 'f PolicyStatusEntry" where
  "status_entry p =
     \<lparr>ps_Name = Name p, ps_Namespace = TargetNamespace (Spec p), ps_Phase = Phase (Status p),
      ps_CurrentCost = CurrentCost (Status p), ps_BudgetLimit = MonthlyLimit (Budget (Spec p)),
      ps_BudgetUsagePercent = BudgetUsagePercent (Status p), ps_Mode = Mode (Spec p),
      ps_LastEvaluated = (case LastEvaluated (Status p) of Some t \<Rightarrow> t | None \<Rightarrow> zero_time)\<rparr>"

section \<open>The handlers\<close>

text \<open>\<open>params\<close> are the parameters of the matched pattern; a missing one reads as the empty string.\<close>

record ('f, 'e) Server =
  sr_QueryCostRecords :: "time \<Rightarrow> time \<Rightarrow> string \<Rightarrow> store_error + 'f DailyCostRecord list"
  sr_ListPolicies :: "'e + 'f FinancialPolicy list"
  sr_QueryEntries :: "AuditQueryFilters \<Rightarrow> audit_error + 'f AuditLogEntry list"

type_synonym ('f, 'e) handler = "('f, 'e) Server \<Rightarrow> time \<Rightarrow> (string \<Rightarrow> string) \<Rightarrow> Request \<Rightarrow> 'f Response"

definition handleHealthz :: "('f, 'e) handler" where
  "handleHealthz s now params r = writeJSON 200 True (BFields [(''status'', ''ok'')])"

definition handleReadyz :: "('f, 'e) handler" where
  "handleReadyz s now params r = writeJSON 200 True (BFields [(''status'', ''ready'')])"

definition handleGetCosts :: "('f::{zero,plus,minus}, 'e) handler" where
  "handleGetCosts s now params r =
     (case parseTimeRange now r of Inl err \<Rightarrow> writeError 400 err
      | Inr (start, till) \<Rightarrow>
      (case sr_QueryCostRecords s start till [] of
         Inl err \<Rightarrow> writeError 500 (EText ''failed to query cost records'')
       | Inr records \<Rightarrow> let resp = buildCostResponse records
                        in writeJSON 200 (costs_encodable resp) (BCosts resp)))"

definition handleGetCostsByNamespace :: "('f::{zero,plus,minus}, 'e) handler" where
  "handleGetCostsByNamespace s now params r =
     (let namespace = params ''namespace'' in
      if namespace = [] then writeError 400 (EText ''namespace is required'')
      else case parseTimeRange now r of Inl err \<Rightarrow> writeError 400 err
      | Inr (start, till) \<Rightarrow>
      (case sr_QueryCostRecords s start till namespace of
         Inl err \<Rightarrow> writeError 500 (EText ''failed to query cost records'')
       | Inr records \<Rightarrow> if length records = 0 then writeError 404 (ENoCostData namespace)
           else let resp = buildCostResponse records in writeJSON 200 (costs_encodable resp) (BCosts resp)))"

definition handleGetCostsByTeam :: "('f::{zero,plus,minus}, 'e) handler" where
  "handleGetCostsByTeam s now params r =
     (let team = params ''team'' in
      if team = [] then writeError 400 (EText ''team is required'')
      else case parseTimeRange now r of Inl err \<Rightarrow> writeError 400 err
      | Inr (start, till) \<Rightarrow>
      (case sr_QueryCostRecords s start till [] of
         Inl err \<Rightarrow> writeError 500 (EText ''failed to query cost records'')
       | Inr records \<Rightarrow> let resp = (buildCostResponse records)\<lparr>rs_Team := team\<rparr>
                        in writeJSON 200 (costs_encodable resp) (BCosts resp)))"

definition handleGetForecasts :: "('f, 'e) handler" where
  "handleGetForecasts s now params r = writeJSON 200 True (BForecasts [])"

definition handleGetForecastsByNamespace :: "('f, 'e) handler" where
  "handleGetForecastsByNamespace s now params r =
     (let namespace = params ''namespace'' in
      if namespace = [] then writeError 400 (EText ''namespace is required'')
      else writeJSON 200 True
        (BForecast \<lparr>fr_GeneratedAt = zero_time, fr_Namespace = namespace, fr_Periods = []\<rparr>))"

definition handleGenerateReport :: "('f::{zero,plus,minus}, 'e) handler" where
  "handleGenerateReport s now params r =
     (case rq_Body r of None \<Rightarrow> writeError 400 EInvalidBody
      | Some p \<Rightarrow>
        if rp_StartTime p = zero_time \<or> rp_EndTime p = zero_time
        then writeError 400 (EText ''start_time and end_time are required'')
        else if rp_EndTime p < rp_StartTime p
        then writeError 400 (EText ''end_time must be after start_time'')
        else (case sr_QueryCostRecords s (rp_StartTime p) (rp_EndTime p) [] of
            Inl err \<Rightarrow> writeError 500 (EText ''failed to generate report'')
          | Inr records \<Rightarrow> let report = buildCostReport now p records
                           in writeJSON 200 (report_encodable records report) (BReport report)))"

definition handleListPolicies :: "('f::{zero,minus}, 'e) handler" where
  "handleListPolicies s now params r =
     (case sr_ListPolicies s of Inl err \<Rightarrow> writeError 500 (EText ''failed to list policies'')
      | Inr policies \<Rightarrow> let entries = map status_entry policies
                        in writeJSON 200 (list_all entry_encodable entries) (BPolicies entries))"

definition handleGetPolicyStatus :: "('f::{zero,minus}, 'e) handler" where
  "handleGetPolicyStatus s now params r =
     (let name = params ''name'' in
      if name = [] then writeError 400 (EText ''policy name is required'')
      else case sr_ListPolicies s of Inl err \<Rightarrow> writeError 500 (EText ''failed to get policy status'')
      | Inr policies \<Rightarrow> (case find (\<lambda>p. Name p = name) policies of
          Some p \<Rightarrow> let entry = status_entry p in writeJSON 200 (entry_encodable entry) (BPolicy entry)
        | None \<Rightarrow> writeError 404 (ENoPolicy name)))"

definition handleGetInstanceMix :: "('f, 'e) handler" where
  "handleGetInstanceMix s now params r =
     writeJSON 200 True (BFields [(''status'', ''stub''), (''message'', ''instance mix analysis not yet implemented'')])"

definition handleGetRecommendations :: "('f, 'e) handler" where
  "handleGetRecommendations s now params r = writeJSON 200 True BRecommendations"

definition handleApproveRecommendation :: "('f, 'e) handler" where
  "handleApproveRecommendation s now params r =
     (let id' = params ''id'' in
      if id' = [] then writeError 400 (EText ''recommendation id is required'')
      else writeJSON 200 True (BFields [(''status'', ''stub''), (''id'', id'),
        (''message'', ''recommendation approval not yet implemented'')]))"

definition handleGetAuditLog :: "('f::{zero,minus}, 'e) handler" where
  "handleGetAuditLog s now params r =
     (let filters = \<lparr>qf_Actor = rq_Query r ''actor'', qf_Action = rq_Query r ''action'',
            qf_ResourceType = rq_Query r ''resource_type'', qf_Namespace = rq_Query r ''namespace'',
            qf_StartTime = zero_time, qf_EndTime = zero_time, qf_Limit = 0\<rparr> in
      case sr_QueryEntries s filters of Inl err \<Rightarrow> writeError 500 (EText ''failed to query audit log'')
      | Inr entries \<Rightarrow> writeJSON 200 (list_all audit_encodable entries) (BEntries entries))"

section \<open>Routes\<close>

definition probe_routes :: "(string \<times> string \<times> ('f, 'e) handler) list" where
  "probe_routes = [(''GET'', ''/healthz'', handleHealthz), (''GET'', ''/readyz'', handleReadyz)]"

definition api_routes :: "(string \<times> string \<times> ('f::{zero,plus,minus}, 'e) handler) list" where
  "api_routes =
     [(''GET'', ''/costs'', handleGetCosts),
      (''GET'', ''/costs/namespaces/{namespace}'', handleGetCostsByNamespace),
      (''GET'', ''/costs/teams/{team}'', handleGetCostsByTeam),
      (''GET'', ''/forecasts'', handleGetForecasts),
      (''GET'', ''/forecasts/{namespace}'', handleGetForecastsByNamespace),
      (''POST'', ''/reports'', handleGenerateReport),
      (''GET'', ''/policies'', handleListPolicies),
      (''GET'', ''/policies/{name}/status'', handleGetPolicyStatus),
      (''GET'', ''/instance-mix'', handleGetInstanceMix),
      (''GET'', ''/recommendations'', handleGetRecommendations),
      (''POST'', ''/recommendations/{id}/approve'', handleApproveRecommendation),
      (''GET'', ''/audit-log'', handleGetAuditLog)]"

text \<open>
  \<open>ch_Match\<close> tells whether a path matches a pattern, and the parameters: a path that matches no pattern
  is answered with 404, one that matches only patterns of other methods with 405. \<open>ch_Routes\<close> are
  the methods the router knows; it answers any other with 405 before it looks at the path.
\<close>

record ChiRouter =
  ch_Routes :: "string \<Rightarrow> bool"
  ch_Match :: "string \<Rightarrow> string \<Rightarrow> (string \<Rightarrow> string) option"

definition serve_routes ::
    "ChiRouter \<Rightarrow> (string \<times> string \<times> ('f, 'e) handler) list \<Rightarrow>
     ('f, 'e) Server \<Rightarrow> time \<Rightarrow> string \<Rightarrow> Request \<Rightarrow> 'f Response" where
  "serve_routes chi routes s now path r =
     (case find (\<lambda>(m, pat, h). m = rq_Method r \<and> ch_Match chi pat path \<noteq> None) routes of
        Some (m, pat, h) \<Rightarrow> h s now (the (ch_Match chi pat path)) r
      | None \<Rightarrow> \<lparr>re_Status = (if list_ex (\<lambda>(m, pat, h). ch_Match chi pat path \<noteq> None) routes then 405 else 404),
                 re_Body = BNone\<rparr>)"

text \<open>The paths of the subrouter at \<^verbatim>\<open>/api/v1\<close>, and the path it goes by.\<close>

definition mounted :: "string \<Rightarrow> bool" where
  "mounted path \<longleftrightarrow> path = ''/api/v1'' \<or> HasPrefix path ''/api/v1/''"

definition below_mount :: "string \<Rightarrow> string" where
  "below_mount path = ''/'' @ TrimPrefix (TrimPrefix path ''/api/v1'') ''/''"

definition ServeHTTP ::
    "ChiRouter \<Rightarrow> ('f::{zero,plus,minus}, 'e) Server \<Rightarrow> time \<Rightarrow> Request \<Rightarrow> 'f Response" where
  "ServeHTTP chi s now r =
     (if \<not> ch_Routes chi (rq_Method r) then \<lparr>re_Status = 405, re_Body = BNone\<rparr>
      else if mounted (rq_RoutePath r)
      then RBACMiddleware (\<lambda>r. serve_routes chi api_routes s now (below_mount (rq_RoutePath r)) r) r
      else serve_routes chi probe_routes s now (rq_RoutePath r) r)"

section \<open>The statuses of the handlers\<close>

lemma write_status [simp]: "re_Status (writeJSON st b v) = st" "re_Status (writeError st msg) = st"
  by (simp_all add: writeJSON_def writeError_def)

lemmas handler_defs =
  handleHealthz_def handleReadyz_def handleGetCosts_def handleGetCostsByNamespace_def handleGetCostsByTeam_def
  handleGetForecasts_def handleGetForecastsByNamespace_def handleGenerateReport_def handleListPolicies_def
  handleGetPolicyStatus_def handleGetInstanceMix_def handleGetRecommendations_def
  handleApproveRecommendation_def handleGetAuditLog_def

definition answered :: "'f Response \<Rightarrow> bool" where
  "answered x \<longleftrightarrow> re_Status x \<in> {200, 400, 404, 405, 500}"

lemma answered_write [simp]:
  "answered (writeJSON 200 b v)" "answered (writeError 400 msg)" "answered (writeError 404 msg)"
  "answered (writeError 500 msg)"
  by (simp_all add: answered_def)

lemma handler_answers: "(m, pat, h) \<in> set api_routes \<union> set probe_routes \<Longrightarrow> answered (h s now ps r)"
  unfolding api_routes_def probe_routes_def handler_defs Let_def
  by (auto split: option.split sum.split prod.split)

lemma serve_answers:
  assumes "set routes \<subseteq> set api_routes \<union> set probe_routes"
  shows "answered (serve_routes chi routes s now path r)"
proof (cases "find (\<lambda>(m, pat, h). m = rq_Method r \<and> ch_Match chi pat path \<noteq> None) routes")
  case None
  then show ?thesis by (simp add: serve_routes_def answered_def)
next
  case (Some x)
  then obtain i where "i < length routes" "x = routes ! i" unfolding find_Some_iff by blast
  then have "x \<in> set routes" by simp
  moreover obtain m pat h where x: "x = (m, pat, h)" by (cases x)
  ultimately have "answered (h s now (the (ch_Match chi pat path)) r)" using assms handler_answers by blast
  then show ?thesis unfolding serve_routes_def Some x by simp
qed

section \<open>Grouping the records\<close>

lemma response_fold:
  "fold (\<lambda>r resp. resp\<lparr>rs_TotalCost := rs_TotalCost resp + dr_TotalCost r,
       rs_ByNamespace := add_at (dr_Namespace r) (dr_TotalCost r) (rs_ByNamespace resp)\<rparr>) records
     \<lparr>rs_TotalCost = 0, rs_Team = [], rs_ByNamespace = Map.empty, rs_Records = all_records\<rparr> =
   \<lparr>rs_TotalCost = group_sum (\<lambda>_. True) dr_TotalCost records, rs_Team = [],
    rs_ByNamespace = group_map dr_Namespace (\<lambda>_. True) dr_TotalCost records, rs_Records = all_records\<rparr>"
  by (induction records rule: rev_induct) (simp_all add: group_map_snoc group_sum_snoc)

lemma report_fold:
  "fold add_record records (0, Map.empty) =
     (group_sum (\<lambda>_. True) dr_TotalCost records,
      \<lambda>ns. map_option (\<lambda>c. (report_namespace ns)\<lparr>nc_TotalCost := c\<rparr>)
        (group_map dr_Namespace (\<lambda>_. True) dr_TotalCost records ns))"
proof (induction records rule: rev_induct)
  case (snoc r records)
  have "add_record r (t, \<lambda>ns. map_option (\<lambda>c. (report_namespace ns)\<lparr>nc_TotalCost := c\<rparr>) (m ns)) =
      (t + dr_TotalCost r, \<lambda>ns. map_option (\<lambda>c. (report_namespace ns)\<lparr>nc_TotalCost := c\<rparr>)
         (add_at (dr_Namespace r) (dr_TotalCost r) m ns))" for t m
    by (auto simp: add_record_def add_at_def Let_def report_namespace_def fun_eq_iff split: option.split)
  then show ?case using snoc by (simp add: group_map_snoc group_sum_snoc)
qed simp

section \<open>Properties\<close>

text \<open>C5: exactly the requests below \<^verbatim>\<open>/api/v1\<close> that their role does not permit are answered with 403,
  before any handler runs: an admin may do everything; a viewer, an editor and a request without
  a role may read; an editor may also send POST and PUT requests to paths that begin like those of
  the policies, the reports and the recommendations; upper and lower case do not matter. A role that
  is none of these three is permitted nothing, reading included: only a missing or empty header makes a
  viewer, although the comment of the middleware says so of every request without a valid role. The
  methods are those the router knows.\<close>

theorem rbac_enforced:
  "re_Status (ServeHTTP chi s now r) = 403 \<longleftrightarrow>
     ch_Routes chi (rq_Method r) \<and> mounted (rq_RoutePath r) \<and>
     (let role = ToLower (rq_Role r) in
      \<not> (role = ''admin'' \<or> rq_Method r = ''GET'' \<and> role \<in> {[], ''viewer'', ''editor''} \<or>
         role = ''editor'' \<and> rq_Method r \<in> {''POST'', ''PUT''} \<and>
         (\<exists>p\<in>{''policies'', ''reports'', ''recommendations''}. HasPrefix (rq_Path r) (''/api/v1/'' @ p))))"
proof -
  have api: "re_Status (serve_routes chi api_routes s now p r) \<noteq> 403"
    "re_Status (serve_routes chi probe_routes s now p r) \<noteq> 403" for p
    using serve_answers [of api_routes chi s now p r] serve_answers [of probe_routes chi s now p r]
    by (auto simp: answered_def)
  have "isAuthorized (if role = [] then RoleViewer else role) m p \<longleftrightarrow>
      role = ''admin'' \<or> m = ''GET'' \<and> role \<in> {[], ''viewer'', ''editor''} \<or>
      role = ''editor'' \<and> m \<in> {''POST'', ''PUT''} \<and>
      (\<exists>q\<in>{''policies'', ''reports'', ''recommendations''}. HasPrefix p (''/api/v1/'' @ q))" for role m p
    by (auto simp: isAuthorized_def RoleViewer_def RoleEditor_def RoleAdmin_def)
  then show ?thesis
    by (simp add: ServeHTTP_def RBACMiddleware_def Let_def api)
qed

text \<open>The costs of a response and of a report are grouped alike: both have an entry for exactly the
  namespaces of the records, with the running sum of their costs, and the running sum of all
  costs as the total; in exact arithmetic the total is the sum over the namespaces.\<close>

lemma responses_group_records:
  "buildCostResponse records =
     \<lparr>rs_TotalCost = group_sum (\<lambda>_. True) dr_TotalCost records, rs_Team = [],
      rs_ByNamespace = group_map dr_Namespace (\<lambda>_. True) dr_TotalCost records, rs_Records = records\<rparr> \<and>
   rt_TotalCost (buildCostReport now params records) = rs_TotalCost (buildCostResponse records) \<and>
   rt_ByNamespace (buildCostReport now params records) =
     (\<lambda>ns. map_option (\<lambda>c. (report_namespace ns)\<lparr>nc_TotalCost := c\<rparr>) (rs_ByNamespace (buildCostResponse records) ns)) \<and>
   (\<Sum>ns\<in>dom (rs_ByNamespace (buildCostResponse days)). the (rs_ByNamespace (buildCostResponse days) ns)) =
     (rs_TotalCost (buildCostResponse days) :: real)"
  by (simp add: buildCostResponse_def response_fold buildCostReport_def report_fold sum_group_map)

text \<open>C39: a time range given as RFC 3339 renderings of two instants of the years 0 to 9999 is read as
  these instants, to the second.\<close>

theorem time_range_roundtrip:
  assumes "rq_Query r ''start'' = format_RFC3339 a" "rq_Query r ''end'' = format_RFC3339 b"
    and "0 \<le> d_Year (Date a)" "d_Year (Date a) \<le> 9999" "0 \<le> d_Year (Date b)" "d_Year (Date b) \<le> 9999"
  shows "parseTimeRange now r = Inr (a div second * second, b div second * second)"
proof -
  have "format_RFC3339 t \<noteq> []" for t by (simp add: format_RFC3339_def Let_def)
  with assms show ?thesis
    using parse_format [of a] parse_format [of b] by (simp add: parseTimeRange_def Let_def)
qed

subsection \<open>The properties at work\<close>

definition demo_request :: Request where
  "demo_request = \<lparr>rq_Method = ''GET'', rq_Path = ''/api/v1/costs'', rq_RoutePath = ''/api/v1/costs'', rq_Role = ''Viewer'',
     rq_Query = (\<lambda>k. if k = ''start'' then format_RFC3339 0 else if k = ''end'' then format_RFC3339 (90 * second + 5)
                    else []), rq_Body = None\<rparr>"

text \<open>A guest may not read, a viewer and a request without a role may.\<close>

definition demo_chi :: ChiRouter where
  "demo_chi = \<lparr>ch_Routes = (\<lambda>_. True), ch_Match = (\<lambda>_ _. None)\<rparr>"

lemma rbac_enforced_witness:
  "\<forall>s now. re_Status (ServeHTTP demo_chi s now (demo_request\<lparr>rq_Role := ''guest''\<rparr>)) = 403 \<and>
     re_Status (ServeHTTP demo_chi s now demo_request) \<noteq> 403 \<and>
     re_Status (ServeHTTP demo_chi s now (demo_request\<lparr>rq_Role := []\<rparr>)) \<noteq> 403"
proof -
  have "mounted ''/api/v1/costs''" by (simp add: mounted_def HasPrefix_def)
  moreover have "ToLower ''guest'' = ''guest''" "ToLower ''Viewer'' = ''viewer''" by code_simp+
  ultimately show ?thesis
    unfolding rbac_enforced by (simp add: demo_request_def demo_chi_def)
qed

lemma time_range_roundtrip_witness:
  "parseTimeRange 7 demo_request = Inr (0, 90 * second)"
proof -
  have "d_Year (Date 0) = 1970" "d_Year (Date (90 * second + 5)) = 1970"
    by code_simp+
  then show ?thesis
    using time_range_roundtrip [of demo_request 0 "90 * second + 5" 7]
    by (simp add: demo_request_def time_units)
qed

end
