(* ===== verification/Audit_Table.thy ===== *)
theory Audit_Table
  imports Audit_Log "HOL-Library.Multiset"
begin

text \<open>
  The table \<^verbatim>\<open>audit_log\<close> (\<^verbatim>\<open>migrations/003_create_audit_log.sql\<close>) behind the writer of \<^verbatim>\<open>pkg/audit/writer.go\<close>:
  what its columns make of the values that are inserted, what a \<^verbatim>\<open>SELECT\<close> of the kind the writer builds
  means, read from the text of the statement, and the contract of the database. Entries are read back
  through the columns: by the names in the statements and by the order in which the rows are scanned.
\<close>

section \<open>Rows\<close>

text \<open>A record of the table has a value for every column.\<close>

type_synonym 'f audit_record = "string \<Rightarrow> 'f column"

text \<open>\<^verbatim>\<open>TIMESTAMPTZ\<close> keeps microseconds.\<close>

definition micros :: "time \<Rightarrow> time" where
  "micros t = t div 1000 * 1000"

text \<open>The columns of the \<^verbatim>\<open>INSERT\<close> with its arguments.\<close>

definition insert_values :: "'f AuditRow \<Rightarrow> (string \<times> 'f column) list" where
  "insert_values r =
     [(''timestamp'', CTime (ar_timestamp r)), (''actor'', CText (ar_actor r)), (''action'', CText (ar_action r)),
      (''resource_type'', CText (ar_resource_type r)), (''resource_name'', CText (ar_resource_name r)),
      (''namespace'', CText (ar_namespace r)),
      (''details'', case ar_details r of None \<Rightarrow> CNull | Some ds \<Rightarrow> CJson (Some ds)),
      (''reason'', CMessage (ar_reason r)), (''expected_savings'', CNum (ar_expected_savings r)),
      (''result'', CText (ar_result r))]"

text \<open>\<open>numeric\<close> is what becomes of a number that is stored in the column \<^verbatim>\<open>NUMERIC(12,6)\<close> and read back.\<close>

fun to_column :: "('f \<Rightarrow> 'f) \<Rightarrow> 'f column \<Rightarrow> 'f column" where
  "to_column numeric (CTime t) = CTime (micros t)"
| "to_column numeric (CNum x) = CNum (numeric x)"
| "to_column numeric v = v"

definition stored_record :: "('f \<Rightarrow> 'f) \<Rightarrow> int \<Rightarrow> 'f AuditRow \<Rightarrow> 'f audit_record" where
  "stored_record numeric i r col =
     (if col = ''id'' then CInt i
      else case map_of (insert_values r) col of None \<Rightarrow> CNull | Some v \<Rightarrow> to_column numeric v)"

section \<open>The meaning of a query\<close>

text \<open>
  A statement \<^verbatim>\<open>SELECT c, ... FROM t WHERE c op $i AND ... ORDER BY timestamp DESC LIMIT $j\<close> is read word by
  word: its columns, its conditions and the placeholder of its limit.
\<close>

fun words :: "string \<Rightarrow> string list" where
  "words [] = [[]]"
| "words (c # s) = (if c = CHR '' '' then [] # words s
     else case words s of [] \<Rightarrow> [[c]] | w # ws \<Rightarrow> (c # w) # ws)"

fun conditions :: "string list \<Rightarrow> (string \<times> string \<times> string) list \<times> string list" where
  "conditions (kw # col # op # ph # ws) =
     (if kw \<in> {''WHERE'', ''AND''} then (case conditions ws of (cs, rest) \<Rightarrow> ((col, op, ph) # cs, rest))
      else ([], kw # col # op # ph # ws))"
| "conditions ws = ([], ws)"

definition parse_select :: "string \<Rightarrow> (string list \<times> (string \<times> string \<times> string) list \<times> string) option" where
  "parse_select stmt =
     (let ws = words stmt; cols = takeWhile (\<lambda>w. w \<noteq> ''FROM'') (tl ws) in
      if hd ws \<noteq> ''SELECT'' then None
      else case conditions (drop (length cols + 3) ws) of
        (conds, [w1, w2, w3, w4, w5, ph]) \<Rightarrow>
          if [w1, w2, w3, w4, w5] = [''ORDER'', ''BY'', ''timestamp'', ''DESC'', ''LIMIT'']
          then Some (map (filter (\<lambda>c. c \<noteq> CHR '','')) cols, conds, ph) else None
      | _ \<Rightarrow> None)"

text \<open>The argument of a placeholder, and whether a record meets a condition.\<close>

definition argument :: "sql_arg list \<Rightarrow> string \<Rightarrow> sql_arg option" where
  "argument args ph = map_option ((!) args) (find (\<lambda>i. ph = ''$'' @ itoa (int (Suc i))) [0..<length args])"

definition compares :: "'f column \<Rightarrow> string \<Rightarrow> sql_arg \<Rightarrow> bool" where
  "compares v op arg = (case (v, arg) of
     (CText s, AText a) \<Rightarrow> op = ''='' \<and> s = a
   | (CTime t, ATime a) \<Rightarrow> op = ''>='' \<and> micros a \<le> t \<or> op = ''<='' \<and> t \<le> micros a
   | _ \<Rightarrow> False)"

definition meets :: "sql_arg list \<Rightarrow> 'f audit_record \<Rightarrow> string \<times> string \<times> string \<Rightarrow> bool" where
  "meets args rec cond = (case cond of (col, op, ph) \<Rightarrow>
     (case argument args ph of None \<Rightarrow> False | Some arg \<Rightarrow> compares (rec col) op arg))"

definition time_of :: "'f audit_record \<Rightarrow> time" where
  "time_of rec = (case as_time (rec ''timestamp'') of Some t \<Rightarrow> t | None \<Rightarrow> 0)"

section \<open>The contract of the database\<close>

text \<open>
  An insert that succeeds adds one record with a new number, one that fails adds nothing; a number of a
  million or more does not fit the column. A query without an error answers with the records that meet
  the conditions, newest first, as many as the limit allows. The column keeps numbers with six decimals.
\<close>

locale audit_database =
  fixes exec :: "'f::{zero,one,minus,ord,scaleR} AuditRow \<Rightarrow> 's \<Rightarrow> go_error option \<times> 's"
    and query :: "string \<times> sql_arg list \<Rightarrow> 's \<Rightarrow> go_error + 'f column list list \<times> go_error option"
    and table :: "'s \<Rightarrow> 'f audit_record list"
    and numeric :: "'f \<Rightarrow> 'f"
  assumes insert_ok: "exec r s = (None, s') \<Longrightarrow>
      \<exists>i. (\<forall>rec\<in>set (table s). rec ''id'' \<noteq> CInt i) \<and> table s' = table s @ [stored_record numeric i r]"
    and insert_fails: "exec r s = (Some e, s') \<Longrightarrow> table s' = table s"
    and overflow: "lit 1000000 \<le> ar_expected_savings r \<Longrightarrow> fst (exec r s) \<noteq> None"
    and select_ok: "query (stmt, args) s = Inr (rows, None) \<Longrightarrow> parse_select stmt = Some (cols, conds, ph) \<Longrightarrow>
      argument args ph = Some (AInt n) \<Longrightarrow>
      \<exists>recs. mset recs = mset (filter (\<lambda>rec. list_all (meets args rec) conds) (table s)) \<and>
        sorted_wrt (\<lambda>a b. time_of b \<le> time_of a) recs \<and> rows = map (\<lambda>rec. map rec cols) (take (nat n) recs)"
    and numeric_keeps: "\<bar>k\<bar> < 10 ^ 12 \<Longrightarrow> numeric (lit (of_int k / 10 ^ 6)) = lit (of_int k / 10 ^ 6)"

section \<open>The statements of the writer\<close>

text \<open>Reading the words of a text: a space separates.\<close>

lemma words_not_Nil [simp]: "words s \<noteq> []"
  by (cases s) (simp_all split: list.split)

lemma words_append: "words (a @ CHR '' '' # b) = words a @ words b"
  by (induction a) (simp_all split: list.split)

lemma words_single: "CHR '' '' \<notin> set w \<Longrightarrow> words w = [w]"
  by (induction w) auto

lemma no_space_digits: "CHR '' '' \<notin> set (digits_of n)"
proof (induction n rule: digits_of.induct)
  case (1 n)
  have "\<forall>m\<in>set [0..<10]. ''0123456789'' ! m \<noteq> CHR '' ''" by code_simp
  then have "m < 10 \<Longrightarrow> ''0123456789'' ! m \<noteq> CHR '' ''" for m by simp
  then show ?case using 1 by (subst digits_of.simps) (auto dest: sym)
qed

lemma words_placeholder: "words (''$'' @ itoa (int n)) = [''$'' @ itoa (int n)]"
  using no_space_digits [of n] by (intro words_single) (simp add: itoa_def)

text \<open>The words of the \<open>WHERE\<close> clause.\<close>

definition clause_words :: "string \<Rightarrow> string list list \<Rightarrow> string list" where
  "clause_words kw qs = (case qs of [] \<Rightarrow> [] | q # qs \<Rightarrow> kw # q @ concat (map ((#) ''AND'') qs))"

lemma words_join: "ps \<noteq> [] \<Longrightarrow> ''WHERE'' # words (join_strings '' AND '' ps) = clause_words ''WHERE'' (map words ps)"
proof (induction ps)
  case (Cons p ps)
  show ?case
  proof (cases ps)
    case Nil
    then show ?thesis by (simp add: clause_words_def)
  next
    case (Cons q qs)
    have "words (p @ '' AND '' @ join_strings '' AND '' (q # qs)) = words p @ ''AND'' # words (join_strings '' AND '' (q # qs))"
      using words_append [of p "''AND '' @ join_strings '' AND '' (q # qs)"]
        words_append [of "''AND''" "join_strings '' AND '' (q # qs)"] by simp
    with Cons.IH Cons show ?thesis by (simp add: clause_words_def)
  qed
qed simp

lemma conditions_rest: "conditions (''ORDER'' # ws) = ([], ''ORDER'' # ws)"
  by (cases ws rule: list.exhaust; cases "tl ws"; cases "tl (tl ws)") auto

lemma conditions_and:
  "conditions (concat (map (\<lambda>(col, op, ph). [''AND'', col, op, ph]) cs) @ ''ORDER'' # ws) = (cs, ''ORDER'' # ws)"
  by (induction cs) (auto simp: conditions_rest)

lemma conditions_clause:
  "conditions (clause_words ''WHERE'' (map (\<lambda>(col, op, ph). [col, op, ph]) cs) @ ''ORDER'' # ws) = (cs, ''ORDER'' # ws)"
proof (cases cs)
  case (Cons c cs')
  obtain col op ph where "c = (col, op, ph)" by (cases c)
  moreover have "concat (map ((#) ''AND'') (map (\<lambda>(col, op, ph). [col, op, ph]) cs')) =
      concat (map (\<lambda>(col, op, ph). [''AND'', col, op, ph]) cs')"
    by (simp add: comp_def case_prod_unfold)
  ultimately show ?thesis using conditions_and [of cs' ws] by (simp add: Cons clause_words_def)
qed (simp add: clause_words_def conditions_rest)

text \<open>The statement of a query asks for the eleven columns in the order of the scan, for the conditions
  that are wanted, and for the limit.\<close>

definition audit_cols :: "string list" where
  "audit_cols = [''id'', ''timestamp'', ''actor'', ''action'', ''resource_type'', ''resource_name'', ''namespace'',
     ''details'', ''reason'', ''expected_savings'', ''result'']"

definition split_cond :: "nat \<times> string \<times> sql_arg \<Rightarrow> string \<times> string \<times> string" where
  "split_cond p = (case p of (i, c, a) \<Rightarrow> (hd (words c), last (words c), ''$'' @ itoa (int i)))"

lemma wanted_words: "(c, a) \<in> set (wanted f) \<Longrightarrow> words c = [hd (words c), last (words c)]"
proof -
  assume "(c, a) \<in> set (wanted f)"
  then have "(c, a) \<in> snd ` set (audit_columns f)" by (force simp: wanted_def)
  then show ?thesis by (auto simp: audit_columns_def)
qed

lemma placed_Nil [simp]: "placed n ws = [] \<longleftrightarrow> ws = []"
  by (cases ws) (simp_all add: placed_def)

lemma placed_words:
  assumes "\<forall>(c, a)\<in>set ws. words c = [hd (words c), last (words c)]"
  shows "map words (placed n ws) = map (\<lambda>(col, op, ph). [col, op, ph]) (map split_cond (List.enumerate n ws))"
  using assms
proof (induction ws arbitrary: n)
  case (Cons w ws)
  obtain c a where w: "w = (c, a)" by (cases w)
  have "words (c @ '' $'' @ itoa (int n)) = words c @ [''$'' @ itoa (int n)]"
    using words_append [of c "''$'' @ itoa (int n)"] words_placeholder [of n] by simp
  also have "\<dots> = [hd (words c), last (words c), ''$'' @ itoa (int n)]" using Cons.prems w by auto
  finally show ?case using Cons w by (simp add: placed_def split_cond_def)
qed (simp add: placed_def)

lemma select_words: "words select_audit = ''SELECT'' # map (\<lambda>c. c @ '','') (butlast audit_cols) @ [''result'', ''FROM'', ''audit_log'']"
  by code_simp

lemma audit_words:
  "words (fst (audit_query f)) = words select_audit @
     clause_words ''WHERE'' (map (\<lambda>(col, op, ph). [col, op, ph]) (map split_cond (List.enumerate 1 (wanted f)))) @
     [''ORDER'', ''BY'', ''timestamp'', ''DESC'', ''LIMIT'', ''$'' @ itoa (int (length (wanted f) + 1))]"
proof -
  let ?cs = "map (\<lambda>(col, op, ph). [col, op, ph]) (map split_cond (List.enumerate 1 (wanted f)))"
  let ?rest = "''ORDER BY timestamp DESC LIMIT $'' @ itoa (int (length (wanted f) + 1))"
  let ?where = "if wanted f = [] then [] else '' WHERE '' @ join_strings '' AND '' (placed 1 (wanted f))"
  have "map words (placed 1 (wanted f)) = ?cs" using wanted_words by (intro placed_words) blast
  then have clause: "wanted f \<noteq> [] \<Longrightarrow> ''WHERE'' # words (join_strings '' AND '' (placed 1 (wanted f))) = clause_words ''WHERE'' ?cs"
    using words_join [of "placed 1 (wanted f)"] by simp
  have "words (select_audit @ ?where) = words select_audit @ clause_words ''WHERE'' ?cs"
    using clause words_append [of select_audit "''WHERE '' @ join_strings '' AND '' (placed 1 (wanted f))"]
      words_append [of "''WHERE''" "join_strings '' AND '' (placed 1 (wanted f))"]
    by (auto simp: clause_words_def)
  moreover have "words ?rest = [''ORDER'', ''BY'', ''timestamp'', ''DESC'', ''LIMIT'', ''$'' @ itoa (int (length (wanted f) + 1))]"
    using words_append [of "''ORDER BY timestamp DESC LIMIT''" "''$'' @ itoa (int (length (wanted f) + 1))"]
      words_placeholder [of "length (wanted f) + 1"] by simp
  moreover have "fst (audit_query f) = (select_audit @ ?where) @ CHR '' '' # ?rest"
    by (simp add: audit_query_def filter_conditions_wanted Let_def)
  ultimately show ?thesis using words_append [of "select_audit @ ?where" ?rest] by (simp only: append_assoc)
qed

lemma parse_audit_query:
  "parse_select (fst (audit_query f)) =
     Some (audit_cols, map split_cond (List.enumerate 1 (wanted f)), ''$'' @ itoa (int (length (wanted f) + 1)))"
proof -
  let ?W = "clause_words ''WHERE'' (map (\<lambda>(col, op, ph). [col, op, ph]) (map split_cond (List.enumerate 1 (wanted f))))"
  let ?R = "[''ORDER'', ''BY'', ''timestamp'', ''DESC'', ''LIMIT'', ''$'' @ itoa (int (length (wanted f) + 1))]"
  have cols: "takeWhile (\<lambda>w. w \<noteq> ''FROM'') (tl (words select_audit @ ws)) = map (\<lambda>c. c @ '','') (butlast audit_cols) @ [''result'']"
    "hd (words select_audit @ ws) = ''SELECT''" "drop (length (map (\<lambda>c. c @ '','') (butlast audit_cols) @ [''result'']) + 3) (words select_audit @ ws) = ws"
    for ws unfolding select_words by (simp_all add: audit_cols_def)
  have names: "map (filter (\<lambda>c. c \<noteq> CHR '','')) (map (\<lambda>c. c @ '','') (butlast audit_cols) @ [''result'']) = audit_cols"
    by code_simp
  show ?thesis
    unfolding parse_select_def audit_words Let_def cols names conditions_clause by simp
qed

text \<open>The arguments: that of the \<open>i\<close>-th condition, and the limit.\<close>

lemma argument_nth: "i < length args \<Longrightarrow> argument args (''$'' @ itoa (int (Suc i))) = Some (args ! i)"
proof -
  assume "i < length args"
  moreover have "find (\<lambda>j. ''$'' @ itoa (int (Suc i)) = ''$'' @ itoa (int (Suc j))) [0..<n] = (if i < n then Some i else None)" for n
  proof -
    have "find (\<lambda>j. i = j) xs = (if i \<in> set xs then Some i else None)" for xs by (induction xs) auto
    then show ?thesis by (simp add: itoa_inj del: of_nat_Suc)
  qed
  ultimately show ?thesis by (simp add: argument_def)
qed

definition asked_limit :: "AuditQueryFilters \<Rightarrow> int" where
  "asked_limit f = (if qf_Limit f \<le> 0 then 100 else qf_Limit f)"

lemma audit_args: "snd (audit_query f) = map snd (wanted f) @ [AInt (asked_limit f)]"
  by (simp add: audit_query_def filter_conditions_wanted asked_limit_def Let_def)

lemma limit_argument: "argument (snd (audit_query f)) (''$'' @ itoa (int (length (wanted f) + 1))) = Some (AInt (asked_limit f))"
  using argument_nth [of "length (wanted f)" "snd (audit_query f)"] by (simp add: audit_args nth_append)

lemma meets_wanted:
  "list_all (meets (snd (audit_query f)) rec) (map split_cond (List.enumerate 1 (wanted f))) \<longleftrightarrow>
     (\<forall>(c, a)\<in>set (wanted f). compares (rec (hd (words c))) (last (words c)) a)"
proof -
  have "meets (snd (audit_query f)) rec (split_cond (Suc i, wanted f ! i)) \<longleftrightarrow>
      compares (rec (hd (words (fst (wanted f ! i))))) (last (words (fst (wanted f ! i)))) (snd (wanted f ! i))"
    if "i < length (wanted f)" for i
    using that argument_nth [of i "snd (audit_query f)"]
    by (simp add: meets_def split_cond_def case_prod_unfold audit_args nth_append)
  then show ?thesis
    by (force simp: list_all_length nth_enumerate_eq all_set_conv_all_nth case_prod_unfold)
qed

section \<open>Reading back\<close>

text \<open>What a query returns of a record, and the filters on an entry.\<close>

definition read_record :: "'f audit_record \<Rightarrow> 'f AuditLogEntry option" where
  "read_record rec = map_option scan_entry (scan_row (map rec audit_cols))"

definition passes :: "AuditQueryFilters \<Rightarrow> 'f AuditLogEntry \<Rightarrow> bool" where
  "passes f x \<longleftrightarrow> qf_Actor f \<in> {[], al_Actor x} \<and> qf_Action f \<in> {[], al_Action x} \<and>
     qf_ResourceType f \<in> {[], al_ResourceType x} \<and> qf_Namespace f \<in> {[], al_Namespace x} \<and>
     (qf_StartTime f = zero_time \<or> micros (qf_StartTime f) \<le> al_Timestamp x) \<and>
     (qf_EndTime f = zero_time \<or> al_Timestamp x \<le> micros (qf_EndTime f))"

lemma scan_entries_read:
  "scan_entries (map (\<lambda>rec. map rec audit_cols) recs) = Some entries \<longleftrightarrow> map read_record recs = map Some entries"
proof (induction recs arbitrary: entries)
  case (Cons rec recs)
  then show ?case by (cases entries) (auto simp: read_record_def split: option.splits)
qed auto

lemma read_record_fields:
  assumes "read_record rec = Some x"
  shows "as_time (rec ''timestamp'') = Some (al_Timestamp x)" "as_text (rec ''actor'') = Some (al_Actor x)"
    "as_text (rec ''action'') = Some (al_Action x)" "as_text (rec ''resource_type'') = Some (al_ResourceType x)"
    "as_text (rec ''namespace'') = Some (al_Namespace x)" "time_of rec = al_Timestamp x"
proof -
  obtain e d where "scan_row (map rec audit_cols) = Some (e, d)" "x = scan_entry (e, d)"
    using assms by (auto simp: read_record_def)
  moreover have "al_Timestamp (scan_entry (e, d)) = al_Timestamp e" "al_Actor (scan_entry (e, d)) = al_Actor e"
    "al_Action (scan_entry (e, d)) = al_Action e" "al_ResourceType (scan_entry (e, d)) = al_ResourceType e"
    "al_Namespace (scan_entry (e, d)) = al_Namespace e"
    by (simp_all add: scan_entry_def split: option.split)
  ultimately show "as_time (rec ''timestamp'') = Some (al_Timestamp x)" "as_text (rec ''actor'') = Some (al_Actor x)"
    "as_text (rec ''action'') = Some (al_Action x)" "as_text (rec ''resource_type'') = Some (al_ResourceType x)"
    "as_text (rec ''namespace'') = Some (al_Namespace x)"
    by (auto simp: scan_row_def audit_cols_def bind_eq_Some_conv)
  then show "time_of rec = al_Timestamp x" by (simp add: time_of_def)
qed

lemma read_times: "map read_record rs = map Some es \<Longrightarrow> map time_of rs = map al_Timestamp es"
  by (induction rs arbitrary: es) (auto simp: Cons_eq_map_conv read_record_fields(6))

lemma wanted_all:
  "(\<forall>(c, a)\<in>set (wanted f). P c a) \<longleftrightarrow>
     (qf_Actor f \<noteq> [] \<longrightarrow> P ''actor ='' (AText (qf_Actor f))) \<and>
     (qf_Action f \<noteq> [] \<longrightarrow> P ''action ='' (AText (qf_Action f))) \<and>
     (qf_ResourceType f \<noteq> [] \<longrightarrow> P ''resource_type ='' (AText (qf_ResourceType f))) \<and>
     (qf_Namespace f \<noteq> [] \<longrightarrow> P ''namespace ='' (AText (qf_Namespace f))) \<and>
     (qf_StartTime f \<noteq> zero_time \<longrightarrow> P ''timestamp >='' (ATime (qf_StartTime f))) \<and>
     (qf_EndTime f \<noteq> zero_time \<longrightarrow> P ''timestamp <='' (ATime (qf_EndTime f)))"
  by (simp add: wanted_def audit_columns_def)

lemma meets_passes:
  "list_all (meets (snd (audit_query f)) rec) (map split_cond (List.enumerate 1 (wanted f))) \<longleftrightarrow>
     (qf_Actor f \<noteq> [] \<longrightarrow> compares (rec ''actor'') ''='' (AText (qf_Actor f))) \<and>
     (qf_Action f \<noteq> [] \<longrightarrow> compares (rec ''action'') ''='' (AText (qf_Action f))) \<and>
     (qf_ResourceType f \<noteq> [] \<longrightarrow> compares (rec ''resource_type'') ''='' (AText (qf_ResourceType f))) \<and>
     (qf_Namespace f \<noteq> [] \<longrightarrow> compares (rec ''namespace'') ''='' (AText (qf_Namespace f))) \<and>
     (qf_StartTime f \<noteq> zero_time \<longrightarrow> compares (rec ''timestamp'') ''>='' (ATime (qf_StartTime f))) \<and>
     (qf_EndTime f \<noteq> zero_time \<longrightarrow> compares (rec ''timestamp'') ''<='' (ATime (qf_EndTime f)))"
  unfolding meets_wanted wanted_all by simp

text \<open>A record that meets the conditions passes the filters when it is read.\<close>

lemma meets_read:
  assumes "list_all (meets (snd (audit_query f)) rec) (map split_cond (List.enumerate 1 (wanted f)))"
    and "read_record rec = Some x"
  shows "passes f x"
proof -
  have same_text: "compares (rec col) ''='' (AText a) \<Longrightarrow> as_text (rec col) = Some b \<Longrightarrow> a = b" for col a b
    by (auto simp: compares_def split: column.splits)
  have in_time: "compares (rec col) ''>='' (ATime a) \<Longrightarrow> as_time (rec col) = Some b \<Longrightarrow> micros a \<le> b"
    "compares (rec col) ''<='' (ATime a) \<Longrightarrow> as_time (rec col) = Some b \<Longrightarrow> b \<le> micros a" for col a b
    by (auto simp: compares_def split: column.splits)
  note fields = read_record_fields [OF assms(2)]
  from assms(1) show ?thesis unfolding meets_passes passes_def
    using same_text [OF _ fields(2)] same_text [OF _ fields(3)] same_text [OF _ fields(4)] same_text [OF _ fields(5)]
      in_time(1) [OF _ fields(1)] in_time(2) [OF _ fields(1)] by blast
qed

text \<open>The record of an entry: what it is read as, and when it meets the conditions.\<close>

definition kept_entry :: "('f \<Rightarrow> 'f) \<Rightarrow> int \<Rightarrow> time \<Rightarrow> 'f::{zero,minus} AuditLogEntry \<Rightarrow> 'f AuditLogEntry" where
  "kept_entry numeric i now entry = entry\<lparr>al_ID := itoa i,
     al_Timestamp := micros (if al_Timestamp entry = zero_time then now else al_Timestamp entry),
     al_Details := (if \<forall>(k, d)\<in>set (al_Details entry). encodable d then al_Details entry else []),
     al_ExpectedSavings := numeric (al_ExpectedSavings entry)\<rparr>"

lemma read_stored: "read_record (stored_record numeric i (audit_row now entry)) = Some (kept_entry numeric i now entry)"
  by (simp add: read_record_def audit_cols_def scan_row_def stored_record_def insert_values_def audit_row_def
      marshal_details_def scan_entry_def kept_entry_def Let_def list_all_iff)

lemma stored_meets:
  "list_all (meets (snd (audit_query f)) (stored_record numeric i (audit_row now entry)))
     (map split_cond (List.enumerate 1 (wanted f))) \<longleftrightarrow> passes f (kept_entry numeric i now entry)"
  unfolding meets_passes
  by (auto simp: stored_record_def insert_values_def audit_row_def compares_def passes_def kept_entry_def Let_def)

context audit_database
begin

lemma queried:
  assumes "QueryEntries query f s = Inr entries"
  shows "\<exists>recs. mset recs = mset (filter (\<lambda>rec. list_all (meets (snd (audit_query f)) rec)
      (map split_cond (List.enumerate 1 (wanted f)))) (table s)) \<and>
    sorted_wrt (\<lambda>a b. time_of b \<le> time_of a) recs \<and> map read_record (take (nat (asked_limit f)) recs) = map Some entries"
proof -
  obtain rows where q: "query (fst (audit_query f), snd (audit_query f)) s = Inr (rows, None)"
    and scan: "scan_entries rows = Some entries"
    using assms by (auto simp: QueryEntries_def split: sum.splits option.splits)
  from select_ok [OF q parse_audit_query limit_argument] scan show ?thesis by (auto simp: scan_entries_read)
qed

text \<open>An entry with savings of a million or more is lost: the column refuses it, and nobody is told.\<close>

lemma large_savings_lost:
  assumes "lit 1000000 \<le> al_ExpectedSavings entry"
  shows "fst (WriteEntry exec now entry s) = None \<and> table (snd (WriteEntry exec now entry s)) = table s"
proof -
  have "lit 1000000 \<le> ar_expected_savings (audit_row now entry)" using assms by (simp add: audit_row_def Let_def)
  from overflow [OF this, of s] obtain e s' where "exec (audit_row now entry) s = (Some e, s')"
    by (cases "exec (audit_row now entry) s") auto
  with insert_fails show ?thesis by (simp add: WriteEntry_def)
qed

end

section \<open>A table in memory\<close>

text \<open>Numbers are kept as they are, records are numbered from 1.\<close>

definition next_id :: "'f audit_record list \<Rightarrow> int" where
  "next_id t = foldr (\<lambda>rec m. case rec ''id'' of CInt i \<Rightarrow> max i m | _ \<Rightarrow> m) t 0 + 1"

lemma next_id_fresh: "rec \<in> set t \<Longrightarrow> rec ''id'' \<noteq> CInt (next_id t)"
proof -
  have "rec \<in> set t \<Longrightarrow> rec ''id'' = CInt i \<Longrightarrow> i < next_id t" for i
    unfolding next_id_def by (induction t) (auto split: column.split)
  then show "rec \<in> set t \<Longrightarrow> ?thesis" by blast
qed

definition mem_exec :: "'f::{zero,one,minus,ord,scaleR} AuditRow \<Rightarrow> 'f audit_record list \<Rightarrow> go_error option \<times> 'f audit_record list" where
  "mem_exec r t = (if lit 1000000 \<le> ar_expected_savings r
     then (Some \<lparr>ge_ErrorCode = None, ge_HTTPStatusCode = None, ge_Error = ''numeric field overflow''\<rparr>, t)
     else (None, t @ [stored_record (\<lambda>x. x)
       (next_id t) r]))"

definition mem_select :: "string \<times> sql_arg list \<Rightarrow> 'f audit_record list \<Rightarrow> go_error + 'f column list list \<times> go_error option" where
  "mem_select q t = (case parse_select (fst q) of
     None \<Rightarrow> Inl \<lparr>ge_ErrorCode = None, ge_HTTPStatusCode = None, ge_Error = ''syntax error''\<rparr>
   | Some (cols, conds, ph) \<Rightarrow> (case argument (snd q) ph of
       Some (AInt n) \<Rightarrow> Inr (map (\<lambda>rec. map rec cols) (take (nat n) (sort_key (\<lambda>rec. - time_of rec)
         (filter (\<lambda>rec. list_all (meets (snd q) rec) conds) t))), None)
     | _ \<Rightarrow> Inl \<lparr>ge_ErrorCode = None, ge_HTTPStatusCode = None, ge_Error = ''invalid limit''\<rparr>))"

text \<open>The column of this table keeps every number as it is.\<close>

interpretation mem_audit: audit_database mem_exec mem_select "\<lambda>t. t" "\<lambda>x. x"
proof unfold_locales
  fix r s s' and stmt :: string and args rows cols conds ph n e and k :: int
  show "\<exists>i. (\<forall>rec\<in>set s. rec ''id'' \<noteq> CInt i) \<and> s' = s @ [stored_record (\<lambda>x. x) i r]"
    if "mem_exec r s = (None, s')" for s s' :: "'f::{zero,one,minus,ord,scaleR} audit_record list"
    using that next_id_fresh [of _ s] by (auto simp: mem_exec_def split: if_splits)
  show "mem_exec r s = (Some e, s') \<Longrightarrow> s' = s" for s s' :: "'f::{zero,one,minus,ord,scaleR} audit_record list"
    by (auto simp: mem_exec_def split: if_splits)
  show "lit 1000000 \<le> ar_expected_savings r \<Longrightarrow> fst (mem_exec r s) \<noteq> None" for s :: "'f::{zero,one,minus,ord,scaleR} audit_record list"
    by (simp add: mem_exec_def)
  show "\<exists>recs. mset recs = mset (filter (\<lambda>rec. list_all (meets args rec) conds) s) \<and>
        sorted_wrt (\<lambda>a b. time_of b \<le> time_of a) recs \<and> rows = map (\<lambda>rec. map rec cols) (take (nat n) recs)"
    if "mem_select (stmt, args) s = Inr (rows, None)" "parse_select stmt = Some (cols, conds, ph)"
      "argument args ph = Some (AInt n)" for s :: "'f::{zero,one,minus,ord,scaleR} audit_record list"
  proof (intro exI conjI)
    let ?recs = "sort_key (\<lambda>rec. - time_of rec) (filter (\<lambda>rec. list_all (meets args rec) conds) s)"
    show "mset ?recs = mset (filter (\<lambda>rec. list_all (meets args rec) conds) s)" by simp
    have "sorted (map (\<lambda>rec. - time_of rec) ?recs)" by simp
    then show "sorted_wrt (\<lambda>a b. time_of b \<le> time_of a) ?recs" by (simp add: sorted_map)
    show "rows = map (\<lambda>rec. map rec cols) (take (nat n) ?recs)" using that by (simp add: mem_select_def)
  qed
qed simp

text \<open>What it answers to a query of the writer.\<close>

lemma mem_answer:
  "QueryEntries mem_select f t = (case scan_entries (map (\<lambda>rec. map rec audit_cols) (take (nat (asked_limit f))
     (sort_key (\<lambda>rec. - time_of rec) (filter (\<lambda>rec. list_all (meets (snd (audit_query f)) rec)
        (map split_cond (List.enumerate 1 (wanted f)))) t)))) of None \<Rightarrow> Inl EScanAudit | Some es \<Rightarrow> Inr es)"
  unfolding QueryEntries_def mem_select_def parse_audit_query option.case prod.case limit_argument sql_arg.case sum.case
  by simp

section \<open>Properties\<close>

text \<open>C37: an entry whose insert succeeds is in the table until it is read back. Every entry a query returns
  passes its filters, the entries come newest first and as many as the limit allows; when the written
  entry passes the filters it is among them, unless the limit is used up by entries that are not older. It is
  read as it was written, column by column, but for its number, its time in microseconds (that
  of the writing when it had none), its savings, which the column rounds unless they have at most six
  decimals, and its details, none of which is kept when one number among them is not finite.\<close>

theorem audit_roundtrip:
  fixes entry :: "f64 AuditLogEntry"
  assumes "audit_database exec query table numeric"
    and "exec (audit_row now entry) s = (None, s')" "QueryEntries query f s' = Inr entries"
  shows "WriteEntry exec now entry s = (None, s') \<and>
    (\<forall>x\<in>set entries. passes f x) \<and> sorted_wrt (\<lambda>x y. al_Timestamp y \<le> al_Timestamp x) entries \<and>
    int (length entries) \<le> (if qf_Limit f \<le> 0 then 100 else qf_Limit f) \<and>
    (\<exists>i e. e = entry\<lparr>al_ID := itoa i,
         al_Timestamp := micros (if al_Timestamp entry = zero_time then now else al_Timestamp entry),
         al_Details := (if \<forall>(k, d)\<in>set (al_Details entry). encodable d then al_Details entry else []),
         al_ExpectedSavings := numeric (al_ExpectedSavings entry)\<rparr> \<and>
       (\<forall>k. \<bar>k\<bar> < 10 ^ 12 \<longrightarrow> al_ExpectedSavings entry = lit (of_int k / 10 ^ 6) \<longrightarrow>
          al_ExpectedSavings e = al_ExpectedSavings entry) \<and>
       (passes f e \<longrightarrow> e \<in> set entries \<or>
          int (length entries) = (if qf_Limit f \<le> 0 then 100 else qf_Limit f) \<and>
          (\<forall>x\<in>set entries. al_Timestamp e \<le> al_Timestamp x)))"
proof -
  from audit_database.insert_ok [OF assms(1,2)] obtain i where
    table: "table s' = table s @ [stored_record numeric i (audit_row now entry)]" by blast
  let ?r = "stored_record numeric i (audit_row now entry)" and ?e = "kept_entry numeric i now entry"
  let ?ok = "\<lambda>rec. list_all (meets (snd (audit_query f)) rec) (map split_cond (List.enumerate 1 (wanted f)))"
  from audit_database.queried [OF assms(1,3)] obtain recs where
    recs: "mset recs = mset (filter ?ok (table s'))" "sorted_wrt (\<lambda>a b. time_of b \<le> time_of a) recs"
      "map read_record (take (nat (asked_limit f)) recs) = map Some entries" by blast
  let ?shown = "take (nat (asked_limit f)) recs"
  have ok: "rec \<in> set recs \<longleftrightarrow> rec \<in> set (table s') \<and> ?ok rec" for rec
    using arg_cong [OF recs(1), of set_mset] by auto
  have len: "length entries = min (length recs) (nat (asked_limit f))" using arg_cong [OF recs(3), of length] by simp
  have shown: "x \<in> set entries \<longleftrightarrow> (\<exists>rec\<in>set ?shown. read_record rec = Some x)" for x
    using arg_cong [OF recs(3), of set] by (metis (no_types, lifting) image_iff image_set option.inject)
  have pass: "\<forall>x\<in>set entries. passes f x"
    using shown ok meets_read by (meson in_set_takeD)
  have times: "map time_of ?shown = map al_Timestamp entries" using recs(3) by (rule read_times)
  have "sorted_wrt (\<lambda>a b. b \<le> a) (map time_of ?shown)"
    using recs(2) by (simp add: sorted_wrt_map sorted_wrt_take)
  then have sorted: "sorted_wrt (\<lambda>x y. al_Timestamp y \<le> al_Timestamp x) entries"
    unfolding times by (simp add: sorted_wrt_map)
  have found: "?e \<in> set entries \<or> int (length entries) = asked_limit f \<and> (\<forall>x\<in>set entries. al_Timestamp ?e \<le> al_Timestamp x)"
    if "passes f ?e"
  proof (cases "?r \<in> set ?shown")
    case True
    then show ?thesis using shown read_stored by blast
  next
    case False
    have "?r \<in> set recs" using that by (simp add: ok table stored_meets del: One_nat_def)
    then have rest: "?r \<in> set (drop (nat (asked_limit f)) recs)" using False by (metis append_take_drop_id set_append UnE)
    then have "nat (asked_limit f) < length recs" by (metis drop_all empty_iff leI list.set(1))
    then have "int (length entries) = asked_limit f" using len by (simp add: asked_limit_def)
    moreover have "sorted_wrt (\<lambda>a b. time_of b \<le> time_of a) (?shown @ drop (nat (asked_limit f)) recs)"
      using recs(2) unfolding append_take_drop_id .
    then have "\<forall>rec\<in>set ?shown. time_of ?r \<le> time_of rec" using rest unfolding sorted_wrt_append by blast
    ultimately show ?thesis
      using shown read_record_fields(6) read_record_fields(6) [OF read_stored] by metis
  qed
  have "asked_limit f = (if qf_Limit f \<le> 0 then 100 else qf_Limit f)" "0 \<le> asked_limit f"
    by (simp_all add: asked_limit_def)
  with len have "int (length entries) \<le> (if qf_Limit f \<le> 0 then 100 else qf_Limit f)" by simp
  moreover have "WriteEntry exec now entry s = (None, s')" using assms(2) by (simp add: WriteEntry_def)
  moreover have "al_ExpectedSavings ?e = al_ExpectedSavings entry"
    if "\<bar>k\<bar> < 10 ^ 12" "al_ExpectedSavings entry = lit (of_int k / 10 ^ 6)" for k
    using audit_database.numeric_keeps [OF assms(1) that(1)] that(2) by (simp add: kept_entry_def)
  ultimately show ?thesis
    using pass sorted found unfolding kept_entry_def asked_limit_def by blast
qed

text \<open>An entry without a time is written and read back by its actor.\<close>

definition demo_entry :: "f64 AuditLogEntry" where
  "demo_entry = \<lparr>al_ID = [], al_Timestamp = zero_time, al_Actor = ''system'', al_Action = ''policy_evaluate'',
     al_ResourceType = ''FinancialPolicy'', al_ResourceName = ''budget'', al_Namespace = ''shop'',
     al_Details = [(''mode'', DText ''automatic''), (''current_cost'', DNum (mk 5))], al_Reason = [],
     al_ExpectedSavings = 0, al_Result = ''success''\<rparr>"

definition demo_filters :: AuditQueryFilters where
  "demo_filters = \<lparr>qf_Actor = ''system'', qf_Action = [], qf_ResourceType = [], qf_Namespace = [],
     qf_StartTime = 9000, qf_EndTime = zero_time, qf_Limit = 10\<rparr>"

lemma audit_roundtrip_witness:
  "\<exists>s'. mem_exec (audit_row 9500 demo_entry) [] = (None, s') \<and>
     QueryEntries mem_select demo_filters s' = Inr [demo_entry\<lparr>al_ID := ''1'', al_Timestamp := 9000\<rparr>] \<and>
     WriteEntry mem_exec 9500 demo_entry [] = (None, s') \<and>
     passes demo_filters (demo_entry\<lparr>al_ID := ''1'', al_Timestamp := 9000\<rparr>)"
proof -
  let ?s = "[stored_record (\<lambda>x. x) 1 (audit_row 9500 demo_entry)]"
  let ?e = "demo_entry\<lparr>al_ID := ''1'', al_Timestamp := 9000\<rparr>"
  have kept: "kept_entry (\<lambda>x. x) 1 9500 demo_entry = ?e"
    by (simp add: kept_entry_def demo_entry_def encodable_num_def mk_0 micros_def itoa_def digits_of.simps)
  have pass: "passes demo_filters ?e" by (simp add: passes_def demo_filters_def demo_entry_def micros_def)
  have written: "mem_exec (audit_row 9500 demo_entry) [] = (None, ?s)"
    by (simp add: mem_exec_def next_id_def audit_row_def Let_def demo_entry_def lit_f64 mk_0 [symmetric])
  have read: "QueryEntries mem_select demo_filters ?s = Inr [?e]"
  proof -
    let ?r = "stored_record (\<lambda>x. x) 1 (audit_row 9500 demo_entry)"
    have "list_all (meets (snd (audit_query demo_filters)) ?r) (map split_cond (List.enumerate 1 (wanted demo_filters)))"
      unfolding stored_meets kept by (rule pass)
    moreover have "scan_entries (map (\<lambda>rec. map rec audit_cols) ?s) = Some [?e]"
      using read_stored [of "\<lambda>x. x" 1 9500 demo_entry] scan_entries_read [of ?s "[?e]"] by (simp only: kept) simp
    moreover have "nat (asked_limit demo_filters) = Suc 9" by (simp add: asked_limit_def demo_filters_def)
    ultimately show ?thesis unfolding mem_answer by simp
  qed
  show ?thesis
    using audit_roundtrip [OF mem_audit.audit_database_axioms written read] written read by auto
qed

end
