(* ===== verification/Metrics.thy ===== *)
theory Metrics
  imports Cost_Types Forecast
begin

text \<open>
  The Prometheus exporter, \<^verbatim>\<open>pkg/metrics/exporter.go\<close>: the vectors of gauges and the counters, and
  the functions that update them. The Prometheus library is not part of the repository: a
  vector is a parameter whose contract is the locale \<open>metric_vec\<close>, a counter is the function
  that increments it.
\<close>

section \<open>The exporter\<close>

text \<open>
  The two methods the exporter calls on a vector of gauges: \<open>v_Reset\<close>, and \<open>v_Set\<close> for
  \<^verbatim>\<open>WithLabelValues(...).Set(x)\<close>.
\<close>

record ('g, 'f) GaugeVec =
  v_Reset :: "'g \<Rightarrow> 'g"
  v_Set :: "string list \<Rightarrow> 'f \<Rightarrow> 'g \<Rightarrow> 'g"

text \<open>The variables of the package.\<close>

record ('g, 'h, 'c) Metrics =
  CostPerNamespace :: 'g
  CostPerInstanceType :: 'g
  BudgetUsagePercent :: 'g
  ForecastedCost :: 'g
  OptimizationSavings :: 'h
  AWSAuthErrors :: 'c
  NotificationFailures :: 'c

text \<open>
  The names under which \<^verbatim>\<open>RegisterMetrics\<close> hands the variables to Prometheus; \<^verbatim>\<open>MustRegister\<close> takes
  them one after the other and panics, here \<open>None\<close>, at the first that the registry refuses.
\<close>

definition metric_names :: "string list" where
  "metric_names = [''eks_fo_cost_per_namespace_dollars'', ''eks_fo_cost_per_instance_type_dollars'',
     ''eks_fo_budget_usage_percent'', ''eks_fo_forecasted_cost_dollars'', ''eks_fo_optimization_savings_dollars'',
     ''eks_fo_aws_auth_errors_total'', ''eks_fo_notification_failures_total'']"

primrec MustRegister :: "(string \<Rightarrow> 's \<Rightarrow> 's option) \<Rightarrow> string list \<Rightarrow> 's \<Rightarrow> 's option" where
  "MustRegister register [] s = Some s"
| "MustRegister register (name # names) s =
     (case register name s of None \<Rightarrow> None | Some s' \<Rightarrow> MustRegister register names s')"

definition RegisterMetrics :: "(string \<Rightarrow> 's \<Rightarrow> 's option) \<Rightarrow> 's \<Rightarrow> 's option" where
  "RegisterMetrics register s = MustRegister register metric_names s"

text \<open>A registry that refuses a name it has takes all of them once, since they are different, and panics
  the second time.\<close>

lemma MustRegister_set:
  "MustRegister (\<lambda>name s. if name \<in> s then None else Some (insert name s)) names s =
     (if distinct names \<and> set names \<inter> s = {} then Some (set names \<union> s) else None)"
  by (induction names arbitrary: s) auto

lemma RegisterMetrics_once:
  "RegisterMetrics (\<lambda>name s. if name \<in> s then None else Some (insert name s)) s =
     (if set metric_names \<inter> s = {} then Some (set metric_names \<union> s) else None)"
proof -
  have "distinct metric_names" by (simp add: metric_names_def)
  then show ?thesis by (simp add: RegisterMetrics_def MustRegister_set)
qed

definition team_label :: "'f NamespaceCost \<Rightarrow> string" where
  "team_label c = (if nc_Team c = [] then ''unallocated'' else nc_Team c)"

definition UpdateCostMetrics ::
    "('g, 'f) GaugeVec \<Rightarrow> string list \<Rightarrow> 'f AggregatedCosts option \<Rightarrow> ('g, 'h, 'c) Metrics \<Rightarrow> ('g, 'h, 'c) Metrics" where
  "UpdateCostMetrics vec ks costs m =
     (case costs of None \<Rightarrow> m
      | Some costs \<Rightarrow>
          m\<lparr>CostPerNamespace :=
              fold (\<lambda>(nsName, nsCost). v_Set vec [nsName, team_label nsCost] (nc_TotalCost nsCost))
                (range_map ks (ag_ByNamespace costs)) (v_Reset vec (CostPerNamespace m))\<rparr>)"

definition set_period :: "('g, 'f) GaugeVec \<Rightarrow> 'f ForecastPeriod \<Rightarrow> 'g \<Rightarrow> 'g" where
  "set_period vec period g =
     (let periodLabel = itoa (int (fp_Days period)) @ ''d'';
          g = v_Set vec [periodLabel, ''forecasted''] (fp_ForecastedCost period) g;
          g = v_Set vec [periodLabel, ''lower''] (fp_LowerBound period) g
      in v_Set vec [periodLabel, ''upper''] (fp_UpperBound period) g)"

definition UpdateForecastMetrics ::
    "('g, 'f) GaugeVec \<Rightarrow> 'f Forecast option \<Rightarrow> ('g, 'h, 'c) Metrics \<Rightarrow> ('g, 'h, 'c) Metrics" where
  "UpdateForecastMetrics vec fc m =
     (case fc of None \<Rightarrow> m
      | Some fc \<Rightarrow>
          m\<lparr>ForecastedCost := fold (set_period vec) (fc_Periods fc) (v_Reset vec (ForecastedCost m))\<rparr>)"

definition IncrementAWSAuthErrors :: "('c \<Rightarrow> 'c) \<Rightarrow> ('g, 'h, 'c) Metrics \<Rightarrow> ('g, 'h, 'c) Metrics" where
  "IncrementAWSAuthErrors inc m = m\<lparr>AWSAuthErrors := inc (AWSAuthErrors m)\<rparr>"

definition IncrementNotificationFailures ::
    "('c \<Rightarrow> 'c) \<Rightarrow> ('g, 'h, 'c) Metrics \<Rightarrow> ('g, 'h, 'c) Metrics" where
  "IncrementNotificationFailures inc m = m\<lparr>NotificationFailures := inc (NotificationFailures m)\<rparr>"

section \<open>The contract of a vector\<close>

text \<open>
  A vector has one series for every list of label values that has been set since the last reset,
  and the series has the value it was set to last.
\<close>

locale metric_vec =
  fixes vec :: "('g, 'f) GaugeVec" and series :: "'g \<Rightarrow> (string list \<rightharpoonup> 'f)"
  assumes series_reset: "series (v_Reset vec g) = Map.empty"
    and series_set: "series (v_Set vec ls x g) = (series g)(ls \<mapsto> x)"
begin

lemma series_sets: "series (fold (\<lambda>(ls, x). v_Set vec ls x) xs g) = series g ++ map_of (rev xs)"
  by (induction xs rule: rev_induct) (auto simp: series_set map_add_def fun_eq_iff split: prod.split)

lemma series_refill: "series (fold (\<lambda>(ls, x). v_Set vec ls x) xs (v_Reset vec g)) = map_of (rev xs)"
  by (simp add: series_sets series_reset)

end

text \<open>A vector kept as the map of its series.\<close>

definition map_vec :: "(string list \<rightharpoonup> 'f, 'f) GaugeVec" where
  "map_vec = \<lparr>v_Reset = (\<lambda>_. Map.empty), v_Set = (\<lambda>ls x g. g(ls \<mapsto> x))\<rparr>"

interpretation map_vec: metric_vec map_vec id
  by unfold_locales (simp_all add: map_vec_def)

section \<open>What is exported\<close>

definition cost_series :: "string \<times> 'f NamespaceCost \<Rightarrow> string list \<times> 'f" where
  "cost_series = (\<lambda>(ns, c). ([ns, team_label c], nc_TotalCost c))"

definition period_series :: "'f ForecastPeriod \<Rightarrow> (string list \<times> 'f) list" where
  "period_series p = (let l = itoa (int (fp_Days p)) @ ''d''
     in [([l, ''forecasted''], fp_ForecastedCost p), ([l, ''lower''], fp_LowerBound p), ([l, ''upper''], fp_UpperBound p)])"

lemma set_costs:
  "fold (\<lambda>(nsName, nsCost). v_Set vec [nsName, team_label nsCost] (nc_TotalCost nsCost)) cs g =
     fold (\<lambda>(ls, x). v_Set vec ls x) (map cost_series cs) g"
  by (induction cs arbitrary: g) (auto simp: cost_series_def)

lemma set_periods:
  "fold (set_period vec) ps g = fold (\<lambda>(ls, x). v_Set vec ls x) (concat (map period_series ps)) g"
  by (induction ps arbitrary: g) (auto simp: set_period_def period_series_def Let_def)

text \<open>
  The costs of the last aggregation are exported, each namespace under its name and team, and
  nothing else: the series of namespaces and teams that are gone are dropped.
\<close>

lemma exported_costs:
  assumes "metric_vec vec series" "iterates ks (ag_ByNamespace costs)"
  shows "series (CostPerNamespace (UpdateCostMetrics vec ks (Some costs) m)) ls = Some x \<longleftrightarrow>
    (\<exists>ns c. ag_ByNamespace costs ns = Some c \<and> ls = [ns, team_label c] \<and> x = nc_TotalCost c)"
proof -
  let ?cs = "range_map ks (ag_ByNamespace costs)"
  from assms(2) have d: "distinct ks" "set ks = dom (ag_ByNamespace costs)" by (simp_all add: iterates_def)
  have names: "map fst ?cs = ks" using keys_range_map [OF assms(2)] .
  have "distinct (map fst (map cost_series cs))" if "distinct (map fst cs)" for cs :: "(string \<times> 'b NamespaceCost) list"
    using that by (induction cs) (force simp: cost_series_def)+
  with names d(1) have "distinct (map fst (map cost_series ?cs))" by metis
  then have "map_of (rev (map cost_series ?cs)) ls = Some x \<longleftrightarrow> (ls, x) \<in> set (map cost_series ?cs)"
    by (simp add: map_of_eq_Some_iff rev_map [symmetric])
  then show ?thesis
    using d(2) metric_vec.series_refill [OF assms(1)]
    by (auto simp: UpdateCostMetrics_def set_costs set_range_map cost_series_def)
qed

text \<open>
  The periods of the last forecast are exported, the last one of its length when there are several.
\<close>

lemma exported_forecast:
  assumes "metric_vec vec series"
  shows "series (ForecastedCost (UpdateForecastMetrics vec (Some fc) m)) =
    map_of (rev (concat (map period_series (fc_Periods fc))))"
  using metric_vec.series_refill [OF assms] by (simp add: UpdateForecastMetrics_def set_periods)

end
