(* ===== verification/Migrations.thy ===== *)
theory Migrations
  imports Backoff "HOL-Library.List_Lexorder" "HOL-Library.Char_ord"
begin

text \<open>
  The connection to the database and the migration runner, \<^verbatim>\<open>pkg/db/db.go\<close>. The pool of connections
  of \<^verbatim>\<open>pgx\<close> is a parameter (locale \<open>connection_pools\<close>). The directory, the files and the database are parameters:
  \<open>readDir\<close> is the listing of a directory, its entries with whether they are directories,
  \<open>readFile\<close> the content of a file of a directory, \<open>exec\<close> the execution of a batch.
\<close>

section \<open>The connection\<close>

text \<open>Durations are in nanoseconds; the other settings of a parsed configuration stay as they are.\<close>

record pool_config =
  MaxConns :: int
  MinConns :: int
  HealthCheckPeriod :: int
  MaxConnLifetime :: int
  MaxConnIdleTime :: int

record ('s, 'p, 'x) pgxpool =
  ParseConfig :: "string \<Rightarrow> go_error + 'x pool_config_scheme"
  NewWithConfig :: "'x pool_config_scheme \<Rightarrow> 's \<Rightarrow> (go_error + 'p) \<times> 's"
  PoolPing :: "'p \<Rightarrow> 's \<Rightarrow> go_error option \<times> 's"
  PoolClose :: "'p \<Rightarrow> 's \<Rightarrow> 's"

record 'p DB =
  Pool :: "'p option"

datatype db_error = EParsing go_error | ECreating go_error | EPinging go_error

definition pool_defaults :: "'x pool_config_scheme \<Rightarrow> 'x pool_config_scheme" where
  "pool_defaults cfg = cfg\<lparr>MaxConns := 10, MinConns := 2, HealthCheckPeriod := 30 * 10 ^ 9,
     MaxConnLifetime := 30 * 60 * 10 ^ 9, MaxConnIdleTime := 5 * 60 * 10 ^ 9\<rparr>"

definition NewDB :: "('s, 'p, 'x) pgxpool \<Rightarrow> string \<Rightarrow> 's \<Rightarrow> (db_error + 'p DB) \<times> 's" where
  "NewDB pg connString s =
     (case ParseConfig pg connString of
        Inl err \<Rightarrow> (Inl (EParsing err), s)
      | Inr cfg \<Rightarrow>
          (case NewWithConfig pg (pool_defaults cfg) s of
             (Inl err, s') \<Rightarrow> (Inl (ECreating err), s')
           | (Inr pool, s') \<Rightarrow>
               (case PoolPing pg pool s' of
                  (Some err, s'') \<Rightarrow> (Inl (EPinging err), PoolClose pg pool s'')
                | (None, s'') \<Rightarrow> (Inr \<lparr>Pool = Some pool\<rparr>, s''))))"

definition Close :: "('s, 'p, 'x) pgxpool \<Rightarrow> 'p DB \<Rightarrow> 's \<Rightarrow> 's" where
  "Close pg d s = (case Pool d of None \<Rightarrow> s | Some pool \<Rightarrow> PoolClose pg pool s)"

text \<open>
  The pools that are open: creating one opens a new one or fails, a ping opens and closes none,
  closing closes one.
\<close>

locale connection_pools =
  fixes pg :: "('s, 'p, 'x) pgxpool"
    and opened :: "'s \<Rightarrow> 'p set"
  assumes new_opens: "NewWithConfig pg cfg s = (Inr p, s') \<Longrightarrow> p \<notin> opened s \<and> opened s' = insert p (opened s)"
    and new_fails: "NewWithConfig pg cfg s = (Inl e, s') \<Longrightarrow> opened s' = opened s"
    and ping: "PoolPing pg p s = (r, s') \<Longrightarrow> opened s' = opened s"
    and close: "opened (PoolClose pg p s) = opened s - {p}"
begin

lemma new_db:
  assumes "NewDB pg connString s = (r, s')"
  shows "case r of Inl err \<Rightarrow> opened s' = opened s
    | Inr d \<Rightarrow> (\<exists>p. Pool d = Some p \<and> p \<notin> opened s \<and> opened s' = insert p (opened s))"
proof (cases "ParseConfig pg connString")
  case (Inr cfg)
  obtain r1 s1 where new: "NewWithConfig pg (pool_defaults cfg) s = (r1, s1)" by fastforce
  show ?thesis
  proof (cases r1)
    case (Inl e)
    with assms Inr new new_fails show ?thesis by (auto simp: NewDB_def)
  next
    case pool: (Inr p)
    obtain e s2 where ping': "PoolPing pg p s1 = (e, s2)" by fastforce
    from new pool have "p \<notin> opened s \<and> opened s2 = insert p (opened s)"
      using new_opens ping [OF ping'] by auto
    with assms Inr new pool ping' close [of p s2] show ?thesis
      by (cases e) (auto simp: NewDB_def)
  qed
qed (use assms in \<open>auto simp: NewDB_def\<close>)

lemma close_db: "Pool d = Some p \<Longrightarrow> opened (Close pg d s) = opened s - {p}"
  by (simp add: Close_def close)

end

section \<open>The runner\<close>

datatype migration_error = EReadDir string go_error | EReadFile string go_error | EExecute string go_error

text \<open>
  The characters \<^verbatim>\<open>strings.TrimSpace\<close> removes, in their UTF-8 encoding; a text is blank when nothing
  remains of it.
\<close>

definition spaces :: "string list" where
  "spaces = [[CHR 0x09], [CHR 0x0A], [CHR 0x0B], [CHR 0x0C], [CHR 0x0D], [CHR 0x20],
     [CHR 0xC2, CHR 0x85], [CHR 0xC2, CHR 0xA0], [CHR 0xE1, CHR 0x9A, CHR 0x80]] @
     map (\<lambda>b. [CHR 0xE2, CHR 0x80, b])
       [CHR 0x80, CHR 0x81, CHR 0x82, CHR 0x83, CHR 0x84, CHR 0x85, CHR 0x86, CHR 0x87, CHR 0x88, CHR 0x89,
        CHR 0x8A, CHR 0xA8, CHR 0xA9, CHR 0xAF] @
     [[CHR 0xE2, CHR 0x81, CHR 0x9F], [CHR 0xE3, CHR 0x80, CHR 0x80]]"

text \<open>A first space, when there is one, and the rest.\<close>

definition first_space :: "string \<Rightarrow> string option" where
  "first_space s = List.find (\<lambda>p. prefix p s) spaces"

lemma first_space_shorter: "first_space s = Some p \<Longrightarrow> length (drop (length p) s) < length s"
proof -
  assume "first_space s = Some p"
  then have "p \<in> set spaces" "prefix p s" by (auto simp: first_space_def find_Some_iff)
  moreover have "[] \<notin> set spaces" by (simp add: spaces_def)
  ultimately have "p \<noteq> []" "prefix p s" by auto
  then show ?thesis by (cases p) (auto simp: prefix_def)
qed

function blank :: "string \<Rightarrow> bool" where
  "blank s = (case first_space s of None \<Rightarrow> s = [] | Some p \<Rightarrow> blank (drop (length p) s))"
  by auto

termination
  by (relation "measure length") (use first_space_shorter in auto)

declare blank.simps [simp del]

definition sql_files :: "(string \<times> bool) list \<Rightarrow> string list" where
  "sql_files entries = sort (map fst (filter (\<lambda>(name, isDir). \<not> isDir \<and> HasSuffix name ''.sql'') entries))"

fun run_files ::
    "(string \<Rightarrow> go_error + string) \<Rightarrow> (string \<Rightarrow> 's \<Rightarrow> go_error option \<times> 's) \<Rightarrow> string list \<Rightarrow> 's \<Rightarrow>
     migration_error option \<times> 's" where
  "run_files readFile exec [] s = (None, s)"
| "run_files readFile exec (name # names) s =
     (case readFile name of Inl err \<Rightarrow> (Some (EReadFile name err), s)
      | Inr sql \<Rightarrow>
          if blank sql then run_files readFile exec names s
          else (case exec sql s of
              (Some err, s') \<Rightarrow> (Some (EExecute name err), s')
            | (None, s') \<Rightarrow> run_files readFile exec names s'))"

definition RunMigrations ::
    "(string \<Rightarrow> go_error + (string \<times> bool) list) \<Rightarrow> (string \<Rightarrow> string \<Rightarrow> go_error + string) \<Rightarrow>
     (string \<Rightarrow> 's \<Rightarrow> go_error option \<times> 's) \<Rightarrow> string \<Rightarrow> 's \<Rightarrow> migration_error option \<times> 's" where
  "RunMigrations readDir readFile exec migrationsDir s =
     (case readDir migrationsDir of Inl err \<Rightarrow> (Some (EReadDir migrationsDir err), s)
      | Inr entries \<Rightarrow> run_files (readFile migrationsDir) exec (sql_files entries) s)"

section \<open>The order of the migrations\<close>

text \<open>The reference: texts executed one after the other, up to the first error.\<close>

fun exec_all :: "(string \<Rightarrow> 's \<Rightarrow> go_error option \<times> 's) \<Rightarrow> string list \<Rightarrow> 's \<Rightarrow> go_error option \<times> 's" where
  "exec_all exec [] s = (None, s)"
| "exec_all exec (sql # sqls) s =
     (case exec sql s of (Some err, s') \<Rightarrow> (Some err, s') | (None, s') \<Rightarrow> exec_all exec sqls s')"

definition reads :: "(string \<Rightarrow> go_error + string) \<Rightarrow> string list \<Rightarrow> string list \<Rightarrow> bool" where
  "reads readFile names sqls \<longleftrightarrow> map readFile names = map Inr sqls"

lemma reads_simps [simp]:
  "reads readFile [] sqls \<longleftrightarrow> sqls = []"
  "reads readFile (name # names) sqls \<longleftrightarrow>
     (\<exists>sql sqls'. sqls = sql # sqls' \<and> readFile name = Inr sql \<and> reads readFile names sqls')"
  by (auto simp: reads_def map_eq_Cons_conv Cons_eq_map_conv)

lemma sql_files: "sorted (sql_files entries)"
  "set (sql_files entries) = {name. (name, False) \<in> set entries \<and> HasSuffix name ''.sql''}"
  by (auto simp: sql_files_def image_iff)

lemma run_files_ok:
  "run_files readFile exec names s = (None, s') \<longleftrightarrow>
     (\<exists>sqls. reads readFile names sqls \<and> exec_all exec (filter (\<lambda>sql. \<not> blank sql) sqls) s = (None, s'))"
  by (induction names arbitrary: s) (auto split: sum.split prod.split option.split)

text \<open>The step at which a run ends: a file that cannot be read, or a text that is rejected.\<close>

definition stops_at ::
    "(string \<Rightarrow> go_error + string) \<Rightarrow> (string \<Rightarrow> 's \<Rightarrow> go_error option \<times> 's) \<Rightarrow> string \<Rightarrow> 's \<Rightarrow>
     migration_error \<Rightarrow> 's \<Rightarrow> bool" where
  "stops_at readFile exec name s e s' =
     (case readFile name of Inl err \<Rightarrow> e = EReadFile name err \<and> s' = s
      | Inr sql \<Rightarrow> \<not> blank sql \<and> (\<exists>err. exec sql s = (Some err, s') \<and> e = EExecute name err))"

lemma run_files_step:
  "run_files readFile exec (name # names) s = (r, s') \<longleftrightarrow>
     (\<exists>e. r = Some e \<and> stops_at readFile exec name s e s') \<or>
     (\<exists>s0. run_files readFile exec [name] s = (None, s0) \<and> run_files readFile exec names s0 = (r, s'))"
  by (auto simp: stops_at_def split: sum.split prod.split option.split if_splits)

lemma run_files_append:
  "run_files readFile exec (before @ names) s =
     (case run_files readFile exec before s of (None, s0) \<Rightarrow> run_files readFile exec names s0 | r \<Rightarrow> r)"
  by (induction before arbitrary: s) (auto split: sum.split prod.split option.split)

lemma run_files_fails:
  "run_files readFile exec names s = (Some e, s') \<Longrightarrow>
     \<exists>before name rest s0. names = before @ name # rest \<and> run_files readFile exec before s = (None, s0) \<and>
       stops_at readFile exec name s0 e s'"
proof (induction names arbitrary: s)
  case (Cons n names)
  from Cons.prems consider "stops_at readFile exec n s e s'"
    | s0 where "run_files readFile exec [n] s = (None, s0)" "run_files readFile exec names s0 = (Some e, s')"
    using iffD1 [OF run_files_step Cons.prems] by auto
  then show ?case
  proof cases
    case 1
    then show ?thesis by (metis append_Nil run_files.simps(1))
  next
    case 2
    from Cons.IH [OF 2(2)] obtain before name rest s1 where
      split: "names = before @ name # rest" "run_files readFile exec before s0 = (None, s1)"
        "stops_at readFile exec name s1 e s'"
      by blast
    have "run_files readFile exec ([n] @ before) s = (None, s1)"
      by (simp only: run_files_append 2(1) prod.case option.case split(2))
    then have "n # names = (n # before) @ name # rest" "run_files readFile exec (n # before) s = (None, s1)"
      using split(1) by simp_all
    with split(3) show ?thesis by blast
  qed
qed simp

text \<open>C40: the migrations are the files of the directory whose names end in \<^verbatim>\<open>.sql\<close>, run in the order of
  their names. The runner succeeds exactly when all of them are readable and their texts, blank
  ones left out, execute one after the other; when it fails, the files before the reported
  one have run completely and none after it is executed.\<close>

theorem migrations_in_order:
  assumes "readDir dir = Inr entries"
  shows "\<exists>names. sorted names \<and> set names = {name. (name, False) \<in> set entries \<and> HasSuffix name ''.sql''} \<and>
    (case RunMigrations readDir readFile exec dir s of
       (None, s') \<Rightarrow> (\<exists>sqls. reads (readFile dir) names sqls \<and>
         exec_all exec (filter (\<lambda>sql. \<not> blank sql) sqls) s = (None, s'))
     | (Some e, s') \<Rightarrow> (\<exists>before name rest s0. names = before @ name # rest \<and>
         (\<exists>sqls. reads (readFile dir) before sqls \<and>
           exec_all exec (filter (\<lambda>sql. \<not> blank sql) sqls) s = (None, s0)) \<and>
         stops_at (readFile dir) exec name s0 e s'))"
proof (intro exI [of _ "sql_files entries"] conjI sql_files)
  obtain r s' where run: "run_files (readFile dir) exec (sql_files entries) s = (r, s')" by fastforce
  have "RunMigrations readDir readFile exec dir s = (r, s')"
    by (simp add: RunMigrations_def assms run)
  moreover note run_files_ok [of "readFile dir" exec, symmetric] run_files_fails [of "readFile dir" exec]
  ultimately show "case RunMigrations readDir readFile exec dir s of
       (None, s') \<Rightarrow> (\<exists>sqls. reads (readFile dir) (sql_files entries) sqls \<and>
         exec_all exec (filter (\<lambda>sql. \<not> blank sql) sqls) s = (None, s'))
     | (Some e, s') \<Rightarrow> (\<exists>before name rest s0. sql_files entries = before @ name # rest \<and>
         (\<exists>sqls. reads (readFile dir) before sqls \<and>
           exec_all exec (filter (\<lambda>sql. \<not> blank sql) sqls) s = (None, s0)) \<and>
         stops_at (readFile dir) exec name s0 e s')"
    using run by (cases r) simp_all
qed

text \<open>A directory with two migrations, of which the second is rejected, and two other entries.\<close>

definition demo_dir :: "string \<Rightarrow> go_error + (string \<times> bool) list" where
  "demo_dir dir = Inr [(''2.sql'', False), (''old.sql'', True), (''1.sql'', False), (''README'', False)]"

definition rejection :: go_error where
  "rejection = \<lparr>ge_ErrorCode = None, ge_HTTPStatusCode = None, ge_Error = ''syntax error''\<rparr>"

definition demo_exec :: "string \<Rightarrow> string list \<Rightarrow> go_error option \<times> string list" where
  "demo_exec sql run = (if sql = ''2.sql'' then (Some rejection, run) else (None, run @ [sql]))"

lemma demo_migration:
  "RunMigrations demo_dir (\<lambda>dir name. Inr name) demo_exec ''migrations'' [] =
     (Some (EExecute ''2.sql'' rejection), [''1.sql''])"
  by code_simp

lemma migrations_in_order_witness:
  "\<exists>names. sorted names \<and> set names = {''1.sql'', ''2.sql''} \<and>
     (\<exists>before name rest s0. names = before @ name # rest \<and>
       (\<exists>sqls. reads Inr before sqls \<and>
         exec_all demo_exec (filter (\<lambda>sql. \<not> blank sql) sqls) [] = (None, s0)) \<and>
       stops_at Inr demo_exec name s0 (EExecute ''2.sql'' rejection) [''1.sql''])"
proof -
  have "{name. (name, False) \<in> set [(''2.sql'', False), (''old.sql'', True), (''1.sql'', False), (''README'', False)] \<and>
      HasSuffix name ''.sql''} = {''1.sql'', ''2.sql''}"
    by (auto simp: HasSuffix_def suffix_def)
  then show ?thesis
    using migrations_in_order [of demo_dir "''migrations''" _ "\<lambda>dir name. Inr name" demo_exec "[]", OF demo_dir_def]
    by (simp add: demo_migration)
qed

text \<open>A connection that cannot be made leaves no pool open behind, whichever step failed; one that can
  opens exactly one pool, and closing it gives the pools that were open before.\<close>

lemma failed_connection_leaks_no_pool:
  assumes "connection_pools pg opened" "NewDB pg connString s = (r, s')"
  shows "(\<forall>err. r = Inl err \<longrightarrow> opened s' = opened s) \<and>
    (\<forall>d. r = Inr d \<longrightarrow> opened s' \<noteq> opened s \<and> opened (Close pg d s') = opened s)"
  using connection_pools.new_db [OF assms] connection_pools.close_db [OF assms(1)]
  by (auto split: sum.splits)

text \<open>A database that keeps the numbers of its open pools, and does not answer when it is \<^verbatim>\<open>down\<close>.\<close>

definition mem_pools :: "(nat list, nat, unit) pgxpool" where
  "mem_pools =
     \<lparr>ParseConfig = (\<lambda>conn. Inr \<lparr>MaxConns = 4, MinConns = 0, HealthCheckPeriod = 0, MaxConnLifetime = 0,
        MaxConnIdleTime = 0\<rparr>),
      NewWithConfig = (\<lambda>cfg s. (Inr (Suc (sum_list s)), Suc (sum_list s) # s)),
      PoolPing = (\<lambda>p s. (if length s \<le> 1 then None
        else Some \<lparr>ge_ErrorCode = None, ge_HTTPStatusCode = None, ge_Error = ''too many clients''\<rparr>, s)),
      PoolClose = (\<lambda>p s. removeAll p s)\<rparr>"

interpretation mem_pools: connection_pools mem_pools set
  by unfold_locales (auto simp: mem_pools_def dest: member_le_sum_list)

lemma failed_connection_leaks_no_pool_witness:
  "(\<exists>err. NewDB mem_pools ''postgres://db'' [7] = (Inl err, [7])) \<and>
   (\<exists>d s'. NewDB mem_pools ''postgres://db'' [] = (Inr d, s') \<and> set (Close mem_pools d s') = {})"
proof
  show "\<exists>err. NewDB mem_pools ''postgres://db'' [7] = (Inl err, [7])"
    by (simp add: NewDB_def mem_pools_def)
  have "NewDB mem_pools ''postgres://db'' [] = (Inr \<lparr>Pool = Some 1\<rparr>, [1])"
    by (simp add: NewDB_def mem_pools_def)
  with failed_connection_leaks_no_pool [OF mem_pools.connection_pools_axioms this]
  show "\<exists>d s'. NewDB mem_pools ''postgres://db'' [] = (Inr d, s') \<and> set (Close mem_pools d s') = {}" by auto
qed

end
