(* ===== verification/Schedulers.thy ===== *)
theory Schedulers
  imports Cost_Collector Forecast
begin

text \<open>
  The loops of \<^verbatim>\<open>pkg/collector/scheduler.go\<close> and \<^verbatim>\<open>pkg/forecast/scheduler.go\<close> as state machines: a
  cycle at once, then a ticker and a \<^verbatim>\<open>select\<close> between its channel and the end of the context. The
  ticker's channel holds one tick and drops the others, and \<^verbatim>\<open>select\<close> takes any case that is
  ready. Every run refines the folds \<open>StartCycles\<close> and \<open>StartForecasts\<close> of the components. The
  constructors of the schedulers and of the collector, which decide their intervals and whether AWS can be
  reached, are here too.
\<close>

section \<open>Constructors\<close>

record ('c, 'st) CostCollectionScheduler =
  cs_collector :: 'c
  cs_store :: 'st
  cs_interval :: int

definition NewCostCollectionScheduler :: "'c \<Rightarrow> 'st \<Rightarrow> ('c, 'st) CostCollectionScheduler" where
  "NewCostCollectionScheduler collector store =
     \<lparr>cs_collector = collector, cs_store = store, cs_interval = DefaultCollectionInterval\<rparr>"

record ('fc, 'rd, 'st) ForecastScheduler =
  fs_forecaster :: 'fc
  fs_reader :: 'rd
  fs_store :: 'st
  fs_interval :: int

definition NewForecastScheduler :: "'fc \<Rightarrow> 'rd \<Rightarrow> 'st \<Rightarrow> ('fc, 'rd, 'st) ForecastScheduler" where
  "NewForecastScheduler forecaster reader store =
     \<lparr>fs_forecaster = forecaster, fs_reader = reader, fs_store = store, fs_interval = 6 * hour\<rparr>"

text \<open>The fetcher of the configuration is its two methods that the collector calls.\<close>

record ('ce, 'cu, 'c) CostCollectorConfig =
  cfg_AWSFetcher :: "('ce \<times> 'cu) option"
  cfg_Cache :: "'c option"
  cfg_CURBucket :: string
  cfg_CURPrefix :: string

record ('k, 'm, 'ce, 'cu, 'c) DefaultCostCollector =
  dc_kubeClient :: 'k
  dc_metricsClient :: 'm
  dc_awsFetcher :: "('ce \<times> 'cu) option"
  dc_cache :: "'c option"
  dc_curBucket :: string
  dc_curPrefix :: string

definition NewDefaultCostCollector ::
    "'k \<Rightarrow> 'm \<Rightarrow> ('ce, 'cu, 'c) CostCollectorConfig option list \<Rightarrow> ('k, 'm, 'ce, 'cu, 'c) DefaultCostCollector" where
  "NewDefaultCostCollector kubeClient metricsClient config =
     (let c = \<lparr>dc_kubeClient = kubeClient, dc_metricsClient = metricsClient, dc_awsFetcher = None,
                dc_cache = None, dc_curBucket = [], dc_curPrefix = []\<rparr> in
      if 0 < length config \<and> config ! 0 \<noteq> None then
        (let cfg = the (config ! 0) in
         c\<lparr>dc_awsFetcher := cfg_AWSFetcher cfg, dc_cache := cfg_Cache cfg,
           dc_curBucket := cfg_CURBucket cfg, dc_curPrefix := cfg_CURPrefix cfg\<rparr>)
      else c)"

text \<open>Without a configuration the methods that need AWS return errors, and a cycle stores nothing.\<close>

lemma unconfigured_collector:
  assumes "config = [] \<or> hd config = None"
    and "c = NewDefaultCostCollector kubeClient metricsClient config"
  shows "FetchAWSCosts (map_option fst (dc_awsFetcher c)) now (dc_cache c) s = (Inl EFetcherMissing, None, s)"
    and "FetchCURData (map_option snd (dc_awsFetcher c)) (dc_curBucket c) (dc_curPrefix c) s = (Inl EFetcherMissing, s)"
  using assms
  by (cases config; simp add: NewDefaultCostCollector_def FetchAWSCosts_def FetchCURData_def)+

lemma unconfigured_cycle:
  assumes "config = [] \<or> hd config = None"
    and "c = NewDefaultCostCollector cluster metricsClient config"
  shows "\<exists>err. CycleOnce (DefaultCollector (dc_kubeClient c) (map_option fst (dc_awsFetcher c)) namespaces ks ks' now)
    store now (w, dc_cache c) = (Some err, (w, None))"
proof -
  have "dc_awsFetcher c = None" "dc_cache c = None"
    using assms by (cases config; simp add: NewDefaultCostCollector_def)+
  then show ?thesis
    by (simp add: CycleOnce_def DefaultCollector_def FetchAWSCosts_def split: sum.split)
qed

section \<open>The loop\<close>

datatype loop_phase = Running | Waiting | Stopped

record 's loop =
  lp_Now :: time
  lp_Next :: "time option"
  lp_Pending :: bool
  lp_Cancelled :: bool
  lp_Phase :: loop_phase
  lp_Starts :: "time list"
  lp_World :: 's

text \<open>\<^verbatim>\<open>Start\<close> runs the first cycle before there is a ticker.\<close>

definition loop_start :: "(time \<Rightarrow> 's \<Rightarrow> 's) \<Rightarrow> time \<Rightarrow> 's \<Rightarrow> 's loop" where
  "loop_start cycle t w = \<lparr>lp_Now = t, lp_Next = None, lp_Pending = False, lp_Cancelled = False,
     lp_Phase = Running, lp_Starts = [t], lp_World = cycle t w\<rparr>"

text \<open>
  Time passes up to the next tick, the ticker ticks, the context is cancelled; a cycle ends (after the
  first one \<^verbatim>\<open>NewTicker\<close>, which panics unless the interval is positive, starts the ticker), a tick
  starts the next one, or the loop returns.
\<close>

inductive loop_step :: "int \<Rightarrow> (time \<Rightarrow> 's \<Rightarrow> 's) \<Rightarrow> 's loop \<Rightarrow> 's loop \<Rightarrow> bool"
  for interval cycle where
  passes: "lp_Now s \<le> t \<Longrightarrow> \<forall>n. lp_Next s = Some n \<longrightarrow> t < n \<Longrightarrow>
    loop_step interval cycle s (s\<lparr>lp_Now := t\<rparr>)"
| ticks: "lp_Next s = Some n \<Longrightarrow> lp_Phase s \<noteq> Stopped \<Longrightarrow>
    loop_step interval cycle s (s\<lparr>lp_Now := n, lp_Next := Some (n + interval), lp_Pending := True\<rparr>)"
| cancelled: "loop_step interval cycle s (s\<lparr>lp_Cancelled := True\<rparr>)"
| ends: "lp_Phase s = Running \<Longrightarrow> 0 < interval \<Longrightarrow>
    loop_step interval cycle s
      (s\<lparr>lp_Phase := Waiting, lp_Next := Some (case lp_Next s of None \<Rightarrow> lp_Now s + interval | Some n \<Rightarrow> n)\<rparr>)"
| starts: "lp_Phase s = Waiting \<Longrightarrow> lp_Pending s \<Longrightarrow>
    loop_step interval cycle s
      (s\<lparr>lp_Phase := Running, lp_Pending := False, lp_Starts := lp_Starts s @ [lp_Now s],
        lp_World := cycle (lp_Now s) (lp_World s)\<rparr>)"
| returns: "lp_Phase s = Waiting \<Longrightarrow> lp_Cancelled s \<Longrightarrow>
    loop_step interval cycle s (s\<lparr>lp_Phase := Stopped, lp_Next := None, lp_Pending := False\<rparr>)"

abbreviation loop_run :: "int \<Rightarrow> (time \<Rightarrow> 's \<Rightarrow> 's) \<Rightarrow> 's loop \<Rightarrow> 's loop \<Rightarrow> bool" where
  "loop_run interval cycle \<equiv> (loop_step interval cycle)\<^sup>*\<^sup>*"

text \<open>
  The invariant: the world is the result of the cycles that were started, in their order, and each of
  them but the first used up a tick of its own, of which there is one per interval.
\<close>

definition loop_inv :: "int \<Rightarrow> (time \<Rightarrow> 's \<Rightarrow> 's) \<Rightarrow> time \<Rightarrow> 's \<Rightarrow> 's loop \<Rightarrow> bool" where
  "loop_inv interval cycle t w s \<longleftrightarrow>
     lp_World s = fold cycle (lp_Starts s) w \<and>
     (\<exists>later. lp_Starts s = t # later) \<and> sorted (lp_Starts s) \<and> (\<forall>x\<in>set (lp_Starts s). x \<le> lp_Now s) \<and>
     (int (length (lp_Starts s)) - 1) * interval \<le> lp_Now s - t \<and>
     (\<forall>n. lp_Next s = Some n \<longrightarrow> lp_Now s \<le> n \<and> n \<le> lp_Now s + interval \<and>
        t + (int (length (lp_Starts s)) + of_bool (lp_Pending s)) * interval \<le> n) \<and>
     (lp_Next s = None \<longrightarrow> \<not> lp_Pending s \<and> lp_Phase s \<noteq> Waiting \<and> (lp_Phase s = Running \<longrightarrow> lp_Starts s = [t])) \<and>
     (lp_Phase s = Stopped \<longrightarrow> lp_Cancelled s \<and> lp_Next s = None)"

lemma loop_inv_start: "loop_inv interval cycle t w (loop_start cycle t w)"
  by (simp add: loop_inv_def loop_start_def)

lemma loop_inv_step:
  assumes "loop_step interval cycle s s'" "loop_inv interval cycle t w s" "0 < interval"
  shows "loop_inv interval cycle t w s'"
  using assms
proof cases
  case (passes t')
  with assms(2,3) show ?thesis by (auto simp: loop_inv_def)
next
  case (ticks n)
  with assms(2,3) show ?thesis by (cases "lp_Pending s") (auto simp: loop_inv_def algebra_simps)
next
  case cancelled
  with assms(2) show ?thesis by (auto simp: loop_inv_def)
next
  case ends
  with assms(2,3) show ?thesis by (auto simp: loop_inv_def algebra_simps split: option.split)
next
  case starts
  with assms(2,3) obtain n where n: "lp_Next s = Some n" by (auto simp: loop_inv_def)
  with starts assms(2,3) show ?thesis by (auto simp: loop_inv_def algebra_simps sorted_append)
next
  case returns
  with assms(2) show ?thesis by (auto simp: loop_inv_def)
qed

lemma loop_inv_run:
  assumes "loop_run interval cycle (loop_start cycle t w) s" "0 < interval"
  shows "loop_inv interval cycle t w s"
  using assms by (induction rule: rtranclp_induct) (auto intro: loop_inv_start loop_inv_step)

section \<open>What the schedulers do\<close>

definition collect_cycle ::
    "('s, 'f, 'e) Collector \<Rightarrow> ('f AggregatedCosts \<Rightarrow> 's \<Rightarrow> 'g option \<times> 's) \<Rightarrow> time \<Rightarrow> 's \<Rightarrow> 's" where
  "collect_cycle c store t s = snd (CycleOnce c store t s)"

definition run_costs ::
    "(('s, 'f, 'e) Collector, 'f AggregatedCosts \<Rightarrow> 's \<Rightarrow> 'g option \<times> 's) CostCollectionScheduler \<Rightarrow> time \<Rightarrow> 's \<Rightarrow>
     's loop \<Rightarrow> bool" where
  "run_costs sch t w = (let cycle = collect_cycle (cs_collector sch) (cs_store sch) in
     loop_run (cs_interval sch) cycle (loop_start cycle t w))"

definition run_forecasts ::
    "('f DailyCostRecord list \<Rightarrow> 'g + 'f Forecast, nat \<Rightarrow> 's \<Rightarrow> ('e + 'f DailyCostRecord list) \<times> 's,
      'f Forecast \<Rightarrow> 's \<Rightarrow> 'h option \<times> 's) ForecastScheduler \<Rightarrow> time \<Rightarrow> 's \<Rightarrow> 's loop \<Rightarrow> bool" where
  "run_forecasts sch t w = (let cycle = (\<lambda>_. ForecastOnce (fs_reader sch) (fs_forecaster sch) (fs_store sch)) in
     loop_run (fs_interval sch) cycle (loop_start cycle t w))"

text \<open>Once it has returned the loop does nothing any more.\<close>

lemma stopped_stays:
  "loop_step interval cycle s s' \<Longrightarrow> lp_Phase s = Stopped \<Longrightarrow>
   lp_Phase s' = Stopped \<and> lp_Starts s' = lp_Starts s \<and> lp_World s' = lp_World s"
  by (cases rule: loop_step.cases) auto

text \<open>After the end of the context the loop can always return, with no further cycle.\<close>

lemma cancelled_loop_stops:
  assumes "lp_Cancelled s" "lp_Phase s \<noteq> Stopped" "0 < interval"
  shows "\<exists>s'. loop_run interval cycle s s' \<and> lp_Phase s' = Stopped \<and> lp_Starts s' = lp_Starts s"
proof -
  have stop: "\<exists>s'. loop_run interval cycle u s' \<and> lp_Phase s' = Stopped \<and> lp_Starts s' = lp_Starts u"
    if "lp_Phase u = Waiting" "lp_Cancelled u" for u :: "'a loop"
    using r_into_rtranclp [of "loop_step interval cycle", OF returns [OF that]]
    by (intro exI [of _ "u\<lparr>lp_Phase := Stopped, lp_Next := None, lp_Pending := False\<rparr>"]) simp
  show ?thesis
  proof (cases "lp_Phase s")
    case Running
    obtain u where u: "loop_step interval cycle s u" "lp_Phase u = Waiting" "lp_Cancelled u" "lp_Starts u = lp_Starts s"
      using ends [OF Running assms(3), of cycle] assms(1) by fastforce
    from stop [OF u(2,3)] u(4) show ?thesis 
      using converse_rtranclp_into_rtranclp [of "loop_step interval cycle" s u, OF u(1)] by force
  qed (use stop [of s] assms in auto)
qed

text \<open>C23: whatever the order of ticks, cycles and cancellation, the cost scheduler has done what
  \<open>StartCycles\<close> does for the times at which its cycles started: the first at once, and then in
  ascending order, at most one per interval of five minutes since the start. It has returned only when its
  context was cancelled, and when that is so it can always return without another cycle.\<close>

theorem scheduler_runs_cycles:
  assumes "run_costs (NewCostCollectionScheduler c store) t w s"
  shows "\<exists>later. lp_Starts s = t # later \<and> lp_World s = StartCycles c store t later w \<and>
    sorted (t # later) \<and> int (length later) * (5 * minute) \<le> lp_Now s - t \<and>
    (lp_Phase s = Stopped \<longrightarrow> lp_Cancelled s) \<and>
    (lp_Cancelled s \<longrightarrow> (\<exists>s'. run_costs (NewCostCollectionScheduler c store) t w s' \<and>
       lp_Phase s' = Stopped \<and> lp_World s' = lp_World s))"
proof -
  let ?cycle = "collect_cycle c store" and ?I = DefaultCollectionInterval
  have I: "0 < ?I" by (simp add: DefaultCollectionInterval_def time_units)
  have run: "run_costs (NewCostCollectionScheduler c store) t w = loop_run ?I ?cycle (loop_start ?cycle t w)"
    by (simp add: run_costs_def NewCostCollectionScheduler_def Let_def)
  have inv: "loop_inv ?I ?cycle t w s" using assms loop_inv_run [OF _ I] by (simp add: run)
  then obtain later where later: "lp_Starts s = t # later" by (auto simp: loop_inv_def)
  with inv have world: "lp_World s = StartCycles c store t later w"
    by (simp add: loop_inv_def StartCycles_def collect_cycle_def [abs_def])
  have stop: "\<exists>s'. run_costs (NewCostCollectionScheduler c store) t w s' \<and> lp_Phase s' = Stopped \<and> lp_World s' = lp_World s"
    if c: "lp_Cancelled s"
  proof (cases "lp_Phase s = Stopped")
    case False
    then obtain s' where s': "loop_run ?I ?cycle s s'" "lp_Phase s' = Stopped" "lp_Starts s' = lp_Starts s"
      using cancelled_loop_stops [OF c False I] by blast
    then have "run_costs (NewCostCollectionScheduler c store) t w s'" using assms by (simp add: run)
    moreover from this have "loop_inv ?I ?cycle t w s'" using loop_inv_run [OF _ I] by (simp add: run)
    ultimately show ?thesis using s' inv by (auto simp: loop_inv_def)
  qed (use assms in blast)
  show ?thesis using inv later world stop by (auto simp: loop_inv_def DefaultCollectionInterval_def)
qed

text \<open>The forecast scheduler does what \<open>StartForecasts\<close> does for as many ticks as started a cycle, at
  most one per six hours.\<close>

lemma forecast_scheduler_runs:
  assumes "run_forecasts (NewForecastScheduler generate readDailyCosts storeForecast) t w s"
  shows "\<exists>later. lp_Starts s = t # later \<and>
    lp_World s = StartForecasts readDailyCosts generate storeForecast (length later) w \<and>
    int (length later) * (6 * hour) \<le> lp_Now s - t"
proof -
  let ?once = "ForecastOnce readDailyCosts generate storeForecast"
  have "loop_inv (6 * hour) (\<lambda>_. ?once) t w s"
    using assms loop_inv_run [of "6 * hour" "\<lambda>_. ?once" t w s]
    by (simp add: run_forecasts_def NewForecastScheduler_def Let_def time_units)
  then obtain later where later: "lp_Starts s = t # later" "lp_World s = fold (\<lambda>_. ?once) (t # later) w"
    "int (length later) * (6 * hour) \<le> lp_Now s - t" by (auto simp: loop_inv_def)
  have "fold (\<lambda>_. ?once) ts u = (?once ^^ length ts) u" for ts :: "time list" and u
    by (induction ts arbitrary: u) (simp_all add: funpow_swap1)
  then show ?thesis using later by (simp add: StartForecasts_def funpow_swap1)
qed

text \<open>When a tick waits and the context has ended, \<^verbatim>\<open>select\<close> may take the tick: a cycle can start
  after the cancellation.\<close>

lemma cycle_after_cancellation:
  "\<exists>s s'. run_costs (NewCostCollectionScheduler c store) t w s \<and> lp_Cancelled s \<and> lp_Phase s = Waiting \<and>
     loop_step DefaultCollectionInterval (collect_cycle c store) s s' \<and> lp_Phase s' = Running \<and>
     length (lp_Starts s') = 2"
proof -
  let ?cycle = "collect_cycle c store" and ?I = DefaultCollectionInterval
  let ?s0 = "loop_start ?cycle t w"
  let ?s1 = "?s0\<lparr>lp_Phase := Waiting, lp_Next := Some (t + ?I)\<rparr>"
  let ?s2 = "?s1\<lparr>lp_Now := t + ?I, lp_Next := Some (t + ?I + ?I), lp_Pending := True\<rparr>"
  let ?s3 = "?s2\<lparr>lp_Cancelled := True\<rparr>"
  have "loop_step ?I ?cycle ?s0 ?s1"
    using ends [of ?s0 ?I ?cycle] by (simp add: loop_start_def DefaultCollectionInterval_def time_units)
  moreover have "loop_step ?I ?cycle ?s1 ?s2" using ticks [of ?s1 "t + ?I" ?I ?cycle] by simp
  moreover have "loop_step ?I ?cycle ?s2 ?s3" by (rule cancelled)
  ultimately have "loop_run ?I ?cycle ?s0 ?s3" by (meson rtranclp.rtrancl_into_rtrancl rtranclp.rtrancl_refl)
  moreover have "loop_step ?I ?cycle ?s3 (?s3\<lparr>lp_Phase := Running, lp_Pending := False,
      lp_Starts := lp_Starts ?s3 @ [lp_Now ?s3], lp_World := ?cycle (lp_Now ?s3) (lp_World ?s3)\<rparr>)"
    by (rule starts) simp_all
  ultimately show ?thesis
    by (intro exI [of _ ?s3] exI conjI, simp add: run_costs_def NewCostCollectionScheduler_def Let_def)
      (assumption | simp add: loop_start_def)+
qed

lemma scheduler_runs_cycles_witness:
  "\<exists>s later. run_costs (NewCostCollectionScheduler demo_collector (\<lambda>a n. (None :: unit option, n + 1))) 0 0 s \<and>
     lp_Starts s = 0 # later \<and> lp_World s = StartCycles demo_collector (\<lambda>a n. (None :: unit option, n + 1)) 0 later 0 \<and>
     length later = 1"
proof -
  let ?sch = "NewCostCollectionScheduler demo_collector (\<lambda>a n. (None :: unit option, n + 1))"
  obtain s s' where s: "run_costs ?sch 0 0 s"
    "loop_step DefaultCollectionInterval (collect_cycle demo_collector (\<lambda>a n. (None :: unit option, n + 1))) s s'"
    "length (lp_Starts s') = 2"
    using cycle_after_cancellation [of demo_collector "\<lambda>a n. (None :: unit option, n + 1)" 0 0] by blast
  then have "run_costs ?sch 0 0 s'"
    by (auto simp: run_costs_def NewCostCollectionScheduler_def Let_def intro: rtranclp.rtrancl_into_rtrancl)
  with s(3) show ?thesis using scheduler_runs_cycles [of demo_collector "\<lambda>a n. (None :: unit option, n + 1)" 0 0 s']
    by (fastforce simp del: One_nat_def)
qed

end
