(* ===== verification/Random_Draws.thy ===== *)
theory Random_Draws
  imports Prelude "HOL-Library.Monad_Syntax"
begin

text \<open>
  What the generators of \<^verbatim>\<open>tests/generators\<close> use: the regular expressions of Go in which they
  write the texts they want, and the package \<^verbatim>\<open>pgregory.net/rapid\<close>, which is a parameter. A draw
  takes the state of the test and gives a value with the next state, or \<open>None\<close> when it panics.
  The locale \<open>random_draws\<close> states what the documentation of \<^verbatim>\<open>rapid\<close> promises of each draw, and
  \<open>yields\<close> is the total correctness of a computation that draws: it returns, and its value
  satisfies a predicate.
\<close>

section \<open>Regular expressions\<close>

text \<open>
  An item is a set of bytes with the least and, where there is one, the largest number of them.
  The fragment has single characters, classes without negation, the dot and the quantifiers; the dot
  stands for a character other than the end of a line, which UTF-8 writes in one to four bytes.
\<close>

type_synonym item = "char list \<times> nat \<times> nat option"

definition ascii :: "char \<Rightarrow> bool" where
  "ascii c \<longleftrightarrow> (of_char c :: nat) < 128"

definition char_range :: "char \<Rightarrow> char \<Rightarrow> char list" where
  "char_range a b = map char_of [of_char a ..< Suc (of_char b)]"

text \<open>The bytes of a class and the text after it.\<close>

definition in_class :: "char \<Rightarrow> bool" where
  "in_class c \<longleftrightarrow> ascii c \<and> c \<notin> set ''[]^-'' \<and> c \<noteq> CHR 0x5C"

fun class_chars :: "string \<Rightarrow> (char list \<times> string) option" where
  "class_chars (c # d # e # cs) =
     (if c = CHR '']'' then Some ([], d # e # cs)
      else if \<not> in_class c then None
      else if d = CHR ''-'' then
        (if in_class e \<and> (of_char c :: nat) \<le> of_char e
         then map_option (apfst ((@) (char_range c e))) (class_chars cs) else None)
      else map_option (apfst ((#) c)) (class_chars (d # e # cs)))"
| "class_chars [c, d] =
     (if c = CHR '']'' then Some ([], [d]) else if in_class c \<and> d = CHR '']'' then Some ([c], []) else None)"
| "class_chars [c] = (if c = CHR '']'' then Some ([], []) else None)"
| "class_chars [] = None"

definition any_byte :: "char list" where
  "any_byte = filter (\<lambda>c. c \<noteq> CHR 0x0A) (map char_of [0..<256])"

text \<open>An atom: its bytes, how many of them one character has at most, and the text after it.\<close>

definition atom :: "string \<Rightarrow> (char list \<times> nat \<times> string) option" where
  "atom s = (case s of [] \<Rightarrow> None
     | c # cs \<Rightarrow>
         if c = CHR ''['' then map_option (\<lambda>(bs, r). (bs, 1, r)) (class_chars cs)
         else if c = CHR 0x5C then
           (case cs of [] \<Rightarrow> None
            | d # r \<Rightarrow> if d = CHR ''.'' \<or> d = CHR 0x5C then Some ([d], 1, r) else None)
         else if c = CHR ''.'' then Some (any_byte, 4, cs)
         else if \<not> ascii c \<or> c \<in> set ''()|*+?{}^$'' then None
         else Some ([c], 1, cs))"

text \<open>A quantifier: the least and the largest number, and the text after it.\<close>

definition digit :: "char \<Rightarrow> bool" where
  "digit c \<longleftrightarrow> c \<in> set ''0123456789''"

definition number :: "string \<Rightarrow> (nat \<times> string) option" where
  "number s = (let ds = takeWhile digit s in
     if ds = [] \<or> 1000 < of_digits ds then None else Some (of_digits ds, drop (length ds) s))"

definition repeat_count :: "string \<Rightarrow> (nat \<times> nat option \<times> string) option" where
  "repeat_count s = (case number s of None \<Rightarrow> None
     | Some (m, r) \<Rightarrow>
         if HasPrefix r ''}'' then Some (m, Some m, drop 1 r)
         else if HasPrefix r '',}'' then Some (m, None, drop 2 r)
         else if HasPrefix r '','' then
           (case number (drop 1 r) of None \<Rightarrow> None
            | Some (n, r') \<Rightarrow> if HasPrefix r' ''}'' then Some (m, Some n, drop 1 r') else None)
         else None)"

definition quantifier :: "string \<Rightarrow> (nat \<times> nat option \<times> string) option" where
  "quantifier s = (case s of [] \<Rightarrow> Some (1, Some 1, [])
     | c # r \<Rightarrow>
         if c = CHR ''?'' then Some (0, Some 1, r)
         else if c = CHR ''*'' then Some (0, None, r)
         else if c = CHR ''+'' then Some (1, None, r)
         else if c = CHR ''{'' then repeat_count r
         else Some (1, Some 1, s))"

lemma class_chars_shorter: "class_chars s = Some (bs, r) \<Longrightarrow> length r < length s"
proof (induction s arbitrary: bs r rule: class_chars.induct)
  case (1 c d e cs)
  then show ?case by (fastforce split: if_splits)
qed (auto split: if_splits)

lemma atom_shorter: "atom s = Some (bs, w, r) \<Longrightarrow> length r < length s"
  by (auto simp: atom_def dest!: class_chars_shorter split: list.splits if_splits)

lemma number_no_longer: "number s = Some (n, r) \<Longrightarrow> length r \<le> length s"
  by (auto simp: number_def Let_def split: if_splits)

lemma repeat_count_no_longer: "repeat_count s = Some (m, n, r) \<Longrightarrow> length r \<le> length s"
  by (fastforce simp: repeat_count_def dest!: number_no_longer split: option.splits if_splits)

lemma quantifier_no_longer: "quantifier s = Some (m, n, r) \<Longrightarrow> length r \<le> length s"
  by (fastforce simp: quantifier_def dest: repeat_count_no_longer split: list.splits if_splits)

function parse_items :: "string \<Rightarrow> item list option" where
  "parse_items s = (if s = [] then Some [] else
     (case atom s of None \<Rightarrow> None
      | Some (bs, w, r) \<Rightarrow>
          (case quantifier r of None \<Rightarrow> None
           | Some (m, n, r') \<Rightarrow> map_option ((#) (bs, m, map_option ((*) w) n)) (parse_items r'))))"
  by pat_completeness auto

termination parse_items
  by (relation "measure length") (auto dest!: atom_shorter quantifier_no_longer)

declare parse_items.simps [simp del]

lemma parse_step:
  "parse_items [] = Some []"
  "atom s = Some (bs, w, r) \<Longrightarrow> quantifier r = Some (m, n, r') \<Longrightarrow>
   parse_items s = map_option ((#) (bs, m, map_option ((*) w) n)) (parse_items r')"
  by (cases "s = []") (auto simp: parse_items.simps [of s] parse_items.simps [of "[]"] atom_def)

lemma char_range_Nil: "char_range a b = [] \<longleftrightarrow> (of_char b :: nat) < of_char a"
  by (auto simp: char_range_def)

lemma any_byte_Nil: "any_byte \<noteq> []"
proof -
  have "char_of (97::nat) \<noteq> CHR 0x0A" by code_simp
  then have "char_of (97::nat) \<in> set any_byte" by (auto simp: any_byte_def)
  then show ?thesis by auto
qed

lemmas parse_simps = char_range_Nil any_byte_Nil parse_step atom_def quantifier_def repeat_count_def number_def digit_def Let_def
  HasPrefix_def of_digits_def ascii_def in_class_def

definition good_item :: "item \<Rightarrow> bool" where
  "good_item it \<longleftrightarrow> (case it of (bs, m, n) \<Rightarrow> bs \<noteq> [] \<and> (case n of None \<Rightarrow> True | Some k \<Rightarrow> m \<le> k))"

definition compile :: "string \<Rightarrow> item list option" where
  "compile s = (case parse_items s of None \<Rightarrow> None | Some rx \<Rightarrow> if list_all good_item rx then Some rx else None)"

fun matches :: "item list \<Rightarrow> string \<Rightarrow> bool" where
  "matches [] s \<longleftrightarrow> s = []"
| "matches ((bs, m, n) # rx) s \<longleftrightarrow>
     list_ex (\<lambda>k. (case n of None \<Rightarrow> True | Some k' \<Rightarrow> k \<le> k') \<and> list_all (\<lambda>c. c \<in> set bs) (take k s) \<and>
       matches rx (drop k s)) [m..<Suc (length s)]"

text \<open>A shortest text of the language.\<close>

definition shortest :: "item list \<Rightarrow> string" where
  "shortest rx = concat (map (\<lambda>(bs, m, n). replicate m (hd bs)) rx)"

lemma matches_item:
  "m \<le> length u \<Longrightarrow> (case n of None \<Rightarrow> True | Some k \<Rightarrow> length u \<le> k) \<Longrightarrow> set u \<subseteq> set bs \<Longrightarrow>
   matches rx s \<Longrightarrow> matches ((bs, m, n) # rx) (u @ s)"
  unfolding matches.simps list_ex_iff by (rule bexI [of _ "length u"]) (auto simp: list_all_iff)

lemma matches_shortest: "list_all good_item rx \<Longrightarrow> matches rx (shortest rx)"
proof (induction rx)
  case (Cons it rx)
  obtain bs m n where it: "it = (bs, m, n)" by (cases it)
  have "matches ((bs, m, n) # rx) (replicate m (hd bs) @ shortest rx)"
    using Cons by (intro matches_item) (auto simp: it good_item_def split: option.splits)
  then show ?case by (simp add: it shortest_def)
qed (simp add: shortest_def)

lemma matches_length: "matches rx s \<Longrightarrow> (\<Sum>(bs, m, n)\<leftarrow>rx. m) \<le> length s"
proof (induction rx arbitrary: s)
  case (Cons it rx)
  obtain bs m n where it: "it = (bs, m, n)" by (cases it)
  with Cons.prems obtain k where "m \<le> k" "k \<le> length s" "matches rx (drop k s)"
    by (auto simp: list_ex_iff)
  with Cons.IH [of "drop k s"] show ?case by (simp add: it)
qed simp

text \<open>Every item that has to occur leaves one of its bytes in the text.\<close>

lemma matches_occurs:
  "matches rx s \<Longrightarrow> (bs, m, n) \<in> set rx \<Longrightarrow> 1 \<le> m \<Longrightarrow> \<exists>c\<in>set bs. c \<in> set s"
proof (induction rx arbitrary: s)
  case (Cons it rx)
  obtain bs' m' n' where it: "it = (bs', m', n')" by (cases it)
  with Cons.prems(1) obtain k where k: "m' \<le> k" "k \<le> length s" "list_all (\<lambda>c. c \<in> set bs') (take k s)"
    "matches rx (drop k s)" by (auto simp: list_ex_iff)
  show ?case
  proof (cases "(bs, m, n) \<in> set rx")
    case True
    with Cons.IH [OF k(4)] Cons.prems(3) show ?thesis by (meson in_set_dropD)
  next
    case False
    with Cons.prems it have "bs' = bs" "m' = m" by auto
    with k Cons.prems(3) have "s ! 0 \<in> set bs" by (auto simp: list_all_length)
    moreover have "s \<noteq> []" using k(1,2) \<open>m' = m\<close> Cons.prems(3) by auto
    then have "s ! 0 \<in> set s" by (intro nth_mem) simp
    ultimately show ?thesis by blast
  qed
qed simp

section \<open>Draws\<close>

record ('t, 'f) rapid =
  IntRange :: "int \<Rightarrow> int \<Rightarrow> 't \<Rightarrow> (int \<times> 't) option"
  Float64Range :: "'f \<Rightarrow> 'f \<Rightarrow> 't \<Rightarrow> ('f \<times> 't) option"
  Boolean :: "'t \<Rightarrow> (bool \<times> 't) option"
  StringMatching :: "string \<Rightarrow> 't \<Rightarrow> (string \<times> 't) option"
  SliceOfN :: "('t \<Rightarrow> (string \<times> 't) option) \<Rightarrow> int \<Rightarrow> int \<Rightarrow> 't \<Rightarrow> (string list \<times> 't) option"
  Now :: "'t \<Rightarrow> time \<times> 't"

text \<open>A computation returns, with a value that satisfies the predicate.\<close>

definition yields :: "('a \<times> 't) option \<Rightarrow> ('a \<Rightarrow> bool) \<Rightarrow> bool" where
  "yields m P \<longleftrightarrow> (\<exists>x t. m = Some (x, t) \<and> P x)"

lemma yields_return: "P x \<Longrightarrow> yields (Some (x, t)) P"
  by (simp add: yields_def)

lemma yields_bind:
  "yields m Q \<Longrightarrow> (\<And>x t. Q x \<Longrightarrow> yields (f x t) P) \<Longrightarrow> yields (m \<bind> (\<lambda>(x, t). f x t)) P"
  by (auto simp: yields_def)

lemma yields_let: "(\<And>x t. yields (f x t) P) \<Longrightarrow> yields (let (x, t) = m in f x t) P"
  by (simp add: split_beta)

lemma yields_if: "(b \<Longrightarrow> yields m P) \<Longrightarrow> (\<not> b \<Longrightarrow> yields m' P) \<Longrightarrow> yields (if b then m else m') P"
  by simp

lemma yields_weaken: "yields m Q \<Longrightarrow> (\<And>x. Q x \<Longrightarrow> P x) \<Longrightarrow> yields m P"
  by (auto simp: yields_def)

lemma yields_value: "yields m P \<Longrightarrow> m = Some (x, t) \<Longrightarrow> P x"
  by (simp add: yields_def)

text \<open>The element of a slice at an index, which panics outside the slice.\<close>

definition at_index :: "'a list \<Rightarrow> int \<Rightarrow> 't \<Rightarrow> ('a \<times> 't) option" where
  "at_index xs i t = (if 0 \<le> i \<and> i < int (length xs) then Some (xs ! nat i, t) else None)"

lemma yields_at_index: "0 \<le> i \<Longrightarrow> i < int (length xs) \<Longrightarrow> yields (at_index xs i t) (\<lambda>x. x \<in> set xs)"
  by (simp add: at_index_def yields_def)

text \<open>The loop that fills a slice of \<open>n\<close> elements.\<close>

primrec draw_each :: "nat \<Rightarrow> ('t \<Rightarrow> ('a \<times> 't) option) \<Rightarrow> 't \<Rightarrow> ('a list \<times> 't) option" where
  "draw_each 0 g t = Some ([], t)"
| "draw_each (Suc n) g t = do {(x, t) \<leftarrow> g t; (xs, t) \<leftarrow> draw_each n g t; Some (x # xs, t)}"

lemma yields_draw_each:
  assumes "\<And>t. yields (g t) P"
  shows "yields (draw_each n g t) (\<lambda>xs. length xs = n \<and> list_all P xs)"
proof (induction n arbitrary: t)
  case (Suc n)
  show ?case
    unfolding draw_each.simps by (rule yields_bind [OF assms], rule yields_bind [OF Suc]) (simp add: yields_def)
qed (simp add: yields_def)

text \<open>The loop that draws for each of the given indices, in their order.\<close>

primrec draw_for :: "'i list \<Rightarrow> ('i \<Rightarrow> 't \<Rightarrow> ('a \<times> 't) option) \<Rightarrow> 't \<Rightarrow> ('a list \<times> 't) option" where
  "draw_for [] g t = Some ([], t)"
| "draw_for (i # is) g t = do {(x, t) \<leftarrow> g i t; (xs, t) \<leftarrow> draw_for is g t; Some (x # xs, t)}"

lemma yields_draw_for:
  assumes "\<And>i t. i \<in> set is \<Longrightarrow> yields (g i t) (P i)"
  shows "yields (draw_for is g t) (list_all2 P is)"
  using assms
proof (induction "is" arbitrary: t)
  case (Cons i "is")
  show ?case
    unfolding draw_for.simps
    by (rule yields_bind [OF Cons.prems], simp, rule yields_bind [OF Cons.IH])
      (simp_all add: Cons.prems yields_return)
qed (simp add: yields_def)

text \<open>What the documentation of \<^verbatim>\<open>rapid\<close> promises: a draw from a range that is not empty is in it (it
  panics when the range is empty, of which nothing is assumed), a text drawn for a regular
  expression matches it, and a slice has as many elements as asked for, each drawn from the
  generator of the elements.\<close>

locale random_draws = ordered_arith fin
  for fin :: "'f::{zero,one,plus,minus,times,inverse,ord,scaleR} \<Rightarrow> bool" +
  fixes r :: "('t, 'f) rapid"
  assumes int_range: "lo \<le> hi \<Longrightarrow> yields (IntRange r lo hi t) (\<lambda>i. lo \<le> i \<and> i \<le> hi)"
    and float_range: "fin x \<Longrightarrow> fin y \<Longrightarrow> x \<le> y \<Longrightarrow>
      yields (Float64Range r x y t) (\<lambda>z. x \<le> z \<and> z \<le> y \<and> fin z)"
    and boolean: "yields (Boolean r t) (\<lambda>b. True)"
    and string_matching: "compile re = Some rx \<Longrightarrow> yields (StringMatching r re t) (matches rx)"
    and slice_of_n: "0 \<le> lo \<Longrightarrow> lo \<le> hi \<Longrightarrow> (\<And>t. yields (g t) P) \<Longrightarrow>
      yields (SliceOfN r g lo hi t) (\<lambda>ss. lo \<le> int (length ss) \<and> int (length ss) \<le> hi \<and> list_all P ss)"
begin

lemma index_drawn:
  "xs \<noteq> [] \<Longrightarrow> yields (do {(i, t) \<leftarrow> IntRange r 0 (int (length xs) - 1) t; at_index xs i t}) (\<lambda>x. x \<in> set xs)"
  by (rule yields_bind [OF int_range]) (auto simp: Suc_le_eq intro!: yields_at_index)

lemma index_in:
  "xs \<noteq> [] \<Longrightarrow> (\<And>x t. x \<in> set xs \<Longrightarrow> yields (f x t) P) \<Longrightarrow>
   yields (do {(i, t) \<leftarrow> IntRange r 0 (int (length xs) - 1) t; (x, t) \<leftarrow> at_index xs i t; f x t}) P"
  by (rule yields_bind [OF int_range]) (auto simp: Suc_le_eq intro!: yields_bind [OF yields_at_index])

end

text \<open>A source of draws that reads its choices off a list: an integer chooses from a range of integers,
  its parity between the ends of a range of numbers and between the truth values; texts are
  shortest ones and the clock stands still.\<close>

type_synonym seed = "int list"

definition seed_hd :: "seed \<Rightarrow> int" where
  "seed_hd t = (case t of [] \<Rightarrow> 0 | n # _ \<Rightarrow> n)"

definition seeded_int :: "int \<Rightarrow> int \<Rightarrow> seed \<Rightarrow> (int \<times> seed) option" where
  "seeded_int lo hi t = (if lo \<le> hi then Some (lo + seed_hd t mod (hi - lo + 1), drop 1 t) else None)"

definition seeded_text :: "string \<Rightarrow> seed \<Rightarrow> (string \<times> seed) option" where
  "seeded_text re t = map_option (\<lambda>rx. (shortest rx, t)) (compile re)"

definition seeded :: "(seed, 'f::ord) rapid" where
  "seeded = \<lparr>IntRange = seeded_int,
     Float64Range = (\<lambda>lo hi t. if lo \<le> hi then Some (if even (seed_hd t) then lo else hi, drop 1 t) else None),
     Boolean = (\<lambda>t. Some (odd (seed_hd t), drop 1 t)),
     StringMatching = seeded_text,
     SliceOfN = (\<lambda>g lo hi t. do {(n, t) \<leftarrow> seeded_int lo hi t; draw_each (nat n) g t}),
     Now = (\<lambda>t. (0, t))\<rparr>"

lemma seeded_simps:
  "IntRange seeded = seeded_int" "StringMatching seeded = seeded_text" "Now seeded t = (0, t)"
  "Boolean seeded t = Some (odd (seed_hd t), drop 1 t)"
  "Float64Range seeded lo hi t = (if lo \<le> hi then Some (if even (seed_hd t) then lo else hi, drop 1 t) else None)"
  by (simp_all add: seeded_def)

lemma seeded_int_range: "lo \<le> hi \<Longrightarrow> yields (seeded_int lo hi t) (\<lambda>i. lo \<le> i \<and> i \<le> hi)"
  using pos_mod_bound [of "hi - lo + 1" "seed_hd t"] by (simp add: seeded_int_def yields_def)

lemma compile_shortest: "compile re = Some rx \<Longrightarrow> matches rx (shortest rx)"
  by (auto simp: compile_def matches_shortest split: option.splits if_splits)

lemma seeded_draws:
  assumes "ordered_arith fin"
  shows "random_draws fin seeded"
proof (intro random_draws.intro assms random_draws_axioms.intro, goal_cases)
  case (5 lo hi g P t)
  have "yields (do {(n, t) \<leftarrow> seeded_int lo hi t; draw_each (nat n) g t})
      (\<lambda>ss. lo \<le> int (length ss) \<and> int (length ss) \<le> hi \<and> list_all P ss)"
    using 5 by (intro yields_bind [OF seeded_int_range] yields_weaken [OF yields_draw_each]) auto
  then show ?case by (simp add: seeded_def)
qed (use seeded_int_range compile_shortest ordered_arith.le_refl [OF assms] in
    \<open>auto simp: seeded_def seeded_text_def yields_def\<close>)

interpretation drawn: random_draws is_fin "seeded :: (seed, f64) rapid"
  by (rule seeded_draws) (rule ieee.ordered_arith_axioms)

interpretation drawn_exactly: random_draws "\<lambda>_::real. True" "seeded :: (seed, real) rapid"
  by (rule seeded_draws) (rule exact.ordered_arith_axioms)

end
