(* ===== verification/Policy_Generators.thy ===== *)
theory Policy_Generators
  imports Random_Draws Policy_Validate Kube_Api
begin

text \<open>
  \<^verbatim>\<open>tests/generators/policy_gen.go\<close>: policies for property-based tests, drawn from a source of the
  theory \<open>Random_Draws\<close> in the order of the code. The properties say of all draws that the policies
  called valid pass \<open>ValidateFinancialPolicy\<close> and that each defect of the invalid ones is
  reported, and no generator asks for a draw from an empty range.
\<close>

unbundle bit_operations_syntax

section \<open>The generators\<close>

definition PolicyMode :: "('t, 'f) rapid \<Rightarrow> 't \<Rightarrow> (string \<times> 't) option" where
  "PolicyMode r t = (let modes = [PolicyModeAutomatic, PolicyModeAdvisory] in
     do {(i, t) \<leftarrow> IntRange r 0 (int (length modes) - 1) t; at_index modes i t})"

definition gen_BreachAction :: "('t, 'f) rapid \<Rightarrow> 't \<Rightarrow> (string \<times> 't) option" where
  "gen_BreachAction r t =
     (let actions = [BreachActionAlert, BreachActionThrottle, BreachActionBlockDeployments] in
      do {(i, t) \<leftarrow> IntRange r 0 (int (length actions) - 1) t; at_index actions i t})"

text \<open>\<^verbatim>\<open>sort.Float64s\<close>, whose order puts NaN first.\<close>

primrec insert_float :: "'f::ord \<Rightarrow> 'f list \<Rightarrow> 'f list" where
  "insert_float x [] = [x]"
| "insert_float x (y # ys) = (if cmpLess y x then y # insert_float x ys else x # y # ys)"

definition Float64s :: "'f::ord list \<Rightarrow> 'f list" where
  "Float64s xs = foldr insert_float xs []"

text \<open>The bit mask is an \<^verbatim>\<open>int\<close> with one bit for each of the values.\<close>

definition sortedSubset ::
    "('t, 'f) rapid \<Rightarrow> 'f::ord list \<Rightarrow> 't \<Rightarrow> ('f list \<times> 't) option" where
  "sortedSubset r values t = (let n = length values in
     do {(mask, t) \<leftarrow> IntRange r 1 (int64 (int64 (push_bit n 1) - 1)) t;
         Some (Float64s (map ((!) values) (filter (\<lambda>i. mask AND push_bit i 1 \<noteq> 0) [0..<n])), t)})"

definition channel_types :: "string list" where
  "channel_types = [''slack'', ''email'', ''pagerduty'', ''sns'']"

text \<open>The expression of the endpoints, as the raw string literal has it.\<close>

definition endpoint_pattern :: string where
  "endpoint_pattern = ''https://[a-z]{5,10}'' @ [CHR 0x5C, CHR 0x5C] @ ''.example'' @
     [CHR 0x5C, CHR 0x5C] @ ''.com''"

definition gen_channel :: "('t, 'f) rapid \<Rightarrow> 't \<Rightarrow> (AlertingChannelSpec \<times> 't) option" where
  "gen_channel r t =
     do {(i, t) \<leftarrow> IntRange r 0 (int (length channel_types) - 1) t;
         (chType, t) \<leftarrow> at_index channel_types i t;
         (endpoint, t) \<leftarrow> StringMatching r endpoint_pattern t;
         Some (\<lparr>ch_Type = chType, ch_Config = [''endpoint'' \<mapsto> endpoint]\<rparr>, t)}"

definition gen_window :: "('t, 'f) rapid \<Rightarrow> 't \<Rightarrow> (SilenceWindowSpec \<times> 't) option" where
  "gen_window r t = (let (start, t) = Now r t in
     do {(reason, t) \<leftarrow> StringMatching r ''[a-z ]{5,30}'' t;
         Some (\<lparr>sw_Start = start, sw_End = start + 3600000000000, sw_Reason = reason\<rparr>, t)})"

definition alertingSpec :: "('t, 'f) rapid \<Rightarrow> 't \<Rightarrow> (AlertingSpec \<times> 't) option" where
  "alertingSpec r t =
     do {(numChannels, t) \<leftarrow> IntRange r 1 3 t;
         (channels, t) \<leftarrow> draw_each (nat numChannels) (gen_channel r) t;
         (has_windows, t) \<leftarrow> Boolean r t;
         if has_windows then
           do {(numWindows, t) \<leftarrow> IntRange r 1 2 t;
               (windows, t) \<leftarrow> draw_each (nat numWindows) (gen_window r) t;
               Some (\<lparr>Channels = channels, SilenceWindows = windows\<rparr>, t)}
         else Some (\<lparr>Channels = channels, SilenceWindows = []\<rparr>, t)}"

definition type_pattern :: string where
  "type_pattern = ''[a-z][0-9][a-z]?'' @ [CHR 0x5C] @ ''.[a-z]+''"

definition gen_mix :: "('t, 'f::{zero,one,scaleR}) rapid \<Rightarrow> 't \<Rightarrow> ('f InstanceMixSpec option \<times> 't) option" where
  "gen_mix r t =
     do {(has_mix, t) \<leftarrow> Boolean r t;
         if has_mix then
           do {(minOD, t) \<leftarrow> Float64Range r 0 (lit 100) t;
               (maxSpot, t) \<leftarrow> Float64Range r 0 (lit 100) t;
               (instanceTypes, t) \<leftarrow>
                 SliceOfN r (StringMatching r type_pattern) 0 5 t;
               Some (Some \<lparr>MinOnDemandPercent = minOD, MaxSpotPercent = maxSpot,
                 AllowedInstanceTypes = instanceTypes\<rparr>, t)}
         else Some (None, t)}"

definition gen_alerting :: "('t, 'f) rapid \<Rightarrow> 't \<Rightarrow> (AlertingSpec option \<times> 't) option" where
  "gen_alerting r t =
     do {(has_alerting, t) \<leftarrow> Boolean r t;
         if has_alerting then do {(al, t) \<leftarrow> alertingSpec r t; Some (Some al, t)} else Some (None, t)}"

definition gen_policy :: "string \<Rightarrow> string \<Rightarrow> 'f FinancialPolicySpec \<Rightarrow> 'f::zero FinancialPolicy" where
  "gen_policy name ns spec = \<lparr>Name = name, Namespace = ns, Annotations = None, ResourceVersion = [],
     Spec = spec, Status = empty_status\<rparr>"

definition ValidFinancialPolicy ::
    "('t, 'f::{zero,one,ord,scaleR}) rapid \<Rightarrow> 't \<Rightarrow> ('f FinancialPolicy \<times> 't) option" where
  "ValidFinancialPolicy r t =
     do {(ns, t) \<leftarrow> StringMatching r ''[a-z]{3,20}'' t;
         (monthlyLimit, t) \<leftarrow> Float64Range r (lit 1) (lit 100000) t;
         (thresholds, t) \<leftarrow> sortedSubset r [lit 50, lit 80, lit 90, lit 100] t;
         (breachAction, t) \<leftarrow> gen_BreachAction r t;
         (mode, t) \<leftarrow> PolicyMode r t;
         (version, t) \<leftarrow> IntRange r 1 100 t;
         (mix, t) \<leftarrow> gen_mix r t;
         (alerting, t) \<leftarrow> gen_alerting r t;
         (name, t) \<leftarrow> StringMatching r ''[a-z]{3,15}'' t;
         Some (gen_policy name ns
           \<lparr>TargetNamespace = ns,
            Budget = \<lparr>MonthlyLimit = monthlyLimit, AlertThresholds = thresholds, BreachAction = breachAction\<rparr>,
            InstanceMix = mix, Mode = mode, Alerting = alerting, Version = version\<rparr>, t)}"

definition bare_spec :: "string \<Rightarrow> 'f \<Rightarrow> 'f InstanceMixSpec option \<Rightarrow> 'f FinancialPolicySpec" where
  "bare_spec ns limit mix = \<lparr>TargetNamespace = ns,
     Budget = \<lparr>MonthlyLimit = limit, AlertThresholds = [], BreachAction = []\<rparr>,
     InstanceMix = mix, Mode = [], Alerting = None, Version = 0\<rparr>"

text \<open>The specification with the given defect; the specification of another number stays empty.\<close>

definition defective_spec ::
    "('t, 'f::{zero,one,ord,scaleR,uminus}) rapid \<Rightarrow> int \<Rightarrow> 't \<Rightarrow> ('f FinancialPolicySpec \<times> 't) option" where
  "defective_spec r defect t =
     (if defect = 0 then
        do {(limit, t) \<leftarrow> Float64Range r (lit 1) (lit 100000) t; Some (bare_spec [] limit None, t)}
      else if defect = 1 then
        do {(ns, t) \<leftarrow> StringMatching r ''[a-z]{3,20}'' t;
            (limit, t) \<leftarrow> Float64Range r (lit 1) (lit 100000) t; Some (bare_spec ns (- limit) None, t)}
      else if defect = 2 then
        do {(ns, t) \<leftarrow> StringMatching r ''[a-z]{3,20}'' t;
            (limit, t) \<leftarrow> Float64Range r (lit 1) (lit 100000) t;
            (minOD, t) \<leftarrow> Float64Range r (lit 101) (lit 200) t;
            (maxSpot, t) \<leftarrow> Float64Range r (lit 101) (lit 200) t;
            Some (bare_spec ns limit (Some \<lparr>MinOnDemandPercent = minOD, MaxSpotPercent = maxSpot,
              AllowedInstanceTypes = []\<rparr>), t)}
      else if defect = 3 then
        do {(ns, t) \<leftarrow> StringMatching r ''[a-z]{3,20}'' t; Some (bare_spec ns 0 None, t)}
      else Some (bare_spec [] 0 None, t))"

definition InvalidFinancialPolicy ::
    "('t, 'f::{zero,one,ord,scaleR,uminus}) rapid \<Rightarrow> 't \<Rightarrow> ('f FinancialPolicy \<times> 't) option" where
  "InvalidFinancialPolicy r t =
     do {(defect, t) \<leftarrow> IntRange r 0 3 t;
         (name, t) \<leftarrow> StringMatching r ''[a-z]{3,15}'' t;
         (spec, t) \<leftarrow> defective_spec r defect t;
         Some (gen_policy name ''default'' spec, t)}"

section \<open>What they give\<close>

text \<open>The expressions of the generators.\<close>

lemma patterns:
  "compile ''[a-z]{3,20}'' = Some [(char_range CHR ''a'' CHR ''z'', 3, Some 20)]"
  "compile ''[a-z]{3,15}'' = Some [(char_range CHR ''a'' CHR ''z'', 3, Some 15)]"
  "compile ''[a-z ]{5,30}'' = Some [(char_range CHR ''a'' CHR ''z'' @ '' '', 5, Some 30)]"
  by (simp_all add: compile_def parse_simps good_item_def)

lemma pattern_texts:
  "(case compile endpoint_pattern of None \<Rightarrow> False | Some rx \<Rightarrow> ([CHR 0x5C], 1, Some 1) \<in> set rx)"
  "compile type_pattern \<noteq> None"
  by (simp_all add: endpoint_pattern_def type_pattern_def compile_def parse_simps good_item_def)

context random_draws
begin

lemma fin_less: "fin x \<Longrightarrow> fin y \<Longrightarrow> cmpLess x y \<longleftrightarrow> x < y"
  by (auto simp: cmpLess_def isNaN_def dest: le_refl)

lemma set_insert_float: "set (insert_float x ys) = insert x (set ys)"
  by (induction ys) auto

lemma sorted_insert_float:
  "fin x \<Longrightarrow> list_all fin ys \<Longrightarrow> Float64sAreSorted ys \<Longrightarrow> Float64sAreSorted (insert_float x ys)"
proof (induction ys rule: Float64sAreSorted.induct)
  case (1 y z zs)
  then show ?case by (auto simp: fin_less less_asym dest: less_le)
qed (auto simp: fin_less dest: less_le less_asym)

lemma Float64s_sorts:
  "list_all fin xs \<Longrightarrow> set (Float64s xs) = set xs \<and> Float64sAreSorted (Float64s xs)"
proof (induction xs)
  case (Cons x xs)
  then show ?case
    by (auto simp: Float64s_def set_insert_float list_all_iff intro!: sorted_insert_float)
qed (simp add: Float64s_def)

text \<open>One rule for each generator, which the proofs about the others use.\<close>

lemma yields_pattern:
  "compile re = Some rx \<Longrightarrow> yields (StringMatching r re t) (\<lambda>s. (\<Sum>(bs, m, n)\<leftarrow>rx. m) \<le> length s)"
  by (rule yields_weaken [OF string_matching]) (auto dest: matches_length)

lemma yields_namespace: "yields (StringMatching r ''[a-z]{3,20}'' t) (\<lambda>s. s \<noteq> [])"
  by (rule yields_weaken [OF yields_pattern [OF patterns(1)]]) auto

lemma yields_PolicyMode: "yields (PolicyMode r t) (\<lambda>m. m \<in> set validModes)"
  unfolding PolicyMode_def Let_def
  by (rule yields_weaken [OF index_drawn]) (auto simp: validModes_def)

lemma yields_BreachAction: "yields (gen_BreachAction r t) (\<lambda>a. a \<in> set validBreachActions)"
  unfolding gen_BreachAction_def Let_def
  by (rule yields_weaken [OF index_drawn]) (auto simp: validBreachActions_def)

lemma yields_channel: "yields (gen_channel r t)
    (\<lambda>ch. ch_Type ch \<in> set validChannelTypes \<and>
      (\<exists>e. ch_Config ch = [''endpoint'' \<mapsto> e] \<and> CHR 0x5C \<in> set e))"
proof -
  from pattern_texts(1) obtain rx
    where rx: "compile endpoint_pattern = Some rx" "([CHR 0x5C], 1, Some 1) \<in> set rx"
    by (auto split: option.splits)
  have endpoint: "yields (StringMatching r endpoint_pattern t) (\<lambda>e. CHR 0x5C \<in> set e)" for t
    by (rule yields_weaken [OF string_matching [OF rx(1)]]) (use matches_occurs [OF _ rx(2)] in auto)
  show ?thesis
    unfolding gen_channel_def
    by (intro index_in yields_bind [OF endpoint] yields_return)
      (auto simp: channel_types_def validChannelTypes_def)
qed

lemma yields_window: "yields (gen_window r t) (\<lambda>w. sw_Start w < sw_End w)"
  unfolding gen_window_def
  by (auto simp: split_beta intro!: yields_return yields_bind [OF yields_pattern [OF patterns(3)], simplified])

lemma yields_alerting: "yields (alertingSpec r t) (\<lambda>al. Channels al \<noteq> [] \<and>
    (\<forall>ch\<in>set (Channels al). ch_Type ch \<in> set validChannelTypes) \<and>
    (\<forall>sw\<in>set (SilenceWindows al). sw_Start sw < sw_End sw))"
  unfolding alertingSpec_def
  apply (rule yields_bind [OF int_range], simp)
  apply (rule yields_bind [OF yields_draw_each [OF yields_channel]])
  apply (rule yields_bind [OF boolean])
  apply (rule yields_if)
   apply (rule yields_bind [OF int_range], simp)
   apply (rule yields_bind [OF yields_draw_each [OF yields_window]])
   apply (auto simp: list_all_iff intro!: yields_return)
  done

lemma fin_percents: "fin (lit 50)" "fin (lit 80)" "fin (lit 90)" "fin (lit 100)" "fin (lit 101)" "fin (lit 200)"
  "fin (lit 1)" "fin (lit 100000)"
  by (simp_all add: fin_lit)

lemma percentI: "0 \<le> (x::'f) \<Longrightarrow> x \<le> lit 100 \<Longrightarrow> percent x"
  using less_asym [of x 0] less_asym [of "lit 100" x] by (auto simp: percent_def)

lemma yields_percent: "yields (Float64Range r 0 (lit 100) t) percent"
  using fin_zero fin_percents lit_nonneg [of 100]
  by (intro yields_weaken [OF float_range]) (auto intro: percentI)

lemma yields_types: "yields (SliceOfN r (StringMatching r type_pattern) 0 5 t) (\<lambda>ss. int (length ss) \<le> 5)"
proof -
  from pattern_texts(2) obtain rx where "compile type_pattern = Some rx" by auto
  from string_matching [OF this] show ?thesis
    by (intro yields_weaken [OF slice_of_n [of 0 5 "StringMatching r type_pattern"]]) auto
qed

lemma yields_mix: "yields (gen_mix r t)
    (\<lambda>mix. \<forall>m. mix = Some m \<longrightarrow> percent (MinOnDemandPercent m) \<and> percent (MaxSpotPercent m))"
  unfolding gen_mix_def
  by (intro yields_bind [OF boolean] yields_if yields_bind [OF yields_percent] yields_bind [OF yields_types]
      yields_return) auto

lemma yields_gen_alerting: "yields (gen_alerting r t) (\<lambda>alerting. \<forall>al. alerting = Some al \<longrightarrow>
    (\<forall>ch\<in>set (Channels al). ch_Type ch \<in> set validChannelTypes) \<and>
    (\<forall>sw\<in>set (SilenceWindows al). sw_Start sw < sw_End sw))"
  unfolding gen_alerting_def
  by (intro yields_bind [OF boolean] yields_if yields_bind [OF yields_alerting] yields_return) auto

lemma yields_thresholds: "yields (sortedSubset r [lit 50, lit 80, lit 90, lit 100] t)
    (\<lambda>ts. set ts \<subseteq> {lit 50, lit 80, lit 90, lit 100} \<and> Float64sAreSorted ts)"
proof -
  define vs :: "'f list" where "vs = [lit 50, lit 80, lit 90, lit 100]"
  have *: "list_all fin (map ((!) vs) (filter P [0..<length vs]))" "set (map ((!) vs) (filter P [0..<length vs])) \<subseteq> set vs" for P
    using fin_percents by (auto simp: vs_def list_all_iff nth_Cons split: nat.split)
  show ?thesis unfolding sortedSubset_def Let_def vs_def [symmetric]
    using *(2) Float64s_sorts [OF *(1)]
    by (intro yields_bind [OF int_range] yields_return) (auto simp: vs_def [symmetric], auto simp: vs_def)
qed

lemma yields_limit: "yields (Float64Range r (lit 1) (lit 100000) t) (\<lambda>x. 0 < x)"
proof (rule yields_weaken [OF float_range])
  show "lit 1 \<le> x \<and> x \<le> lit 100000 \<and> fin x \<Longrightarrow> 0 < x" for x :: 'f
    using less_le_trans [OF zero_less_one, of x] by (simp add: lit_one)
qed (use fin_percents lit_mono in auto)

lemma yields_valid: "yields (ValidFinancialPolicy r t)
    (\<lambda>p. ValidateFinancialPolicy p = [] \<and> Namespace p = TargetNamespace (Spec p))"
  unfolding ValidFinancialPolicy_def
  apply (rule yields_bind [OF yields_namespace])
  apply (rule yields_bind [OF yields_limit])
  apply (rule yields_bind [OF yields_thresholds])
  apply (rule yields_bind [OF yields_BreachAction])
  apply (rule yields_bind [OF yields_PolicyMode])
  apply (rule yields_bind [OF int_range], simp)
  apply (rule yields_bind [OF yields_mix])
  apply (rule yields_bind [OF yields_gen_alerting])
  apply (rule yields_bind [OF yields_pattern [OF patterns(2)]])
  subgoal for ns _ limit
    using less_asym [of 0 limit]
    by (intro yields_return)
      (auto simp: validate_Nil_iff valid_spec_def gen_policy_def list_all_iff lit_nonneg lit_mono intro!: percentI)
  done

end

section \<open>The defects\<close>

text \<open>The fields a defect of \<open>InvalidFinancialPolicy\<close> shows in.\<close>

definition defect_fields :: "int \<Rightarrow> string list" where
  "defect_fields defect =
     (if defect = 0 then [''spec.targetNamespace'']
      else if defect = 2 then [''spec.instanceMix.min_on_demand_percent'', ''spec.instanceMix.max_spot_percent'']
      else [''spec.budget.monthly_limit''])"

lemma bare_spec_errors:
  "map ve_Field (ValidateFinancialPolicy (gen_policy name ns (bare_spec ns' limit mix))) =
     (if ns' = [] then [''spec.targetNamespace''] else []) @
     (if limit \<le> 0 then [''spec.budget.monthly_limit''] else []) @
     (case mix of None \<Rightarrow> [] | Some m \<Rightarrow>
       (if percent (MinOnDemandPercent m) then [] else [''spec.instanceMix.min_on_demand_percent'']) @
       (if percent (MaxSpotPercent m) then [] else [''spec.instanceMix.max_spot_percent'']))"
  by (simp add: ValidateFinancialPolicy_def gen_policy_def bare_spec_def check_required_def check_enums_def
      check_instance_mix_def check_thresholds_def check_alerting_def Let_def percent_def collect_def
      split: option.split)

lemma negated: "0 < x \<Longrightarrow> - x \<le> 0" for x :: f64
  by transfer (simp add: fle_def, erule flt.elims, simp_all)

lemma yields_defective:
  fixes r :: "('t, f64) rapid"
  assumes r: "random_draws is_fin r" and d: "0 \<le> defect" "defect \<le> 3"
  shows "yields (defective_spec r defect t)
    (\<lambda>s. \<forall>name. map ve_Field (ValidateFinancialPolicy (gen_policy name ''default'' s)) = defect_fields defect)"
proof -
  have over: "yields (Float64Range r (lit 101) (lit 200) t) (\<lambda>x. \<not> percent x)" for t
  proof (rule yields_weaken [OF random_draws.float_range [OF r]])
    show "lit 101 \<le> x \<and> x \<le> lit 200 \<and> is_fin x \<Longrightarrow> \<not> percent x" for x :: f64
      using ieee.less_le_trans [of "lit 100" "lit 101" x] by (simp add: percent_def lit_f64)
  qed (use ieee.fin_lit in \<open>auto simp: lit_f64\<close>)
  have "defect = 0 \<or> defect = 1 \<or> defect = 2 \<or> defect = 3" using d by auto
  moreover have "\<not> x \<le> 0" if "0 < x" for x :: f64 using ieee.less_asym [OF that] .
  ultimately show ?thesis
    unfolding defective_spec_def
    by (intro yields_if yields_bind [OF random_draws.yields_namespace [OF r]] yields_bind [OF over]
        yields_bind [OF random_draws.yields_limit [OF r]] yields_return)
      (auto simp: bare_spec_errors defect_fields_def negated ieee.zero_le_zero)
qed

text \<open>C24: a policy that \<^verbatim>\<open>ValidFinancialPolicy\<close> generates always passes validation; one that
  \<^verbatim>\<open>InvalidFinancialPolicy\<close> generates always fails it, with errors for exactly the fields of
  the defect that was drawn. Both return for every outcome of the draws, since they never draw from an
  empty range and never index a slice out of its bounds.\<close>

theorem generated_policies_judged:
  fixes r :: "('t, f64) rapid"
  assumes "random_draws is_fin r"
  shows "yields (ValidFinancialPolicy r t) (\<lambda>p. ValidateFinancialPolicy p = []) \<and>
    (\<exists>defect t'. IntRange r 0 3 t = Some (defect, t') \<and>
      yields (InvalidFinancialPolicy r t) (\<lambda>p. map ve_Field (ValidateFinancialPolicy p) =
        (if defect = 0 then [''spec.targetNamespace'']
         else if defect = 2 then [''spec.instanceMix.min_on_demand_percent'', ''spec.instanceMix.max_spot_percent'']
         else [''spec.budget.monthly_limit''])))"
proof
  show "yields (ValidFinancialPolicy r t) (\<lambda>p. ValidateFinancialPolicy p = [])"
    by (rule yields_weaken [OF random_draws.yields_valid [OF assms]]) simp
  obtain defect t' where d: "IntRange r 0 3 t = Some (defect, t')" "0 \<le> defect" "defect \<le> 3"
    using random_draws.int_range [OF assms, of 0 3 t] by (auto simp: yields_def)
  have "yields (do {(name, t) \<leftarrow> StringMatching r ''[a-z]{3,15}'' t'; (spec, t) \<leftarrow> defective_spec r defect t;
      Some (gen_policy name ''default'' spec, t)})
      (\<lambda>p. map ve_Field (ValidateFinancialPolicy p) = defect_fields defect)"
    by (intro yields_bind [OF random_draws.yields_pattern [OF assms patterns(2)]]
        yields_bind [OF yields_defective [OF assms d(2,3)]] yields_return) auto
  then show "\<exists>defect t'. IntRange r 0 3 t = Some (defect, t') \<and>
      yields (InvalidFinancialPolicy r t) (\<lambda>p. map ve_Field (ValidateFinancialPolicy p) =
        (if defect = 0 then [''spec.targetNamespace'']
         else if defect = 2 then [''spec.instanceMix.min_on_demand_percent'', ''spec.instanceMix.max_spot_percent'']
         else [''spec.budget.monthly_limit'']))"
    using d(1) by (simp add: InvalidFinancialPolicy_def defect_fields_def)
qed

lemma generated_policies_judged_witness:
  "yields (ValidFinancialPolicy (seeded :: (seed, f64) rapid) [1, 0, 11]) (\<lambda>p. ValidateFinancialPolicy p = []) \<and>
   yields (InvalidFinancialPolicy (seeded :: (seed, f64) rapid) [2]) (\<lambda>p. map ve_Field (ValidateFinancialPolicy p) =
     [''spec.instanceMix.min_on_demand_percent'', ''spec.instanceMix.max_spot_percent''])"
  using generated_policies_judged [OF drawn.random_draws_axioms, of "[1, 0, 11]"]
    generated_policies_judged [OF drawn.random_draws_axioms, of "[2]"]
  by (simp add: seeded_def seeded_int_def seed_hd_def)

text \<open>Every endpoint drawn for a channel has a backslash in it: in a raw string literal \<^verbatim>\<open>\\.\<close>
  is an escaped backslash and then any character, not a dot.\<close>

lemma endpoints_have_backslashes:
  fixes r :: "('t, f64) rapid"
  assumes "random_draws is_fin r"
  shows "yields (gen_channel r t) (\<lambda>ch. \<exists>e. ch_Config ch ''endpoint'' = Some e \<and> CHR 0x5C \<in> set e)"
  by (rule yields_weaken [OF random_draws.yields_channel [OF assms]]) auto

end
