(* ===== verification/Data_Generators.thy ===== *)
theory Data_Generators
  imports Random_Draws Forecast Instance
begin

text \<open>
  \<^verbatim>\<open>tests/generators/cost_gen.go\<close>, \<^verbatim>\<open>forecast_gen.go\<close> and \<^verbatim>\<open>instance_gen.go\<close>: metrics, bills,
  cost histories, forecasts and analyses for property-based tests, drawn in the order of the code. The
  lemmas say which of the invariants of the real data the generated data keep: the bounds of a forecast
  are ordered, an analysis adds up to its nodes and to 100 per cent, a history of 90 days is long enough
  for the forecaster, and a total can exceed its parts when two namespaces get the same name.
\<close>

section \<open>Costs\<close>

definition CostRecord :: "('t, 'f::{zero,one,scaleR}) rapid \<Rightarrow> 't \<Rightarrow> ('f DailyCostRecord \<times> 't) option" where
  "CostRecord r t =
     do {(year, t) \<leftarrow> IntRange r 2023 2025 t;
         (month, t) \<leftarrow> IntRange r 1 12 t;
         (d, t) \<leftarrow> IntRange r 1 28 t;
         let date = midnight year month d;
         (ns, t) \<leftarrow> StringMatching r ''[a-z]{3,15}'' t;
         (cost, t) \<leftarrow> Float64Range r 0 (lit 10000) t;
         Some (\<lparr>dr_Date = date, dr_Namespace = ns, dr_TotalCost = cost, dr_DayOfWeek = Weekday date,
           dr_DayOfMonth = d_Day (Date date)\<rparr>, t)}"

text \<open>\<^verbatim>\<open>AddDate(0, 0, i)\<close> of the first of January 2024.\<close>

definition DailyCostHistory ::
    "('t, 'f::{zero,one,scaleR}) rapid \<Rightarrow> nat \<Rightarrow> 't \<Rightarrow> ('f DailyCostRecord list \<times> 't) option" where
  "DailyCostHistory r days t =
     do {(ns, t) \<leftarrow> StringMatching r ''[a-z]{3,15}'' t;
         draw_for [0..<days] (\<lambda>i t. let date = midnight 2024 1 (1 + int i) in
           do {(cost, t) \<leftarrow> Float64Range r 0 (lit 10000) t;
               Some (\<lparr>dr_Date = date, dr_Namespace = ns, dr_TotalCost = cost, dr_DayOfWeek = Weekday date,
                 dr_DayOfMonth = d_Day (Date date)\<rparr>, t)}) t}"

definition DailyCostHistory90Days ::
    "('t, 'f::{zero,one,scaleR}) rapid \<Rightarrow> 't \<Rightarrow> ('f DailyCostRecord list \<times> 't) option" where
  "DailyCostHistory90Days r t = DailyCostHistory r 90 t"

text \<open>The map that a loop of assignments leaves: a later value replaces an earlier one.\<close>

definition assigned :: "('k \<times> 'v) list \<Rightarrow> 'k \<rightharpoonup> 'v" where
  "assigned kvs = fold (\<lambda>(k, v) m. m(k \<mapsto> v)) kvs Map.empty"

text \<open>A loop of \<open>n\<close> assignments of a drawn number to a drawn key.\<close>

definition draw_map ::
    "('t, 'f) rapid \<Rightarrow> int \<Rightarrow> string \<Rightarrow> 'f \<Rightarrow> 'f \<Rightarrow> 't \<Rightarrow> ((string \<rightharpoonup> 'f) \<times> 't) option" where
  "draw_map r n keys lo hi t =
     do {(kvs, t) \<leftarrow> draw_each (nat n) (\<lambda>t.
           do {(k, t) \<leftarrow> StringMatching r keys t; (v, t) \<leftarrow> Float64Range r lo hi t; Some ((k, v), t)}) t;
         Some (assigned kvs, t)}"

definition pod_pattern :: string where "pod_pattern = ''[a-z]{3,10}-[a-z0-9]{5}''"

definition gen_NamespaceCost ::
    "('t, 'f::{zero,one,plus,scaleR}) rapid \<Rightarrow> 't \<Rightarrow> ('f NamespaceCost \<times> 't) option" where
  "gen_NamespaceCost r t =
     do {(directCost, t) \<leftarrow> Float64Range r 0 (lit 5000) t;
         (sharedCost, t) \<leftarrow> Float64Range r 0 (lit 1000) t;
         (numServices, t) \<leftarrow> IntRange r 1 4 t;
         (byService, t) \<leftarrow> draw_map r numServices ''[a-z]{3,10}'' 0 (lit 2000) t;
         (numPods, t) \<leftarrow> IntRange r 1 5 t;
         (byPod, t) \<leftarrow> draw_map r numPods pod_pattern 0 (lit 500) t;
         (ns, t) \<leftarrow> StringMatching r ''[a-z]{3,15}'' t;
         (team, t) \<leftarrow> StringMatching r ''[a-z]{3,10}'' t;
         (approximate, t) \<leftarrow> Boolean r t;
         Some (\<lparr>nc_Namespace = ns, nc_Team = team, nc_DirectCost = directCost, nc_SharedCost = sharedCost,
           nc_TotalCost = directCost + sharedCost, nc_ByService = byService, nc_ByPod = byPod,
           nc_IsApproximate = approximate\<rparr>, t)}"

definition named_cost :: "('t, 'f::{zero,one,plus,scaleR}) rapid \<Rightarrow> 't \<Rightarrow> ((string \<times> 'f NamespaceCost) \<times> 't) option" where
  "named_cost r t =
     do {(ns, t) \<leftarrow> StringMatching r ''[a-z]{3,15}'' t;
         (nsCost, t) \<leftarrow> gen_NamespaceCost r t;
         Some ((ns, nsCost\<lparr>nc_Namespace := ns\<rparr>), t)}"

definition gen_AggregatedCosts ::
    "('t, 'f::{zero,one,plus,scaleR}) rapid \<Rightarrow> 't \<Rightarrow> ('f AggregatedCosts \<times> 't) option" where
  "gen_AggregatedCosts r t =
     do {(numNamespaces, t) \<leftarrow> IntRange r 1 5 t;
         (costs, t) \<leftarrow> draw_each (nat numNamespaces) (named_cost r) t;
         let (now, t) = Now r t;
         Some (\<lparr>ag_Timestamp = now, ag_ByNamespace = assigned costs, ag_ByTeam = Map.empty,
           ag_TotalCost = fold (\<lambda>(ns, c) s. s + nc_TotalCost c) costs 0\<rparr>, t)}"

section \<open>Metrics and bills\<close>

definition node_pattern :: string where
  "node_pattern = ''ip-[0-9]{1,3}-[0-9]{1,3}-[0-9]{1,3}-[0-9]{1,3}''"

definition gen_PodMetrics ::
    "('t, 'f::{zero,one,scaleR}) rapid \<Rightarrow> 't \<Rightarrow> ('f PodMetrics \<times> 't) option" where
  "gen_PodMetrics r t =
     do {(name, t) \<leftarrow> StringMatching r pod_pattern t;
         (ns, t) \<leftarrow> StringMatching r ''[a-z]{3,15}'' t;
         (node, t) \<leftarrow> StringMatching r node_pattern t;
         (cpu, t) \<leftarrow> Float64Range r 0 (lit 64) t;
         (mem, t) \<leftarrow> Float64Range r 0 (lit 256000000000) t;
         (net, t) \<leftarrow> Float64Range r 0 (lit 10000000000) t;
         (storage, t) \<leftarrow> Float64Range r 0 (lit 1000000000000) t;
         (app, t) \<leftarrow> StringMatching r ''[a-z]{3,10}'' t;
         Some (\<lparr>pm_Name = name, pm_Namespace = ns, pm_NodeName = node, pm_CPUUsage = cpu, pm_MemUsage = mem,
           pm_NetUsage = net, pm_Storage = storage, pm_Labels = Some [''app'' \<mapsto> app]\<rparr>, t)}"

definition purchaseOptions :: "string list" where
  "purchaseOptions = [''on_demand'', ''spot'', ''reserved'', ''savings_plan'']"

definition instanceTypes :: "string list" where
  "instanceTypes = [''m5.large'', ''m5.xlarge'', ''c5.large'', ''c5.xlarge'', ''r5.large'', ''t3.medium'']"

definition gen_NodeMetrics ::
    "('t, 'f::{zero,one,scaleR}) rapid \<Rightarrow> 't \<Rightarrow> ('f NodeMetrics \<times> 't) option" where
  "gen_NodeMetrics r t =
     do {(cpuCap, t) \<leftarrow> Float64Range r (lit 2) (lit 96) t;
         (memCap, t) \<leftarrow> Float64Range r (lit 4000000000) (lit 768000000000) t;
         (name, t) \<leftarrow> StringMatching r node_pattern t;
         (i, t) \<leftarrow> IntRange r 0 (int (length instanceTypes) - 1) t;
         (ty, t) \<leftarrow> at_index instanceTypes i t;
         (j, t) \<leftarrow> IntRange r 0 (int (length purchaseOptions) - 1) t;
         (po, t) \<leftarrow> at_index purchaseOptions j t;
         (cpu, t) \<leftarrow> Float64Range r 0 cpuCap t;
         (mem, t) \<leftarrow> Float64Range r 0 memCap t;
         (net, t) \<leftarrow> Float64Range r 0 (lit 10000000000) t;
         (storage, t) \<leftarrow> Float64Range r 0 (lit 1000000000000) t;
         (role, t) \<leftarrow> StringMatching r ''[a-z]{3,10}'' t;
         Some (\<lparr>nm_Name = name, nm_InstanceType = ty, nm_PurchaseOption = po, nm_CPUCapacity = cpuCap,
           nm_CPUUsage = cpu, nm_MemCapacity = memCap, nm_MemUsage = mem, nm_NetUsage = net,
           nm_Storage = storage, nm_Labels = Some [''node-role'' \<mapsto> role]\<rparr>, t)}"

definition gen_ClusterMetrics ::
    "('t, 'f::{zero,one,scaleR}) rapid \<Rightarrow> 't \<Rightarrow> ('f ClusterMetrics \<times> 't) option" where
  "gen_ClusterMetrics r t =
     do {(numPods, t) \<leftarrow> IntRange r 1 10 t;
         (pods, t) \<leftarrow> draw_each (nat numPods) (gen_PodMetrics r) t;
         (numNodes, t) \<leftarrow> IntRange r 1 5 t;
         (nodes, t) \<leftarrow> draw_each (nat numNodes) (gen_NodeMetrics r) t;
         let (now, t) = Now r t;
         Some (\<lparr>cm_Timestamp = now, cm_Pods = pods, cm_Nodes = nodes\<rparr>, t)}"

definition services :: "string list" where
  "services = [''AmazonEC2'', ''AmazonEKS'', ''AmazonS3'', ''AmazonRDS'', ''AmazonCloudWatch'']"

definition gen_AWSCostData ::
    "('t, 'f::{zero,one,plus,scaleR}) rapid \<Rightarrow> 't \<Rightarrow> ('f AWSCostData \<times> 't) option" where
  "gen_AWSCostData r t =
     do {(numServices, t) \<leftarrow> IntRange r 1 (int (length services)) t;
         (costs, t) \<leftarrow> draw_for [0..<nat numServices] (\<lambda>i t.
           do {(cost, t) \<leftarrow> Float64Range r 0 (lit 5000) t; (svc, t) \<leftarrow> at_index services (int i) t;
               Some ((svc, cost), t)}) t;
         (numTags, t) \<leftarrow> IntRange r 0 3 t;
         (byTag, t) \<leftarrow> draw_map r numTags ''[a-z]{3,10}'' 0 (lit 2000) t;
         let (start, t) = Now r t;
         let (now, t) = Now r t;
         (approximate, t) \<leftarrow> Boolean r t;
         Some (\<lparr>aws_StartTime = start - day, aws_EndTime = now, aws_ByService = assigned costs, aws_ByTag = byTag,
           aws_TotalCost = fold (\<lambda>(svc, c) s. s + c) costs 0, aws_IsApproximate = approximate\<rparr>, t)}"

section \<open>Forecasts\<close>

definition gen_ForecastPeriod ::
    "('t, 'f::{zero,one,plus,scaleR}) rapid \<Rightarrow> nat \<Rightarrow> 't \<Rightarrow> ('f ForecastPeriod \<times> 't) option" where
  "gen_ForecastPeriod r days t =
     do {(cost, t) \<leftarrow> Float64Range r 0 (lit 10000) t;
         (lower, t) \<leftarrow> Float64Range r 0 cost t;
         (upper, t) \<leftarrow> Float64Range r cost (cost + lit 5000) t;
         (confidence, t) \<leftarrow> Float64Range r (lit (1/2)) (lit (99/100)) t;
         Some (\<lparr>fp_Days = days, fp_ForecastedCost = cost, fp_LowerBound = lower, fp_UpperBound = upper,
           fp_Confidence = confidence\<rparr>, t)}"

definition gen_Forecast ::
    "('t, 'f::{zero,one,plus,scaleR}) rapid \<Rightarrow> 't \<Rightarrow> ('f Forecast \<times> 't) option" where
  "gen_Forecast r t =
     do {let (now, t) = Now r t;
         (ns, t) \<leftarrow> StringMatching r ''[a-z]{3,15}'' t;
         (periods, t) \<leftarrow> draw_for [7, 14, 30] (gen_ForecastPeriod r) t;
         Some (\<lparr>fc_GeneratedAt = now, fc_Namespace = ns, fc_Periods = periods\<rparr>, t)}"

section \<open>Instances\<close>

text \<open>
  The loop over the options, with the nodes and the percentage that are left: the last option gets the
  remainder.
\<close>

primrec split_mix ::
    "('t, 'f::{zero,one,minus,scaleR}) rapid \<Rightarrow> nat list \<Rightarrow> int \<Rightarrow> 'f \<Rightarrow> 't \<Rightarrow>
     ((string \<times> 'f PurchaseOptionStats) list \<times> 't) option" where
  "split_mix r [] nodes pct t = Some ([], t)"
| "split_mix r (i # is) nodes pct t =
     do {(option, t) \<leftarrow> at_index purchaseOptions (int i) t;
         (count, t) \<leftarrow> (if is = [] then Some (nodes, t) else IntRange r 0 nodes t);
         (p, t) \<leftarrow> (if is = [] then Some (pct, t) else Float64Range r 0 pct t);
         (cost, t) \<leftarrow> Float64Range r 0 (lit 10000) t;
         (rest, t) \<leftarrow> split_mix r is (nodes - count) (pct - p) t;
         Some ((option, \<lparr>po_Count = count, po_Percentage = p, po_Cost = cost\<rparr>) # rest, t)}"

definition gen_InstanceMixAnalysis ::
    "('t, 'f::{zero,one,minus,scaleR}) rapid \<Rightarrow> 't \<Rightarrow> ('f InstanceMixAnalysis \<times> 't) option" where
  "gen_InstanceMixAnalysis r t =
     do {(totalNodes, t) \<leftarrow> IntRange r 1 50 t;
         (currentCost, t) \<leftarrow> Float64Range r (lit 100) (lit 50000) t;
         (optimalCost, t) \<leftarrow> Float64Range r 0 currentCost t;
         (numOptions, t) \<leftarrow> IntRange r 1 (int (length purchaseOptions)) t;
         (stats, t) \<leftarrow> split_mix r [0..<nat numOptions] totalNodes (lit 100) t;
         let (now, t) = Now r t;
         Some (\<lparr>ia_Timestamp = now, ia_TotalNodes = totalNodes, ia_ByPurchaseOption = assigned stats,
           ia_CurrentCost = currentCost, ia_OptimalCost = optimalCost,
           ia_PotentialSavings = currentCost - optimalCost\<rparr>, t)}"

definition gen_PurchaseOptionStats ::
    "('t, 'f::{zero,one,scaleR}) rapid \<Rightarrow> 't \<Rightarrow> ('f PurchaseOptionStats \<times> 't) option" where
  "gen_PurchaseOptionStats r t =
     do {(count, t) \<leftarrow> IntRange r 0 50 t;
         (p, t) \<leftarrow> Float64Range r 0 (lit 100) t;
         (cost, t) \<leftarrow> Float64Range r 0 (lit 10000) t;
         Some (\<lparr>po_Count = count, po_Percentage = p, po_Cost = cost\<rparr>, t)}"

definition reasons :: "string list" where
  "reasons = [''High Spot availability detected'', ''On-Demand costs exceed threshold'',
     ''Reserved Instance coverage gap'', ''Savings Plan opportunity identified'']"

definition gen_OptimizationRecommendation ::
    "('t, 'f::{zero,one,scaleR}) rapid \<Rightarrow> 't \<Rightarrow> ('f OptimizationRecommendation \<times> 't) option" where
  "gen_OptimizationRecommendation r t =
     do {(mixes, t) \<leftarrow> draw_for purchaseOptions (\<lambda>opt t.
           do {(c, t) \<leftarrow> Float64Range r 0 (lit 100) t; (d, t) \<leftarrow> Float64Range r 0 (lit 100) t;
               Some ((opt, c, d), t)}) t;
         (numAffected, t) \<leftarrow> IntRange r 0 10 t;
         (affectedNodes, t) \<leftarrow> draw_each (nat numAffected) (\<lambda>t.
           do {(n, t) \<leftarrow> IntRange r 1 100 t; Some (''node-'' @ itoa n, t)}) t;
         (n, t) \<leftarrow> IntRange r 1 10000 t;
         let (now, t) = Now r t;
         (savings, t) \<leftarrow> Float64Range r 0 (lit 5000) t;
         (i, t) \<leftarrow> IntRange r 0 (int (length reasons) - 1) t;
         (reason, t) \<leftarrow> at_index reasons i t;
         (compliant, t) \<leftarrow> Boolean r t;
         Some (\<lparr>or_ID = ''rec-'' @ itoa n, or_Timestamp = now,
           or_CurrentMix = assigned (map (\<lambda>(opt, c, d). (opt, c)) mixes),
           or_RecommendedMix = assigned (map (\<lambda>(opt, c, d). (opt, d)) mixes),
           or_ExpectedSavings = savings, or_Reason = [Txt reason], or_AffectedNodes = affectedNodes,
           or_PolicyCompliant = compliant\<rparr>, t)}"

section \<open>Maps of drawn pairs\<close>

lemma fold_assigned: "fold (\<lambda>(k, v) m. m(k \<mapsto> v)) kvs m = m ++ map_of (rev kvs)"
  by (induction kvs arbitrary: m) auto

lemma assigned_apply:
  "distinct (map fst kvs) \<Longrightarrow> assigned kvs = map_of kvs"
proof -
  assume "distinct (map fst kvs)"
  then have "map_of (rev kvs) k = map_of kvs k" for k
    by (metis distinct_rev map_of_eq_Some_iff not_Some_eq rev_map set_rev)
  then show ?thesis by (auto simp: assigned_def fold_assigned)
qed

lemma dom_assigned: "dom (assigned kvs) = fst ` set kvs"
  by (simp add: assigned_def fold_assigned dom_map_of_conv_image_fst)

lemma assigned_mem: "assigned kvs k = Some v \<Longrightarrow> (k, v) \<in> set kvs"
  by (auto simp: assigned_def fold_assigned dest: map_of_SomeD)

lemma sum_assigned:
  fixes f :: "'v \<Rightarrow> 'n::comm_monoid_add"
  assumes "distinct (map fst kvs)"
  shows "(\<Sum>k\<in>dom (assigned kvs). f (the (assigned kvs k))) = (\<Sum>(k, v)\<leftarrow>kvs. f v)"
proof -
  have "(\<Sum>k\<in>dom (assigned kvs). f (the (assigned kvs k))) = (\<Sum>k\<in>set (map fst kvs). f (the (map_of kvs k)))"
    by (simp only: assigned_apply [OF assms] dom_map_of_conv_image_fst set_map)
  also have "\<dots> = (\<Sum>k\<leftarrow>map fst kvs. f (the (map_of kvs k)))"
    using assms by (rule sum.distinct_set_conv_list)
  also have "\<dots> = (\<Sum>(k, v)\<leftarrow>kvs. f v)"
    unfolding map_map using assms by (intro arg_cong [of _ _ sum_list] map_cong) auto
  finally show ?thesis .
qed

section \<open>Analyses\<close>

text \<open>The counts and the percentages of the options are those that were left, whatever is drawn.\<close>

lemma yields_split_mix:
  fixes r :: "('t, real) rapid"
  assumes r: "random_draws (\<lambda>_. True) r"
  shows "0 \<le> nodes \<Longrightarrow> 0 \<le> pct \<Longrightarrow> set is \<subseteq> {..<length purchaseOptions} \<Longrightarrow>
    yields (split_mix r is nodes pct t) (\<lambda>kvs. map fst kvs = map ((!) purchaseOptions) is \<and>
      (is \<noteq> [] \<longrightarrow> (\<Sum>(opt, st)\<leftarrow>kvs. po_Count st) = nodes \<and> (\<Sum>(opt, st)\<leftarrow>kvs. po_Percentage st) = pct) \<and>
      (\<forall>(opt, st)\<in>set kvs. 0 \<le> po_Count st \<and> 0 \<le> po_Percentage st \<and> 0 \<le> po_Cost st))"
proof (induction "is" arbitrary: nodes pct t)
  case (Cons i "is")
  have count: "yields (if is = [] then Some (nodes, t) else IntRange r 0 nodes t)
      (\<lambda>c. 0 \<le> c \<and> c \<le> nodes \<and> (is = [] \<longrightarrow> c = nodes))" for t
    using Cons.prems(1) by (intro yields_if) (auto intro!: yields_return yields_weaken [OF random_draws.int_range [OF r]])
  have part: "yields (if is = [] then Some (pct, t) else Float64Range r 0 pct t)
      (\<lambda>p. 0 \<le> p \<and> p \<le> pct \<and> (is = [] \<longrightarrow> p = pct))" for t
    using Cons.prems(2) by (intro yields_if) (auto intro!: yields_return yields_weaken [OF random_draws.float_range [OF r]])
  have index: "yields (at_index purchaseOptions (int i) t) (\<lambda>opt. opt = purchaseOptions ! i)" for t
    using Cons.prems(3) by (simp add: at_index_def yields_def)
  show ?case
    unfolding split_mix.simps
    apply (rule yields_bind [OF index])
    apply (rule yields_bind [OF count])
    apply (rule yields_bind [OF part])
    apply (rule yields_bind [OF random_draws.float_range [OF r]], simp, simp, simp add: lit_real)
    apply (rule yields_bind [OF Cons.IH])
    using Cons.prems(3) by (auto intro!: yields_return)
qed (simp add: yields_return)

text \<open>A generated analysis of the instance mix has the invariants of a real one: its options are
  distinct known ones, their counts add up to its nodes and their percentages to 100, nothing is negative,
  and the savings are what the optimal cost saves. In exact arithmetic and for every outcome of
  the draws, none of which is from an empty range.\<close>

lemma generated_analysis_adds_up:
  fixes r :: "('t, real) rapid"
  assumes "random_draws (\<lambda>_. True) r"
  shows "yields (gen_InstanceMixAnalysis r t) (\<lambda>a.
    dom (ia_ByPurchaseOption a) \<noteq> {} \<and> dom (ia_ByPurchaseOption a) \<subseteq> set purchaseOptions \<and>
    (\<Sum>opt\<in>dom (ia_ByPurchaseOption a). po_Count (the (ia_ByPurchaseOption a opt))) = ia_TotalNodes a \<and>
    (\<Sum>opt\<in>dom (ia_ByPurchaseOption a). po_Percentage (the (ia_ByPurchaseOption a opt))) = 100 \<and>
    (\<forall>opt st. ia_ByPurchaseOption a opt = Some st \<longrightarrow> 0 \<le> po_Count st \<and> 0 \<le> po_Percentage st \<and> 0 \<le> po_Cost st) \<and>
    0 \<le> ia_PotentialSavings a \<and> ia_PotentialSavings a = ia_CurrentCost a - ia_OptimalCost a \<and>
    0 \<le> ia_OptimalCost a)"
proof -
  have options: "yields (split_mix r [0..<nat n] nodes (lit 100) t) (\<lambda>kvs. dom (assigned kvs) \<noteq> {} \<and>
      dom (assigned kvs) \<subseteq> set purchaseOptions \<and> (\<Sum>opt\<in>dom (assigned kvs). po_Count (the (assigned kvs opt))) = nodes \<and>
      (\<Sum>opt\<in>dom (assigned kvs). po_Percentage (the (assigned kvs opt))) = 100 \<and>
      (\<forall>opt st. assigned kvs opt = Some st \<longrightarrow> 0 \<le> po_Count st \<and> 0 \<le> po_Percentage st \<and> 0 \<le> po_Cost st))"
    if n: "1 \<le> n" "n \<le> int (length purchaseOptions)" and nodes: "1 \<le> nodes" for n nodes t
  proof (rule yields_weaken [OF yields_split_mix [OF assms]], goal_cases)
    case (4 kvs)
    have keys: "map fst kvs = take (nat n) purchaseOptions"
      using 4 n by (simp add: list_eq_iff_nth_eq)
    moreover have "distinct purchaseOptions" by (simp add: purchaseOptions_def)
    ultimately have d: "distinct (map fst kvs)" by simp
    have "fst ` set kvs \<subseteq> set purchaseOptions"
      using keys set_take_subset [of "nat n" purchaseOptions] by (metis set_map)
    moreover have "fst ` set kvs \<noteq> {}" using 4 n by auto
    moreover have "\<forall>opt st. assigned kvs opt = Some st \<longrightarrow> 0 \<le> po_Count st \<and> 0 \<le> po_Percentage st \<and> 0 \<le> po_Cost st"
      using 4 unfolding assigned_apply [OF d] by (blast dest: map_of_SomeD)
    moreover have "(\<Sum>(opt, st)\<leftarrow>kvs. po_Count st) = nodes \<and> (\<Sum>(opt, st)\<leftarrow>kvs. po_Percentage st) = 100"
      using 4 n by simp
    ultimately show ?case
      unfolding sum_assigned [OF d, of po_Count] sum_assigned [OF d, of po_Percentage]
      unfolding dom_assigned
      by (elim conjE, intro conjI) assumption+
  qed (use n nodes in \<open>auto simp: lit_real\<close>)
  show ?thesis
    unfolding gen_InstanceMixAnalysis_def
    apply (rule yields_bind [OF random_draws.int_range [OF assms]], simp)
    apply (rule yields_bind [OF random_draws.float_range [OF assms]], simp, simp, simp add: lit_real)
    apply (rule yields_bind [OF random_draws.float_range [OF assms]], simp, simp, simp add: lit_real)
    apply (rule yields_bind [OF random_draws.int_range [OF assms]], simp add: purchaseOptions_def)
    apply (rule yields_bind [OF options], simp, simp, simp)
    by (rule yields_let, rule yields_return) simp
qed

lemma generated_analysis_adds_up_witness:
  "yields (gen_InstanceMixAnalysis (seeded :: (seed, real) rapid) [9, 1, 1, 1, 4, 1]) (\<lambda>a.
     (\<Sum>opt\<in>dom (ia_ByPurchaseOption a). po_Count (the (ia_ByPurchaseOption a opt))) = 10 \<and>
     (\<Sum>opt\<in>dom (ia_ByPurchaseOption a). po_Percentage (the (ia_ByPurchaseOption a opt))) = 100)"
proof -
  have "yields (gen_InstanceMixAnalysis (seeded :: (seed, real) rapid) [9, 1, 1, 1, 4, 1]) (\<lambda>a. ia_TotalNodes a = 10)"
    by (simp add: gen_InstanceMixAnalysis_def seeded_def seeded_int_def seed_hd_def yields_def purchaseOptions_def
        at_index_def upt_conv_Cons)
  then show ?thesis
    using generated_analysis_adds_up [OF drawn_exactly.random_draws_axioms, of "[9, 1, 1, 1, 4, 1]"]
    by (auto simp: yields_def)
qed

section \<open>Histories and forecasts\<close>

text \<open>The expressions of the texts.\<close>

lemma cost_patterns:
  "compile ''[a-z]{3,15}'' \<noteq> None" "compile ''[a-z]{3,10}'' \<noteq> None"
  "compile pod_pattern \<noteq> None" "compile node_pattern \<noteq> None"
  by (simp_all add: pod_pattern_def node_pattern_def compile_def parse_simps good_item_def)

context random_draws
begin

lemma yields_text: "compile re \<noteq> None \<Longrightarrow> yields (StringMatching r re t) (\<lambda>s. True)"
  by (elim not_None_eq [THEN iffD1, elim_format] exE) (rule yields_weaken [OF string_matching], assumption, simp)

lemmas yields_texts = cost_patterns [THEN yields_text]

lemma yields_from_zero:
  "0 \<le> k \<Longrightarrow> k \<le> 2 ^ 52 \<Longrightarrow> yields (Float64Range r 0 (lit k) t) (\<lambda>x. 0 \<le> x \<and> x \<le> lit k \<and> fin x)"
  by (rule float_range) (simp_all add: fin_zero fin_lit lit_nonneg)

text \<open>A history is one record a day from the first of January 2024, of one namespace.\<close>

lemma yields_history: "yields (DailyCostHistory r days t) (\<lambda>h. length h = days \<and>
    (\<forall>i<days. dr_Date (h ! i) = midnight 2024 1 1 + int i * day \<and> dr_Namespace (h ! i) = dr_Namespace (h ! 0) \<and>
      0 \<le> dr_TotalCost (h ! i)))"
proof -
  have each: "yields (let date = midnight 2024 1 (1 + int i) in
      do {(cost, t) \<leftarrow> Float64Range r 0 (lit 10000) t;
          Some (\<lparr>dr_Date = date, dr_Namespace = ns, dr_TotalCost = cost, dr_DayOfWeek = Weekday date,
            dr_DayOfMonth = d_Day (Date date)\<rparr>, t)})
      (\<lambda>d. dr_Date d = midnight 2024 1 1 + int i * day \<and> dr_Namespace d = ns \<and> 0 \<le> dr_TotalCost d)" for ns i t
    unfolding Let_def
    by (intro yields_bind [OF yields_from_zero] yields_return)
      (auto simp: midnight_shift [of 2024 1 "1 + int i"])
  show ?thesis
    unfolding DailyCostHistory_def
  proof (rule yields_bind [OF yields_texts(1)], rule yields_weaken [OF yields_draw_for [OF each]])
    fix ns and h :: "'f DailyCostRecord list"
    assume "list_all2 (\<lambda>i d. dr_Date d = midnight 2024 1 1 + int i * day \<and> dr_Namespace d = ns \<and> 0 \<le> dr_TotalCost d)
      [0..<days] h"
    then have "length h = days" "i < days \<Longrightarrow> dr_Date (h ! i) = midnight 2024 1 1 + int i * day \<and>
        dr_Namespace (h ! i) = ns \<and> 0 \<le> dr_TotalCost (h ! i)" for i
      by (auto simp: list_all2_conv_all_nth)
    then show "length h = days \<and> (\<forall>i<days. dr_Date (h ! i) = midnight 2024 1 1 + int i * day \<and>
        dr_Namespace (h ! i) = dr_Namespace (h ! 0) \<and> 0 \<le> dr_TotalCost (h ! i))" by auto
  qed
qed

end

text \<open>A history of 90 days is suitable for forecasting: the forecaster accepts it.\<close>

lemma fp_Days_with_bounds: "fp_Days (with_bounds rt p) = fp_Days p"
  by (simp add: with_bounds_def Let_def)

lemma GenerateForecast_days:
  "14 \<le> length h \<Longrightarrow> \<exists>f. GenerateForecast rt now h = Inr f \<and> map fp_Days (fc_Periods f) = [7, 14, 30]"
  by (simp add: GenerateForecast_def minHistoryDays_def Let_def fp_Days_with_bounds)

lemma history_forecastable:
  fixes r :: "('t, f64) rapid"
  assumes "random_draws is_fin r"
  shows "yields (DailyCostHistory90Days r t) (\<lambda>h. length h = 90 \<and>
    (\<exists>f. GenerateForecast math_sqrt now h = Inr f \<and> map fp_Days (fc_Periods f) = [7, 14, 30]))"
  unfolding DailyCostHistory90Days_def
  by (rule yields_weaken [OF random_draws.yields_history [OF assms]])
    (simp add: GenerateForecast_days)

lemma list_all2_days:
  "list_all2 (\<lambda>d p. fp_Days p = d \<and> Q p) ds ps \<Longrightarrow> map fp_Days ps = ds \<and> (\<forall>p\<in>set ps. Q p)"
  by (induction rule: list_all2_induct) auto

text \<open>A generated forecast has the three periods in their order, each within its bounds, in floating
  point.\<close>

lemma generated_forecast_ordered:
  fixes r :: "('t, f64) rapid"
  assumes "random_draws is_fin r"
  shows "yields (gen_Forecast r t) (\<lambda>f. map fp_Days (fc_Periods f) = [7, 14, 30] \<and>
    (\<forall>p\<in>set (fc_Periods f). 0 \<le> fp_LowerBound p \<and> fp_LowerBound p \<le> fp_ForecastedCost p \<and>
      fp_ForecastedCost p \<le> fp_UpperBound p))"
proof -
  have sum: "(lit 10000 :: f64) + lit 5000 = lit 15000" "(0::f64) \<le> lit 5000" by (simp_all add: lit_f64)
  have upper: "is_fin (x + lit 5000) \<and> x \<le> x + lit 5000" if "0 \<le> x" "x \<le> lit 10000" for x :: f64
    using ieee.add_mono_left [OF that(2,1) sum(2)] ieee.add_grows [OF that(1) sum(2)] ieee.add_nonneg [OF that(1) sum(2)]
      ieee.fin_lit [of 15000] ieee.fin_between [of "lit 15000"] sum(1) by auto
  have level: "yields (Float64Range r (lit (1/2)) (lit (99/100)) t) (\<lambda>x. True)" for t
    by (rule yields_weaken [OF random_draws.float_range [OF assms]])
      (simp_all add: ieee.lit_mono ieee.fin_lit)
  have period: "yields (gen_ForecastPeriod r days t) (\<lambda>p. fp_Days p = days \<and> 0 \<le> fp_LowerBound p \<and>
      fp_LowerBound p \<le> fp_ForecastedCost p \<and> fp_ForecastedCost p \<le> fp_UpperBound p)" for days t
    unfolding gen_ForecastPeriod_def
    apply (rule yields_bind [OF random_draws.yields_from_zero [OF assms]], simp, simp)
    apply (rule yields_bind [OF random_draws.float_range [OF assms]], simp add: ieee.fin_zero, simp, simp)
    apply (rule yields_bind [OF random_draws.float_range [OF assms]], simp, simp add: upper, simp add: upper)
    apply (rule yields_bind [OF level])
    by (auto intro!: yields_return)
  show ?thesis
    unfolding gen_Forecast_def
    by (rule yields_let, rule yields_bind [OF random_draws.yields_texts(1) [OF assms]],
        rule yields_bind [OF yields_draw_for [OF period]], rule yields_return)
      (drule list_all2_days, simp)
qed

section \<open>Metrics, bills and costs\<close>

context random_draws
begin

lemma yields_PodMetrics: "yields (gen_PodMetrics r t)
    (\<lambda>p. 0 \<le> pm_CPUUsage p \<and> 0 \<le> pm_MemUsage p \<and> 0 \<le> pm_NetUsage p \<and> 0 \<le> pm_Storage p)"
  unfolding gen_PodMetrics_def
  by (intro yields_bind [OF yields_texts(1)] yields_bind [OF yields_texts(2)] yields_bind [OF yields_texts(3)]
      yields_bind [OF yields_texts(4)] yields_bind [OF yields_from_zero] yields_return) auto

text \<open>A generated node uses no more than it has.\<close>

lemma yields_NodeMetrics: "yields (gen_NodeMetrics r t)
    (\<lambda>n. nm_PurchaseOption n \<in> set purchaseOptions \<and> 0 \<le> nm_CPUUsage n \<and> nm_CPUUsage n \<le> nm_CPUCapacity n \<and>
      0 \<le> nm_MemUsage n \<and> nm_MemUsage n \<le> nm_MemCapacity n)"
proof -
  have capacity: "yields (Float64Range r (lit k) (lit k') t) (\<lambda>x. 0 \<le> x \<and> fin x)"
    if "0 \<le> k" "k \<le> k'" "k' \<le> 2 ^ 52" for k k' t
    using that by (intro yields_weaken [OF float_range]) (auto simp: fin_lit lit_mono intro: le_trans [OF lit_nonneg])
  show ?thesis
    unfolding gen_NodeMetrics_def
    apply (rule yields_bind [OF capacity], simp, simp, simp)
    apply (rule yields_bind [OF capacity], simp, simp, simp)
    apply (rule yields_bind [OF yields_texts(4)])
    apply (rule index_in, simp add: instanceTypes_def)
    apply (rule index_in, simp add: purchaseOptions_def)
    apply (rule yields_bind [OF float_range], simp add: fin_zero, simp, simp)
    apply (rule yields_bind [OF float_range], simp add: fin_zero, simp, simp)
    apply (rule yields_bind [OF yields_from_zero], simp, simp)
    apply (rule yields_bind [OF yields_from_zero], simp, simp)
    apply (rule yields_bind [OF yields_texts(2)])
    by (rule yields_return) simp
qed

lemma yields_ClusterMetrics: "yields (gen_ClusterMetrics r t) (\<lambda>m. cm_Pods m \<noteq> [] \<and> cm_Nodes m \<noteq> [] \<and>
    list_all (\<lambda>p. 0 \<le> pm_CPUUsage p \<and> 0 \<le> pm_MemUsage p) (cm_Pods m) \<and>
    list_all (\<lambda>n. nm_CPUUsage n \<le> nm_CPUCapacity n \<and> nm_MemUsage n \<le> nm_MemCapacity n) (cm_Nodes m))"
  unfolding gen_ClusterMetrics_def
  apply (rule yields_bind [OF int_range], simp)
  apply (rule yields_bind [OF yields_draw_each [OF yields_PodMetrics]])
  apply (rule yields_bind [OF int_range], simp)
  apply (rule yields_bind [OF yields_draw_each [OF yields_NodeMetrics]])
  by (rule yields_let, rule yields_return) (auto simp: list_all_iff)

lemma yields_draw_map:
  assumes "compile re \<noteq> None" "0 \<le> k" "k \<le> 2 ^ 52"
  shows "yields (draw_map r n re 0 (lit k) t) (\<lambda>m. \<forall>key v. m key = Some v \<longrightarrow> 0 \<le> v)"
proof -
  have each: "yields (do {(key, t) \<leftarrow> StringMatching r re t; (v, t) \<leftarrow> Float64Range r 0 (lit k) t; Some ((key, v), t)})
      (\<lambda>(key, v). 0 \<le> v)" for t
    using assms by (intro yields_bind [OF yields_text] yields_bind [OF yields_from_zero] yields_return) auto
  show ?thesis
    unfolding draw_map_def
    by (rule yields_bind [OF yields_draw_each [OF each]], rule yields_return)
      (auto simp: list_all_iff dest!: assigned_mem)
qed

lemma yields_NamespaceCost: "yields (gen_NamespaceCost r t)
    (\<lambda>c. nc_TotalCost c = nc_DirectCost c + nc_SharedCost c \<and> 0 \<le> nc_DirectCost c \<and> 0 \<le> nc_SharedCost c)"
  unfolding gen_NamespaceCost_def
  apply (rule yields_bind [OF yields_from_zero], simp, simp)
  apply (rule yields_bind [OF yields_from_zero], simp, simp)
  apply (rule yields_bind [OF int_range], simp)
  apply (rule yields_bind [OF yields_draw_map [OF cost_patterns(2)]], simp, simp)
  apply (rule yields_bind [OF int_range], simp)
  apply (rule yields_bind [OF yields_draw_map [OF cost_patterns(3)]], simp, simp)
  apply (rule yields_bind [OF yields_texts(1)], rule yields_bind [OF yields_texts(2)], rule yields_bind [OF boolean])
  by (rule yields_return) simp

lemma yields_named_cost: "yields (named_cost r t) (\<lambda>(ns, c). nc_Namespace c = ns \<and> 0 \<le> nc_TotalCost c)"
  unfolding named_cost_def
  by (rule yields_bind [OF yields_texts(1)], rule yields_bind [OF yields_NamespaceCost], rule yields_return)
    (auto intro: add_nonneg)

lemma yields_CostRecord: "yields (CostRecord r t) (\<lambda>d. 0 \<le> dr_TotalCost d \<and>
    dr_DayOfWeek d = Weekday (dr_Date d) \<and> dr_DayOfMonth d = d_Day (Date (dr_Date d)))"
  unfolding CostRecord_def Let_def
  apply (rule yields_bind [OF int_range], simp)
  apply (rule yields_bind [OF int_range], simp)
  apply (rule yields_bind [OF int_range], simp)
  apply (rule yields_bind [OF yields_texts(1)])
  apply (rule yields_bind [OF yields_from_zero], simp, simp)
  by (rule yields_return) simp

lemma yields_PurchaseOptionStats: "yields (gen_PurchaseOptionStats r t)
    (\<lambda>st. 0 \<le> po_Count st \<and> po_Count st \<le> 50 \<and> 0 \<le> po_Percentage st \<and> po_Percentage st \<le> lit 100 \<and> 0 \<le> po_Cost st)"
  unfolding gen_PurchaseOptionStats_def
  apply (rule yields_bind [OF int_range], simp)
  apply (rule yields_bind [OF yields_from_zero], simp, simp)
  apply (rule yields_bind [OF yields_from_zero], simp, simp)
  by (rule yields_return) simp

end

lemma firsts_drawn: "list_all2 (\<lambda>i x. fst x = i) is xs \<Longrightarrow> map fst xs = is"
  by (induction rule: list_all2_induct) auto

text \<open>A generated recommendation has a share for every option, before and after.\<close>

lemma generated_recommendation_covers:
  assumes r: "random_draws fin r"
  shows "yields (gen_OptimizationRecommendation r t) (\<lambda>rec. dom (or_CurrentMix rec) = set purchaseOptions \<and>
    dom (or_RecommendedMix rec) = set purchaseOptions \<and> length (or_AffectedNodes rec) \<le> 10 \<and> 0 \<le> or_ExpectedSavings rec)"
proof -
  have share: "yields (do {(c, t) \<leftarrow> Float64Range r 0 (lit 100) t; (d, t) \<leftarrow> Float64Range r 0 (lit 100) t;
      Some ((opt, c, d), t)}) (\<lambda>x. fst x = opt)" for opt :: string and t
    apply (rule yields_bind [OF random_draws.yields_from_zero [OF r]], simp, simp)
    apply (rule yields_bind [OF random_draws.yields_from_zero [OF r]], simp, simp)
    by (rule yields_return) simp
  have node: "yields (do {(n, t) \<leftarrow> IntRange r 1 100 t; Some (''node-'' @ itoa n, t)}) (\<lambda>s. True)" for t
    by (rule yields_bind [OF random_draws.int_range [OF r]], simp, rule yields_return) simp
  have keys: "fst ` set (map (\<lambda>(opt, c, d). (opt, c)) mixes) = set (map fst mixes)"
    "fst ` set (map (\<lambda>(opt, c, d). (opt, d)) mixes) = set (map fst mixes)" for mixes :: "(string \<times> 'a \<times> 'a) list"
    by force+
  show ?thesis
    unfolding gen_OptimizationRecommendation_def
    apply (rule yields_bind [OF yields_draw_for [OF share]])
    apply (rule yields_bind [OF random_draws.int_range [OF r]], simp)
    apply (rule yields_bind [OF yields_draw_each [OF node]])
    apply (rule yields_bind [OF random_draws.int_range [OF r]], simp)
    apply (rule yields_let)
    apply (rule yields_bind [OF random_draws.yields_from_zero [OF r]], simp, simp)
    apply (rule random_draws.index_in [OF r], simp add: reasons_def)
    apply (rule yields_bind [OF random_draws.boolean [OF r]])
    by (rule yields_return) (simp add: dom_assigned keys firsts_drawn nat_le_iff del: set_map)
qed

lemma keys_drawn:
  "list_all2 (\<lambda>i (k, c). i < n \<and> k = xs ! i) is kvs \<Longrightarrow> map fst kvs = map ((!) xs) is"
  by (induction rule: list_all2_induct) auto

text \<open>The total of a generated bill is the sum of its services, which are different.\<close>

lemma generated_bill_adds_up:
  fixes r :: "('t, real) rapid"
  assumes r: "random_draws (\<lambda>_. True) r"
  shows "yields (gen_AWSCostData r t) (\<lambda>b. (\<Sum>s\<in>dom (aws_ByService b). the (aws_ByService b s)) = aws_TotalCost b)"
proof -
  have each: "yields (do {(cost, t) \<leftarrow> Float64Range r 0 (lit 5000) t; (svc, t) \<leftarrow> at_index services (int i) t;
      Some ((svc, cost), t)}) (\<lambda>(svc, cost). i < length services \<and> svc = services ! i)"
    if "i < length services" for i t
    using that
    by (intro yields_bind [OF random_draws.yields_from_zero [OF r]]) (auto simp: at_index_def intro!: yields_return)
  have costs: "yields (draw_for [0..<nat n] (\<lambda>i t. do {(cost, t) \<leftarrow> Float64Range r 0 (lit 5000) t;
      (svc, t) \<leftarrow> at_index services (int i) t; Some ((svc, cost), t)}) t) (\<lambda>costs. distinct (map fst costs))"
    if "1 \<le> n \<and> n \<le> int (length services)" for n t
  proof (rule yields_weaken [OF yields_draw_for [OF each]])
    fix costs :: "(string \<times> real) list"
    assume *: "list_all2 (\<lambda>i (svc, cost). i < length services \<and> svc = services ! i) [0..<nat n] costs"
    have "map fst costs = take (nat n) services"
      using that by (simp add: keys_drawn [OF *] list_eq_iff_nth_eq min_absorb2 nat_le_iff)
    moreover have "distinct services" by (simp add: services_def)
    ultimately show "distinct (map fst costs)" by simp
  qed (use that in auto)
  have sum: "fold (\<lambda>(svc, c) s. s + c) costs x = x + (\<Sum>(svc, c)\<leftarrow>costs. c)" for costs :: "(string \<times> real) list" and x
    by (induction costs arbitrary: x) auto
  show ?thesis
    unfolding gen_AWSCostData_def
    apply (rule yields_bind [OF random_draws.int_range [OF r]], simp add: services_def)
    apply (rule yields_bind [OF costs], simp)
    apply (rule yields_bind [OF random_draws.int_range [OF r]], simp)
    apply (rule yields_bind [OF random_draws.yields_draw_map [OF r cost_patterns(2)]], simp, simp)
    apply (rule yields_let, rule yields_let)
    apply (rule yields_bind [OF random_draws.boolean [OF r]])
    by (rule yields_return) (simp add: sum sum_assigned [where f = "\<lambda>v. v"])
qed

text \<open>The total of generated costs is at least that of their namespaces; it is more when a name is drawn
  again, since the cost under the name is replaced and the total keeps what it was.\<close>

lemma sum_assigned_le:
  fixes f :: "'v \<Rightarrow> real"
  assumes "\<forall>(k, v)\<in>set kvs. 0 \<le> f v"
  shows "(\<Sum>k\<in>dom (assigned kvs). f (the (assigned kvs k))) \<le> (\<Sum>(k, v)\<leftarrow>kvs. f v)"
  using assms
proof (induction kvs rule: rev_induct)
  case (snoc kv kvs)
  obtain k v where kv: "kv = (k, v)" by (cases kv)
  have a: "assigned (kvs @ [(k, v)]) = (assigned kvs)(k \<mapsto> v)" by (simp add: assigned_def)
  have fin: "finite (dom (assigned kvs))" by (simp add: dom_assigned)
  have "0 \<le> f (the (assigned kvs q))" if "q \<in> dom (assigned kvs)" for q
    using that snoc.prems by (fastforce dest: assigned_mem)
  then have "(\<Sum>q\<in>dom (assigned kvs) - {k}. f (the (assigned kvs q))) \<le> (\<Sum>q\<in>dom (assigned kvs). f (the (assigned kvs q)))"
    using fin by (intro sum_mono2) auto
  moreover have "(\<Sum>q\<in>dom (assigned kvs) - {k}. f (the (((assigned kvs)(k \<mapsto> v)) q))) =
      (\<Sum>q\<in>dom (assigned kvs) - {k}. f (the (assigned kvs q)))"
    by (rule sum.cong) auto
  moreover have "(\<Sum>(k, v)\<leftarrow>kvs. f v) \<ge> (\<Sum>q\<in>dom (assigned kvs). f (the (assigned kvs q)))"
    using snoc by auto
  moreover have "dom ((assigned kvs)(k \<mapsto> v)) = insert k (dom (assigned kvs) - {k})" by auto
  then have "(\<Sum>q\<in>dom ((assigned kvs)(k \<mapsto> v)). f (the (((assigned kvs)(k \<mapsto> v)) q))) =
      f v + (\<Sum>q\<in>dom (assigned kvs) - {k}. f (the (((assigned kvs)(k \<mapsto> v)) q)))"
    using fin by (simp only: sum.insert finite_Diff Diff_iff insert_iff simp_thms fun_upd_same option.sel)
  ultimately show ?case by (simp only: kv a) (simp del: fun_upd_apply dom_fun_upd)
qed (simp add: assigned_def)

lemma generated_costs_total:
  fixes r :: "('t, real) rapid"
  assumes r: "random_draws (\<lambda>_. True) r"
  shows "yields (gen_AggregatedCosts r t) (\<lambda>a.
    (\<Sum>ns\<in>dom (ag_ByNamespace a). nc_TotalCost (the (ag_ByNamespace a ns))) \<le> ag_TotalCost a)"
proof -
  have sum: "fold (\<lambda>(ns, c) s. s + nc_TotalCost c) costs x = x + (\<Sum>(ns, c)\<leftarrow>costs. nc_TotalCost c)"
    for costs :: "(string \<times> real NamespaceCost) list" and x by (induction costs arbitrary: x) auto
  show ?thesis
    unfolding gen_AggregatedCosts_def
    apply (rule yields_bind [OF random_draws.int_range [OF r]], simp)
    apply (rule yields_bind [OF yields_draw_each [OF random_draws.yields_named_cost [OF r]]])
    apply (rule yields_let, rule yields_return)
    using sum_assigned_le [of _ nc_TotalCost] by (fastforce simp: sum list_all_iff)
qed

lemma seeded_texts: "compile re \<noteq> None \<Longrightarrow> \<exists>s. \<forall>t. seeded_text re t = Some (s, t)"
  by (auto simp: seeded_text_def)

lemma replaced_costs_counted:
  "\<exists>a t. gen_AggregatedCosts (seeded :: (seed, real) rapid) [1, 1] = Some (a, t) \<and>
     ag_TotalCost a = 5000 \<and> (\<Sum>ns\<in>dom (ag_ByNamespace a). nc_TotalCost (the (ag_ByNamespace a ns))) = 0"
proof -
  obtain ns svc pod where texts:
    "seeded_text ''[a-z]{3,15}'' t = Some (ns, t)" "seeded_text ''[a-z]{3,10}'' t = Some (svc, t)"
    "seeded_text pod_pattern t = Some (pod, t)" for t
    using seeded_texts [OF cost_patterns(1)] seeded_texts [OF cost_patterns(2)] seeded_texts [OF cost_patterns(3)]
    by blast
  have 1: "gen_NamespaceCost (seeded :: (seed, real) rapid) [1] = Some (\<lparr>nc_Namespace = ns, nc_Team = svc, nc_DirectCost = 5000,
      nc_SharedCost = 0, nc_TotalCost = 5000, nc_ByService = [svc \<mapsto> 0], nc_ByPod = [pod \<mapsto> 0], nc_IsApproximate = False\<rparr>, [])"
    and 2: "gen_NamespaceCost (seeded :: (seed, real) rapid) [] = Some (\<lparr>nc_Namespace = ns, nc_Team = svc, nc_DirectCost = 0,
      nc_SharedCost = 0, nc_TotalCost = 0, nc_ByService = [svc \<mapsto> 0], nc_ByPod = [pod \<mapsto> 0], nc_IsApproximate = False\<rparr>, [])"
    by (simp_all add: gen_NamespaceCost_def seeded_simps seeded_int_def seed_hd_def texts draw_map_def assigned_def)
  show ?thesis
    by (simp add: gen_AggregatedCosts_def named_cost_def seeded_simps seeded_int_def seed_hd_def texts 1 2 assigned_def
        numeral_2_eq_2)
qed

end
