(* ===== verification/Spec2Isabelle.thy ===== *)
theory Spec2Isabelle
  imports Runtime_Objects Interleaving Startup Policy_Controller Policy_Manager Cost_Collector Forecast Cost_Table
    Orchestrator Api Audit_Table Metrics Migrations Schedulers Policy_Generators Data_Generators
begin

text \<open>
  The EKS financial orchestrator watches the costs of Kubernetes namespaces and enforces
  budgets, written in Go. This development models its packages as HOL functions over explicit
  states and proves what makes each of them correct.

  \<^bold>\<open>The program and the theories.\<close>
  \<^item> A \<^verbatim>\<open>FinancialPolicy\<close> resource (\<^verbatim>\<open>api/v1alpha1/financialpolicy_types.go\<close>, theory \<open>Policy_Types\<close>) says
    what a namespace may spend. \<open>Policy_Validate\<close> models \<^verbatim>\<open>pkg/policy/validate.go\<close>; \<open>Policy_Manager\<close>
    the manager that applies policies, keeps their versions in an annotation and rolls back
    (\<^verbatim>\<open>manager.go\<close>); \<open>Policy_Controller\<close> the reconciler that writes the verdict of the validation into
    the status (\<^verbatim>\<open>controller.go\<close>). The API server of Kubernetes is a parameter with the contract of the
    locale \<open>kube_api\<close> in \<open>Kube_Api\<close>; \<open>accepting_api\<close> adds that well-formed requests are accepted. The theory also
    holds a server in memory that meets both.
  \<^item> \<^verbatim>\<open>pkg/collector\<close>: \<open>Cost_Types\<close> has its data, \<open>Aws_Fetch\<close> the reading of the bill and the cache
    (\<^verbatim>\<open>aws.go\<close>, \<^verbatim>\<open>cache.go\<close>), \<open>Backoff\<close> the retries (\<^verbatim>\<open>backoff.go\<close>), \<open>Correlate\<close> the split of the bill
    over the pods (\<^verbatim>\<open>correlate.go\<close>), \<open>Shared_Costs\<close> the allocation of shared costs (\<^verbatim>\<open>shared_costs.go\<close>),
    \<open>Cost_Collector\<close> the collector, the store and the scheduler that runs these steps in a cycle
    (\<^verbatim>\<open>collector.go\<close>, \<^verbatim>\<open>store.go\<close>, \<^verbatim>\<open>scheduler.go\<close>), \<open>Cost_Table\<close> the table of the store and the
    meaning of its SQL statements.
  \<^item> \<open>Forecast\<close> models \<^verbatim>\<open>pkg/forecast\<close>: Holt-Winters smoothing, forecasts and their bounds,
    seasonality, thresholds and the scheduler.
  \<^item> \<open>Schedulers\<close> has the constructors of the two schedulers and of the collector, and the loops of the
    schedulers as a state machine: ticks, cycles and the end of the context in any order.
  \<^item> \<open>Instance\<close> models \<^verbatim>\<open>pkg/instance\<close> (analysis of the nodes, recommended mixes, interruptions,
    savings plans), \<open>Alerting\<close> models \<^verbatim>\<open>pkg/alerting\<close> (channels, retries, silence windows, anomalies),
    \<open>Audit_Log\<close> models \<^verbatim>\<open>pkg/audit\<close> (entries, their rows, the query over them and the scan of its answer),
    \<open>Audit_Table\<close> the table behind it: the types of its columns (\<^verbatim>\<open>migrations/003_create_audit_log.sql\<close>) and
    the meaning of the query, read from its text.
  \<^item> \<open>Orchestrator\<close> models \<^verbatim>\<open>pkg/orchestrator/controller.go\<close>: the reconciler that compares the stored
    costs with the budget, acts on a breach, asks the instance manager for a recommendation,
    applies it in automatic mode, writes the audit log and the status.
  \<^item> \<open>Startup\<close> models \<^verbatim>\<open>main.go\<close> and the registration of the types: the flags, the manager and its two
    controllers as \<^verbatim>\<open>main\<close> builds them (\<open>main_reconciler\<close>), over the controller runtime as a parameter.
  \<^item> \<open>Interleaving\<close> puts the two reconcilers, the policy manager and the users of the cluster together:
    a step relation whose steps are single calls to the API server, with reads that lag behind.
    \<open>Versioned_Api\<close> is the API server with its resource versions, which keep the parts from
    overwriting each other.
  \<^item> \<open>Go_Memory\<close>, \<open>Deep_Copy\<close> and \<open>Runtime_Objects\<close> model \<^verbatim>\<open>zz_generated.deepcopy.go\<close>, written by hand for
    the three resources of \<^verbatim>\<open>api/v1alpha1\<close>, over a memory of arrays, variables and maps with explicit
    addresses. Everywhere else a struct is a value: \<open>spec_copy_keeps_value\<close> says why a copied
    specification may be treated so.
  \<^item> \<open>Api\<close> models \<^verbatim>\<open>pkg/api\<close>: routes, roles and handlers. \<open>Metrics\<close> models \<^verbatim>\<open>pkg/metrics\<close>, \<open>Migrations\<close>
    the connection and the migration runner of \<^verbatim>\<open>pkg/db\<close>.
  \<^item> \<open>Policy_Generators\<close> and \<open>Data_Generators\<close> model \<^verbatim>\<open>tests/generators\<close>, which draw policies, costs,
    forecasts and analyses for property-based tests. \<open>Random_Draws\<close> has the source of the draws, the package
    \<^verbatim>\<open>rapid\<close>, as a parameter with the contract of the locale \<open>random_draws\<close>, and the fragment of Go's regular
    expressions in which the texts are asked for.
  \<^item> \<open>Float64\<close>, \<open>Prelude\<close>, \<open>Calendar\<close> and \<open>Rfc3339\<close> model what is used of Go: floating point numbers,
    strings, formatted text, maps and loops over them, instants and dates, RFC 3339.

  \<^bold>\<open>How the code is rendered.\<close> A struct is a record (the prefix of a field tells the record), an
  enumeration of strings its constants, an error a value of a datatype or \<open>go_error\<close>, a result
  with an error a sum. A function that acts on the world takes and returns a state \<open>'s\<close>; the world
  itself, as clients of Kubernetes, AWS and the database, senders, files, waits, the router and the
  Prometheus vectors, is a parameter, with its contract in a locale where the code relies on one:
  \<open>kube_api\<close> and its extensions \<open>versioned_api\<close> and \<open>accepting_api\<close>, \<open>cost_database\<close>, \<open>audit_database\<close>, \<open>audit_writer\<close>, \<open>expiring_cache\<close>, \<open>metric_vec\<close>,
  \<open>controller_runtime\<close>, \<open>connection_pools\<close>, \<open>metav1_copies\<close>, \<open>random_draws\<close>. A Go map is a partial function; where the
  code ranges over one, the order is an argument, and the theorems hold for every order. A nil
  pointer, map or interface that the code treats apart is \<open>None\<close>. The clock is read once per call.
  Integers are \<open>int\<close> with \<open>int64\<close> where they can leave 64 bits.

  \<^bold>\<open>Numbers.\<close> Definitions with \<^verbatim>\<open>float64\<close> are polymorphic in the number type. The code is the
  instance at \<open>f64\<close>, IEEE 754 binary64 with rounding to nearest even, infinities and NaN, but one
  zero (no division by a zero of known sign occurs). Bounds and guards are proved there, through
  the locale \<open>ordered_arith\<close>, whose laws hold of \<open>f64\<close> and of the reals alike. Laws of conservation
  (sums of shares) and the continuation of a periodic history hold up to rounding only and are proved
  at the reals: they say that the formulas are right. Where a bound on the rounding is within reach it is
  proved as well: percentages of nodes add up to 100 up to \<open>1 / 10 ^ 12\<close>. Two computations of the same number
  in floating point are compared as such (\<open>api_serves_enforced_costs\<close>). A compiler that fuses a product and a sum, as on arm64, rounds less often
  than the model.

  \<^bold>\<open>What the lemmas show.\<close>
  \<^item> Policies: the validation decides the documented rules; the manager refines an append-only log
    of versions of which the annotation holds the last ten (\<open>apply_appends_version\<close>,
    \<open>rollback_appends_target\<close>), in every sequence of calls and on every error path
    (\<open>manager_runs_keep_logs\<close>).
  \<^item> Costs: aggregation equals the grouping of the pods, whatever the order of the loops; bill,
    groups and allocation conserve the costs in exact arithmetic; costs and shares are bounded in floating
    point; the retry loop ends and its delays are bounded; a cycle stores only at its end, and
    what it stores is added to the costs of the month (\<open>stored_costs_count\<close>); the costs of a namespace that the
    REST API serves are the number the orchestrator computes for the same time (\<open>api_serves_enforced_costs\<close>).
  \<^item> Forecasts: in exact arithmetic a periodic history is continued exactly; bounds enclose their forecast; breaches
    are reported exactly.
  \<^item> Recommendations respect the policies, exactly and in floating point; a policy that fails the
    validation is left alone by the orchestrator; a reconciliation writes nothing but its own results into
    the status, advisory policies are never optimized, roles are enforced, alerts reach every
    channel, audit entries are read back through the table but for what its columns round or refuse, times survive rendering and parsing, migrations run in
    order.
  \<^item> Together: in every interleaving the phase of an evaluated policy is the verdict on the specification
    evaluated last (\<open>controllers_agree\<close>), and the handlers are sequences of the steps for which this
    is proved (\<open>handlers_take_steps\<close>). The program as it is never gets there: its second controller
    has the name of the first, and \<^verbatim>\<open>main\<close> exits (\<open>main_never_starts\<close>).
  \<^item> Schedulers: in every run the world is what the fold of the started cycles makes of it, at most one
    cycle starts per interval, and a cancelled loop can always return (\<open>scheduler_runs_cycles\<close>).
  \<^item> Test data: valid policies are accepted and the defects of invalid ones reported, for all draws
    (\<open>generated_policies_judged\<close>); analyses, bills and forecasts keep the invariants of real ones; no
    generator asks for a draw from an empty range (the predicate \<open>yields\<close> is total correctness).
  \<^item> Memory: each copying statement (\<open>copy_plain\<close>, \<open>copy_each\<close>, \<open>copy_map\<close>, \<open>copy_new\<close>) meets the contract
    \<open>deep_copy\<close>, and so does every struct composed of them; a copied object equals the original and
    shares no memory with it (\<open>deep_copy_object\<close>).

  \<^bold>\<open>Loops.\<close> All loops run over finite lists or a bounded number of attempts and are structural
  recursions or folds; the retry loops count their remaining attempts (\<open>retry_from\<close>, \<open>send_from\<close>),
  of which the code fixes the number. A scheduler's loop is a fold over the ticks that come before
  its context is done, and that fold is proved of the state machine of \<open>Schedulers\<close>, which may run
  forever. The parser of regular expressions ends because each step consumes text. No definition needs
  fuel.

  \<^bold>\<open>Not modelled.\<close> Logging, except for the structured lines of the audit log, which are its second
  destination (\<open>WriteEntry_logged\<close>); constructors that only store their arguments; listening on a port,
  the middlewares of the router and response types no handler uses; what the controller runtime does
  once it is started (queues, leader election, caches), which appears in \<open>Interleaving\<close> as the freedom of
  its steps. The mutex of the cache is left out: each operation is one step. Error texts are kept where
  they are stored or sent; a returned error is kept as what it wraps.
\<close>

section \<open>Properties that span components\<close>

text \<open>C8: in floating point, and for policies that the validation accepts, a recommendation made from an
  analysis of the cluster gives On-Demand nodes at least the minimum of every policy, no share
  is negative, and when it is flagged as compliant, Spot has at most every positive maximum.\<close>

theorem valid_policies_respected:
  fixes policies :: "f64 FinancialPolicy list"
  assumes "\<forall>p\<in>set policies. ValidateFinancialPolicy p = [] \<and> list_all is_fin (spec_numbers (Spec p))"
    and "length items < 2 ^ 53" "AnalyzeInstanceMix (Inr items) ks now = Inr a"
    and "GenerateRecommendation ks' now' (Some a) policies = Inr r"
  shows "\<exists>od spot. or_RecommendedMix r ''on_demand'' = Some od \<and> or_RecommendedMix r ''spot'' = Some spot \<and>
    0 \<le> od \<and> 0 \<le> spot \<and> spot \<le> lit 100 \<and>
    (\<forall>p\<in>set policies. \<forall>mix. InstanceMix (Spec p) = Some mix \<longrightarrow> MinOnDemandPercent mix \<le> od \<and>
       (or_PolicyCompliant r \<and> 0 < MaxSpotPercent mix \<longrightarrow> spot \<le> MaxSpotPercent mix))"
proof -
  obtain lo hi where c: "constraints policies = (lo, hi)" by fastforce
  have "\<forall>p\<in>set policies. \<forall>mix. InstanceMix (Spec p) = Some mix \<longrightarrow>
      is_fin (MinOnDemandPercent mix) \<and> is_fin (MaxSpotPercent mix) \<and> MinOnDemandPercent mix \<le> lit 100"
    using assms(1) by (auto simp: validate_Nil_iff valid_spec_def spec_numbers_def percent_fin)
  from constraints_f64 [OF c this] have lim: "is_fin lo" "is_fin hi" "0 \<le> lo" "lo \<le> lit 100" "0 \<le> hi"
    "\<forall>p\<in>set policies. \<forall>mix. InstanceMix (Spec p) = Some mix \<longrightarrow>
       MinOnDemandPercent mix \<le> lo \<and> (0 < MaxSpotPercent mix \<longrightarrow> hi \<le> MaxSpotPercent mix)" by simp_all
  define res where "res = at0 (\<lambda>opt. map_option po_Percentage (ia_ByPurchaseOption a opt)) ''reserved''"
  from assms(3) analyze_percent [OF assms(2), of ks now a "''reserved''"]
  have res: "is_fin res" "0 \<le> res" by (simp_all add: AnalyzeInstanceMix_def res_def)
  obtain od spot reserved where rec: "recommended lo hi res = (od, spot, reserved)" using prod_cases3 by blast
  from recommended_f64 [OF lim(1,3,4,2,5) res rec] have mix: "lo \<le> od" "0 \<le> spot" "spot \<le> lit 100" by simp_all
  have "or_RecommendedMix r ''on_demand'' = Some od" "or_RecommendedMix r ''spot'' = Some spot"
    "or_PolicyCompliant r \<longleftrightarrow> \<not> od < lo \<and> \<not> hi < spot"
    using assms(4) rec by (auto simp: GenerateRecommendation_def c Let_def res_def)
  moreover have "0 \<le> od" using lim(3) mix(1) by (rule ieee.le_trans)
  moreover have "is_fin spot" using mix ieee.fin_between [of "lit 100" spot] ieee.fin_lit [of 100] by simp
  then have "\<not> hi < spot \<Longrightarrow> spot \<le> hi" using lim(2) by (auto intro: ieee.not_less)
  moreover have "MinOnDemandPercent mix \<le> od \<and> (spot \<le> hi \<and> 0 < MaxSpotPercent mix \<longrightarrow> spot \<le> MaxSpotPercent mix)"
    if "p \<in> set policies" "InstanceMix (Spec p) = Some mix" for p mix
    using lim(6) that mix(1) by (blast intro: ieee.le_trans)
  ultimately show ?thesis using mix by blast
qed

text \<open>C9: a policy that does not pass the validation is never enforced once the policy controller has
  seen it: its phase is the error phase, and the orchestrator leaves it alone. In particular it
  does not panic, even without a cost store.\<close>

theorem invalid_policies_idle:
  fixes wf :: "'s \<Rightarrow> bool"
  assumes "kube_api (oc_Client r) wf objs" "wf s"
    and "Policy_Controller.Reconcile (oc_Client r) now s k = (None, s1)"
    and "objs s k = Some p" "ValidateFinancialPolicy p \<noteq> []"
  shows "Phase (Status (the (objs s1 k))) = PolicyPhaseError \<and> snd (Orchestrator.Reconcile r zone now' s1 k) = s1 \<and>
    fst (Orchestrator.Reconcile r zone now' s1 k) \<in> insert Finished (range (\<lambda>e. Failed (EClient e)))"
proof -
  from kube_api.reconcile_step [OF assms(1-3)] assms(4) obtain q where
    q: "wf s1" "objs s1 k = Some q" "Status q = Status (evaluated now p)" by auto
  have phase: "Phase (Status q) = PolicyPhaseError"
    using evaluated_tells [of p now] assms(5) q(3) by (simp add: status_tells_def validate_Nil_iff)
  show ?thesis
  proof (cases "kGet (oc_Client r) s1 (fst k) (snd k)")
    case (Inr fp)
    with kube_api.get_found [OF assms(1) q(1), of "fst k" "snd k"] q(2) have "fp = q" by simp
    then show ?thesis using Inr phase q(2) by (simp add: Orchestrator.Reconcile_def)
  qed (simp add: Orchestrator.Reconcile_def phase q(2))
qed

text \<open>C26: what the orchestrator compares with a budget: storing costs under a new time stamp raises the
  costs since the start of the month by all rows stored for the namespace, rounded to the
  precision of the column, in exact arithmetic. A cycle that stores the costs of the last day adds them to those the
  cycles before have stored for the same day.\<close>

theorem stored_costs_count:
  fixes c :: "real AggregatedCosts"
  assumes "cost_database sendBatch query table numeric sum_list"
    and "StoreCostRecords sendBatch nsOrder podOrder (Some c) s = (None, s')"
    and "iterates nsOrder (ag_ByNamespace c)" "\<forall>n nc. ag_ByNamespace c n = Some nc \<longrightarrow> distinct (podOrder n)"
    and "\<forall>r\<in>set (table s). cr_Time r \<noteq> ag_Timestamp c"
    and "startOfMonth zone now \<le> ag_Timestamp c" "ag_Timestamp c < now" "n \<noteq> []"
    and "QueryCostRecords query (startOfMonth zone now) now n s = Inr before"
    and "QueryCostRecords query (startOfMonth zone now) now n s' = Inr after"
  shows "month_cost after = month_cost before +
    (case ag_ByNamespace c n of None \<Rightarrow> 0
     | Some nc \<Rightarrow> \<Sum>row\<leftarrow>namespace_rows (ag_Timestamp c) (podOrder n) n nc. numeric (cr_TotalCost row))"
proof -
  have sum: "month_cost rs = (\<Sum>r\<leftarrow>rs. dr_TotalCost r)" for rs :: "real DailyCostRecord list"
    by (simp add: month_cost_def fold_add_real)
  from queried_total [OF assms(1,9)] queried_total [OF assms(1,10)] stored_total [OF assms(1-8)] assms(8)
  show ?thesis by (simp add: sum)
qed

text \<open>C27: the costs the REST API serves are those the orchestrator compares with the budgets, number for
  number in floating point. \<^verbatim>\<open>GET /costs\<close> answers with one record for every day and namespace, the cost of
  which is the database's sum of the rows of that day and namespace, with the running sum of the records as
  the total and with a share of the namespace \<open>n\<close> that is exactly what the orchestrator computes
  from its own query of that namespace for the same time; so is the total of
  \<^verbatim>\<open>GET /costs/namespaces/{namespace}\<close>, which is answered with 404 when the namespace has no costs. An
  answer with a number that is not finite has the status 200 and an empty body.\<close>

theorem api_serves_enforced_costs:
  fixes server :: "(f64, 'e) Server"
  assumes "cost_database sendBatch query table numeric sum_of"
    and "sr_QueryCostRecords server = (\<lambda>a b ns. QueryCostRecords query a b ns s)"
    and "parseTimeRange now r = Inr (start, till)" "params ''namespace'' = n" "n \<noteq> []"
    and "QueryCostRecords query start till [] s = Inr records"
    and "QueryCostRecords query start till n s = Inr mine"
  shows "\<exists>resp own.
    handleGetCosts server now params r = \<lparr>re_Status = 200, re_Body =
      (if is_fin (rs_TotalCost resp) \<and>
          (\<forall>x\<in>set records. is_fin (dr_TotalCost x) \<and> is_fin (at0 (rs_ByNamespace resp) (dr_Namespace x)))
       then BCosts resp else BNone)\<rparr> \<and>
    handleGetCostsByNamespace server now params r =
      (if mine = [] then writeError 404 (ENoCostData n)
       else \<lparr>re_Status = 200, re_Body =
         (if is_fin (rs_TotalCost own) \<and> (\<forall>x\<in>set mine. is_fin (dr_TotalCost x)) then BCosts own else BNone)\<rparr>) \<and>
    rs_Records resp = records \<and> rs_TotalCost resp = fold (\<lambda>x c. c + dr_TotalCost x) records 0 \<and>
    (\<forall>x\<in>set records. dr_TotalCost x = sum_of (map cr_TotalCost (filter
       (\<lambda>row. day_key row = (dr_Date x, dr_Namespace x)) (selected start till None (table s))))) \<and>
    at0 (rs_ByNamespace resp) n = month_cost mine \<and> rs_TotalCost own = month_cost mine"
proof -
  let ?resp = "buildCostResponse records" and ?own = "buildCostResponse mine"
  have mine: "filter (\<lambda>x. dr_Namespace x = n) records = mine" by (rule namespace_records [OF assms(1,5,6,7)])
  have served: "rs_TotalCost (buildCostResponse rs) = month_cost rs"
    "at0 (rs_ByNamespace (buildCostResponse rs)) m = month_cost (filter (\<lambda>x. dr_Namespace x = m) rs)"
    "rs_Records (buildCostResponse rs) = rs"
    for rs :: "f64 DailyCostRecord list" and m
    using responses_group_records [of rs] by (simp_all add: at0_group_map group_sum_def month_cost_def)
  have "filter (\<lambda>x. dr_Namespace x = n) mine = mine" unfolding mine [symmetric] by simp
  moreover have "\<forall>x\<in>set mine. dr_Namespace x = n" using mine by auto
  ultimately have own: "costs_encodable ?own \<longleftrightarrow> is_fin (rs_TotalCost ?own) \<and> (\<forall>x\<in>set mine. is_fin (dr_TotalCost x))"
    by (auto simp: costs_encodable_def list_all_iff served finite_num_f64)
  have "costs_encodable ?resp \<longleftrightarrow> is_fin (rs_TotalCost ?resp) \<and>
      (\<forall>x\<in>set records. is_fin (dr_TotalCost x) \<and> is_fin (at0 (rs_ByNamespace ?resp) (dr_Namespace x)))"
    by (simp add: costs_encodable_def list_all_iff served finite_num_f64)
  then have "handleGetCosts server now params r = \<lparr>re_Status = 200, re_Body =
      (if is_fin (rs_TotalCost ?resp) \<and>
          (\<forall>x\<in>set records. is_fin (dr_TotalCost x) \<and> is_fin (at0 (rs_ByNamespace ?resp) (dr_Namespace x)))
       then BCosts ?resp else BNone)\<rparr>"
    using assms(2,3,6) by (simp add: handleGetCosts_def writeJSON_def Let_def)
  moreover have "handleGetCostsByNamespace server now params r =
      (if mine = [] then writeError 404 (ENoCostData n)
       else \<lparr>re_Status = 200, re_Body =
         (if is_fin (rs_TotalCost ?own) \<and> (\<forall>x\<in>set mine. is_fin (dr_TotalCost x)) then BCosts ?own else BNone)\<rparr>)"
    using assms(2-5,7) own by (simp add: handleGetCostsByNamespace_def writeJSON_def Let_def)
  moreover have "rs_TotalCost ?resp = fold (\<lambda>x c. c + dr_TotalCost x) records 0"
    by (simp only: served month_cost_def)
  moreover have "at0 (rs_ByNamespace ?resp) n = month_cost mine" by (simp only: served mine)
  ultimately show ?thesis
    using record_costs [OF assms(1,6)] served(1) [of mine] served(3) [of records] by blast
qed

text \<open>In exact arithmetic that total is the sum of all rows of the range.\<close>

lemma served_total_exact:
  fixes query :: "time \<Rightarrow> time \<Rightarrow> string option \<Rightarrow> 's \<Rightarrow> go_error + (time \<times> string \<times> real) option list \<times> go_error option"
  assumes "cost_database sendBatch query table numeric sum_list" "QueryCostRecords query start till [] s = Inr records"
  shows "rs_TotalCost (buildCostResponse records) = (\<Sum>row\<leftarrow>selected start till None (table s). cr_TotalCost row)"
  using queried_total [OF assms] responses_group_records [of records] by (simp add: group_sum_real)

subsection \<open>The properties at work\<close>

text \<open>Five dollars of the pod \<open>web\<close>, seen by two cycles five minutes apart.\<close>

definition seen_at :: "time \<Rightarrow> real AggregatedCosts" where
  "seen_at t = \<lparr>ag_Timestamp = t, ag_ByNamespace = [''shop'' \<mapsto> \<lparr>nc_Namespace = ''shop'', nc_Team = ''web'',
       nc_DirectCost = 5, nc_SharedCost = 0, nc_TotalCost = 5, nc_ByService = Map.empty,
       nc_ByPod = [''web'' \<mapsto> 5], nc_IsApproximate = False\<rparr>], ag_ByTeam = Map.empty, ag_TotalCost = 5\<rparr>"

definition first_cycle :: "real CostRow list" where
  "first_cycle = snd (StoreCostRecords (mem_send (\<lambda>x. x)) [''shop''] (\<lambda>_. [''web'']) (Some (seen_at 0)) [])"

definition second_cycle :: "real CostRow list" where
  "second_cycle = snd (StoreCostRecords (mem_send (\<lambda>x. x)) [''shop''] (\<lambda>_. [''web'']) (Some (seen_at (5 * minute))) first_cycle)"

lemma stored_costs_count_witness:
  "\<exists>before after. QueryCostRecords (mem_query sum_list) (startOfMonth 0 hour) hour ''shop'' first_cycle = Inr before \<and>
     QueryCostRecords (mem_query sum_list) (startOfMonth 0 hour) hour ''shop'' second_cycle = Inr after \<and>
     month_cost after = month_cost before + 5"
proof -
  have query: "\<exists>rs. QueryCostRecords (mem_query sum_list) a b n t = Inr (rs :: real DailyCostRecord list)" for a b n t
    by (auto simp: QueryCostRecords_def mem_query_def list_ex_iff)
  obtain before after where qs: "QueryCostRecords (mem_query sum_list) (startOfMonth 0 hour) hour ''shop'' first_cycle = Inr before"
    "QueryCostRecords (mem_query sum_list) (startOfMonth 0 hour) hour ''shop'' second_cycle = Inr after"
    using query by meson
  have store: "StoreCostRecords (mem_send (\<lambda>x. x)) [''shop''] (\<lambda>_. [''web'']) (Some (seen_at t)) tab =
      (None, insert_row (cost_row t ''shop'' (the (ag_ByNamespace (seen_at t) ''shop'')) ''web'' 5) tab)" for t tab
    by (simp add: StoreCostRecords_def store_batch_def namespace_rows_def seen_at_def mem_send_def Let_def
        rounded_def cost_row_def)
  have "StoreCostRecords (mem_send (\<lambda>x. x)) [''shop''] (\<lambda>_. [''web'']) (Some (seen_at (5 * minute))) first_cycle =
      (None, second_cycle)" by (simp add: second_cycle_def store)
  moreover have "iterates [''shop''] (ag_ByNamespace (seen_at (5 * minute)))"
    by (simp add: iterates_def seen_at_def)
  moreover have "\<forall>r\<in>set first_cycle. cr_Time r \<noteq> ag_Timestamp (seen_at (5 * minute))"
    unfolding first_cycle_def store snd_conv by (simp add: insert_row_def cost_row_def seen_at_def time_units)
  moreover have "startOfMonth 0 hour = 0" by code_simp
  ultimately show ?thesis
    using stored_costs_count [OF mem_table.cost_database_axioms, of "\<lambda>x. x" "[''shop'']" "\<lambda>_. [''web'']"
        "seen_at (5 * minute)" first_cycle second_cycle 0 hour "''shop''" before after] qs
    by (simp add: seen_at_def namespace_rows_def cost_row_def time_units)
qed

definition cost_request :: Request where
  "cost_request = \<lparr>rq_Method = ''GET'', rq_Path = ''/api/v1/costs'', rq_RoutePath = [], rq_Role = ''viewer'',
     rq_Query = (\<lambda>_. []), rq_Body = None\<rparr>"

text \<open>A table with one row of five dollars, its sums rounded to floating point.\<close>

definition five_dollars :: "real CostRow list" where
  "five_dollars = [cost_row 0 ''shop'' (the (ag_ByNamespace (seen_at 0) ''shop'')) ''web'' 5]"

definition float_sum :: "real list \<Rightarrow> f64" where
  "float_sum xs = mk (sum_list xs)"

definition cost_server :: "real CostRow list \<Rightarrow> (f64, unit) Server" where
  "cost_server t = \<lparr>sr_QueryCostRecords = (\<lambda>a b ns. QueryCostRecords (mem_query float_sum) a b ns t),
     sr_ListPolicies = Inr [], sr_QueryEntries = (\<lambda>_. Inr [])\<rparr>"

lemma api_serves_enforced_costs_witness:
  "\<exists>resp mine. handleGetCosts (cost_server five_dollars) hour (\<lambda>_. ''shop'') cost_request = \<lparr>re_Status = 200, re_Body = BCosts resp\<rparr> \<and>
     rs_TotalCost resp = mk 5 \<and> QueryCostRecords (mem_query float_sum) (hour - 24 * hour) hour ''shop'' five_dollars = Inr mine \<and>
     at0 (rs_ByNamespace resp) ''shop'' = month_cost mine"
proof -
  have group: "mem_groups float_sum (selected (hour - 24 * hour) hour ns five_dollars) = [(0, ''shop'', mk 5)]"
    if "ns \<in> {None, Some ''shop''}" for ns
    using that by (auto simp: mem_groups_def five_dollars_def selected_def cost_row_def time_units day_key_def
        days_of_def daily_sums_def float_sum_def)
  have qs: "QueryCostRecords (mem_query float_sum) (hour - 24 * hour) hour ns five_dollars = Inr [daily_record (0, ''shop'', mk 5)]"
    if "ns \<in> {[], ''shop''}" for ns
    using that group by (auto simp: QueryCostRecords_def mem_query_def)
  have range: "parseTimeRange hour cost_request = Inr (hour - 24 * hour, hour)"
    by (simp add: parseTimeRange_def cost_request_def Let_def)
  have sum: "0 + mk 5 = mk 5" using mk_add [of 0 5] by (simp add: mk_0)
  have server: "sr_QueryCostRecords (cost_server five_dollars) =
      (\<lambda>a b ns. QueryCostRecords (mem_query float_sum) a b ns five_dollars)" by (simp add: cost_server_def)
  let ?d = "daily_record (0, ''shop'', mk 5)"
  have d: "dr_TotalCost ?d = mk 5" "dr_Namespace ?d = ''shop''" by (simp_all add: daily_record_def)
  have records: "QueryCostRecords (mem_query float_sum) (hour - 24 * hour) hour [] five_dollars = Inr [?d]"
    and mine: "QueryCostRecords (mem_query float_sum) (hour - 24 * hour) hour ''shop'' five_dollars = Inr [?d]"
    using qs by blast+
  obtain resp where resp: "handleGetCosts (cost_server five_dollars) hour (\<lambda>_. ''shop'') cost_request = \<lparr>re_Status = 200, re_Body =
        (if is_fin (rs_TotalCost resp) \<and>
            (\<forall>x\<in>set [?d]. is_fin (dr_TotalCost x) \<and> is_fin (at0 (rs_ByNamespace resp) (dr_Namespace x)))
         then BCosts resp else BNone)\<rparr>"
      "rs_TotalCost resp = fold (\<lambda>x c. c + dr_TotalCost x) [?d] 0" "at0 (rs_ByNamespace resp) ''shop'' = month_cost [?d]"
    using api_serves_enforced_costs [OF mem_table.cost_database_axioms server range refl _ records mine] by blast
  moreover have "month_cost [?d] = mk 5" by (simp add: month_cost_def d sum)
  moreover have "is_fin (mk 5 :: f64)" by simp
  ultimately show ?thesis using mine by (auto simp: d sum)
qed

definition mixed_policy :: "f64 FinancialPolicy" where
  "mixed_policy = \<lparr>Name = ''p'', Namespace = ''n'', Annotations = None, ResourceVersion = [],
     Spec = \<lparr>TargetNamespace = ''shop'', Budget = \<lparr>MonthlyLimit = mk 10, AlertThresholds = [], BreachAction = []\<rparr>,
       InstanceMix = Some \<lparr>MinOnDemandPercent = mk 30, MaxSpotPercent = mk 60, AllowedInstanceTypes = []\<rparr>,
       Mode = PolicyModeAutomatic, Alerting = None, Version = 1\<rparr>,
     Status = \<lparr>Phase = PolicyPhaseActive, CurrentCost = 0, BudgetUsagePercent = 0, LastEvaluated = None,
       Conditions = []\<rparr>\<rparr>"

lemma valid_policies_respected_witness:
  "\<exists>r od. GenerateRecommendation [''on_demand'', ''spot'', ''reserved''] 0
       (Some (analyze [''spot'', ''on_demand'', ''reserved''] 0 demo_nodes)) [mixed_policy] = Inr r \<and>
     or_RecommendedMix r ''on_demand'' = Some od \<and> mk 30 \<le> od"
proof -
  have "percent (mk 30 :: f64)" "percent (mk 60 :: f64)" "\<not> mk 10 \<le> (0 :: f64)"
    by (simp_all add: percent_def lit_f64 mk_0 [symmetric])
  then have valid: "ValidateFinancialPolicy mixed_policy = [] \<and> list_all is_fin (spec_numbers (Spec mixed_policy))"
    by (simp add: validate_Nil_iff valid_spec_def spec_numbers_def mixed_policy_def validModes_def policy_constants)
  obtain r where r: "GenerateRecommendation [''on_demand'', ''spot'', ''reserved''] 0
      (Some (analyze [''spot'', ''on_demand'', ''reserved''] 0 demo_nodes)) [mixed_policy] = Inr r"
    using recommendation_made by blast
  have "length demo_nodes < 2 ^ 53" by (simp add: demo_nodes_def)
  from valid_policies_respected [OF _ this _ r, of "[''spot'', ''on_demand'', ''reserved'']" 0] valid r
  show ?thesis by (auto simp: AnalyzeInstanceMix_def mixed_policy_def)
qed

lemma invalid_policies_idle_witness:
  "\<exists>s1. Policy_Controller.Reconcile mem_client 9 \<lparr>stored = [demo_bad], revision = 1\<rparr> (''p'', ''n'') = (None, s1) \<and>
     snd (Orchestrator.Reconcile (main_reconciler mem_client) 0 10 s1 (''p'', ''n'')) = s1"
proof -
  let ?s = "\<lparr>stored = [demo_bad], revision = 1\<rparr>"
  have key: "key demo_bad = (''p'', ''n'')" by (simp add: key_def demo_bad_def)
  have stored: "mem_objs ?s (''p'', ''n'') = Some demo_bad" by (simp add: mem_objs_def key)
  have "ResourceVersion (evaluated 9 demo_bad) = []"
    by (simp add: evaluated_def setCondition_def Let_def demo_bad_def)
  then have "fst (Policy_Controller.Reconcile mem_client 9 ?s (''p'', ''n'')) = None"
    by (simp add: Policy_Controller.Reconcile_def stored mem_status_update_def key Let_def)
  then obtain s1 where run: "Policy_Controller.Reconcile (oc_Client (main_reconciler mem_client)) 9 ?s (''p'', ''n'') = (None, s1)"
    by (cases "Policy_Controller.Reconcile mem_client 9 ?s (''p'', ''n'')") (auto simp: main_reconciler_def)
  have "kube_api (oc_Client (main_reconciler mem_client)) mem_wf mem_objs"
    using mem.kube_api_axioms by (simp add: main_reconciler_def)
  moreover have "mem_wf ?s" by (simp add: mem_wf_def)
  moreover have "ValidateFinancialPolicy demo_bad \<noteq> []"
    by (auto simp: validate_Nil_iff valid_spec_def demo_bad_def)
  ultimately show ?thesis
    using invalid_policies_idle [of "main_reconciler mem_client" mem_wf mem_objs ?s 9 "(''p'', ''n'')" s1 demo_bad 0 10] run stored
    by (auto simp: main_reconciler_def)
qed

end
